theory Spec2Isabelle
  imports Main "HOL-Library.AList"
begin

section \<open>Data model\<close>

text \<open>
  The development embeds \<^verbatim>\<open>pkg/kor/finalizers.go\<close>. Errors are values; the error type of Go
  is a message. A \<^verbatim>\<open>metav1.Time\<close> is a point in time, a pointer to it an option.
\<close>

type_synonym err = string
type_synonym time = int

text \<open>\<^verbatim>\<open>metav1.APIResource\<close> and \<^verbatim>\<open>metav1.APIResourceList\<close>, the fields the scan reads.\<close>

record APIResource =
  Name :: string
  Namespaced :: bool
  Verbs :: "string list"

record APIResourceList =
  GroupVersion :: string
  APIResources :: "APIResource list"

text \<open>\<^verbatim>\<open>schema.GroupVersion\<close>, \<^verbatim>\<open>schema.GroupVersionResource\<close> and \<^verbatim>\<open>gv.WithResource\<close>.\<close>

record GV =
  Group :: string
  Version :: string

record GVR = GV +
  Resource :: string

definition WithResource :: "GV \<Rightarrow> string \<Rightarrow> GVR" where
  "WithResource gv r = \<lparr>Group = Group gv, Version = Version gv, Resource = r\<rparr>"

text \<open>
  An \<^verbatim>\<open>unstructured.Unstructured\<close> object, seen through the accessors the scan calls.
  The labels are a Go map; reading a missing key of a Go map (also of a nil map) gives the
  empty string.
\<close>

record item =
  GetName :: string
  GetNamespace :: string
  GetLabels :: "string \<rightharpoonup> string"
  GetCreationTimestamp :: time
  GetFinalizers :: "string list"
  GetDeletionTimestamp :: "time option"

definition label_at :: "(string \<rightharpoonup> string) \<Rightarrow> string \<Rightarrow> string" where
  "label_at labels k = (case labels k of None \<Rightarrow> [] | Some v \<Rightarrow> v)"

text \<open>\<^verbatim>\<open>metav1.NamespaceAll\<close> is the empty string.\<close>

definition NamespaceAll :: string where
  "NamespaceAll = []"

text \<open>
  Modelled from the spec: the types \<^verbatim>\<open>FilterOptions\<close>, \<^verbatim>\<open>IncludeExcludeLists\<close> and
  \<^verbatim>\<open>Opts\<close> are declared elsewhere in the package; these are the fields that
  \<^verbatim>\<open>finalizers.go\<close> reads, and the age window the spec gives to \<^verbatim>\<open>FilterOptions\<close>.
\<close>

record FilterOptions =
  ExcludeLabels :: "string list"
  OlderThan :: string
  NewerThan :: string

record IncludeExcludeLists =
  IncludeListStr :: "string list"
  ExcludeListStr :: "string list"

record Opts =
  DeleteFlag :: bool
  NoInteractive :: bool

text \<open>
  A Go \<^verbatim>\<open>map[string][]string\<close> and a \<^verbatim>\<open>map[string]map[string][]string\<close> are association
  lists whose keys are kept distinct by \<^const>\<open>AList.update\<close>; \<^const>\<open>map_of\<close> reads them. Go leaves
  the order of \<^verbatim>\<open>range\<close> over a map open; the model ranges in the order of first insertion.
\<close>

type_synonym names_by_type = "(string \<times> string list) list"
type_synonym names_by_namespace = "(string \<times> names_by_type) list"

text \<open>
  What the program does to the outside, in program order: calls of the cluster client and of
  the filter predicates, and the diagnostic lines it prints.
\<close>

datatype event =
    DiscoveryCall
  | ListCall GVR string
  | HasExcludedLabelCall "string \<rightharpoonup> string" "string list"
  | HasIncludedAgeCall time
  | DeleteResourceCall "string list" string string bool
  | DeleteResourceWithFinalizerCall "string list" string string bool
  | PrintErrorFetching err
  | PrintErrorListing string err
  | PrintFailedResources err
  | PrintFailedNamespace string err
  | PrintFailedDelete "string list" string err
  | PrintErr err

text \<open>A call either returns or ends the process through \<^verbatim>\<open>os.Exit\<close>.\<close>

datatype 'a outcome = Exit nat | Return 'a

text \<open>
  The collaborators of \<^verbatim>\<open>finalizers.go\<close>: the discovery and dynamic clients of the Kubernetes
  library, and the functions of the package that live in other files. Each is a parameter of
  the model. A Go function with results \<^verbatim>\<open>(T, error)\<close> whose error decides the value is a sum;
  one whose caller reads both results is a pair.
\<close>

record env =
  ServerPreferredResources :: "err + APIResourceList list"
  ParseGroupVersion :: "string \<Rightarrow> err + GV"
  ListItems :: "GVR \<Rightarrow> string \<Rightarrow> err + item list"
  HasExcludedLabel :: "(string \<rightharpoonup> string) \<Rightarrow> string list \<Rightarrow> bool \<times> err option"
  HasIncludedAge :: "time \<Rightarrow> FilterOptions \<Rightarrow> bool \<times> err option"
  SetNamespaceList :: "IncludeExcludeLists \<Rightarrow> string list"
  DeleteResource :: "string list \<Rightarrow> string \<Rightarrow> string \<Rightarrow> bool \<Rightarrow> string list \<times> err option"
  DeleteResourceWithFinalizer :: "string list \<Rightarrow> string \<Rightarrow> string \<Rightarrow> bool \<Rightarrow> string list \<times> err option"
  FormatOutputFromMap :: "string \<Rightarrow> names_by_type \<Rightarrow> Opts \<Rightarrow> string"
  MarshalIndent :: "names_by_namespace \<Rightarrow> err + string"
  unusedResourceFormatter :: "string \<Rightarrow> string \<Rightarrow> Opts \<Rightarrow> string \<Rightarrow> string \<times> err option"

section \<open>The finalizer predicate\<close>

definition CheckFinalizers :: "string list \<Rightarrow> time option \<Rightarrow> bool" where
  "CheckFinalizers finalizers deletionTimestamp =
     (if length finalizers > 0 \<and> deletionTimestamp \<noteq> None then True else False)"

section \<open>The scans\<close>

text \<open>The state of a scan: the accumulator \<^verbatim>\<open>pendingDeletionResources\<close> and the trace.\<close>

record 'm scan_state =
  pending :: 'm
  trace :: "event list"

definition emit :: "event \<Rightarrow> 'm scan_state \<Rightarrow> 'm scan_state" where
  "emit e s = s\<lparr>trace := trace s @ [e]\<rparr>"

text \<open>\<^verbatim>\<open>m[k]\<close> on a map of slices: the nil slice when the key is missing.\<close>

definition names_at :: "names_by_type \<Rightarrow> string \<Rightarrow> string list" where
  "names_at m k = (case map_of m k of None \<Rightarrow> [] | Some ns \<Rightarrow> ns)"

text \<open>\<^verbatim>\<open>m[k] = append(m[k], name)\<close>\<close>

definition append_name :: "names_by_type \<Rightarrow> string \<Rightarrow> string \<Rightarrow> names_by_type" where
  "append_name m k name = AList.update k (names_at m k @ [name]) m"

text \<open>
  Lines 169 to 172: the inner map of the namespace is made when it is missing, then the name
  is appended under the resource type.
\<close>

definition inner_at :: "names_by_namespace \<Rightarrow> string \<Rightarrow> names_by_type" where
  "inner_at p ns = (case map_of p ns of None \<Rightarrow> [] | Some m \<Rightarrow> m)"

definition append_name_in :: "names_by_namespace \<Rightarrow> string \<Rightarrow> string \<Rightarrow> string \<Rightarrow> names_by_namespace" where
  "append_name_in p ns k name = AList.update ns (append_name (inner_at p ns) k name) p"

subsection \<open>Global scan (lines 128 to 180)\<close>

definition item_body_global ::
  "env \<Rightarrow> FilterOptions \<Rightarrow> string \<Rightarrow> item \<Rightarrow> names_by_namespace scan_state \<Rightarrow> names_by_namespace scan_state" where
  "item_body_global e filterOpts resourceName x s =
     (let labels = GetLabels x in
      if label_at labels ''kor/used'' = ''true'' then s
      else
        let s1 = emit (HasExcludedLabelCall labels (ExcludeLabels filterOpts)) s in
        if fst (HasExcludedLabel e labels (ExcludeLabels filterOpts)) then s1
        else
          let s2 = emit (HasIncludedAgeCall (GetCreationTimestamp x)) s1 in
          if \<not> fst (HasIncludedAge e (GetCreationTimestamp x) filterOpts) then s2
          else if CheckFinalizers (GetFinalizers x) (GetDeletionTimestamp x)
          then s2\<lparr>pending := append_name_in (pending s2) (GetNamespace x) resourceName (GetName x)\<rparr>
          else s2)"

definition resource_body_global ::
  "env \<Rightarrow> FilterOptions \<Rightarrow> string \<Rightarrow> GV \<Rightarrow> APIResource \<Rightarrow> names_by_namespace scan_state \<Rightarrow> names_by_namespace scan_state" where
  "resource_body_global e filterOpts groupVersion gv resourceType s =
     (if Namespaced resourceType \<and> ''list'' \<in> set (Verbs resourceType) then
        let s1 = emit (ListCall (WithResource gv (Name resourceType)) NamespaceAll) s in
        case ListItems e (WithResource gv (Name resourceType)) NamespaceAll of
          Inl er \<Rightarrow> emit (PrintErrorListing groupVersion er) s1
        | Inr items \<Rightarrow> fold (item_body_global e filterOpts (Name resourceType)) items s1
      else s)"

fun groups_loop_global ::
  "env \<Rightarrow> FilterOptions \<Rightarrow> APIResourceList list \<Rightarrow> names_by_namespace scan_state \<Rightarrow> names_by_namespace scan_state \<times> err option" where
  "groups_loop_global e filterOpts [] s = (s, None)"
| "groups_loop_global e filterOpts (apiResourceList # rest) s =
     (case ParseGroupVersion e (GroupVersion apiResourceList) of
        Inl er \<Rightarrow> (s, Some er)
      | Inr gv \<Rightarrow>
          groups_loop_global e filterOpts rest
            (fold (resource_body_global e filterOpts (GroupVersion apiResourceList) gv)
               (APIResources apiResourceList) s))"

definition getResourcesWithFinalizersPendingDeletion ::
  "env \<Rightarrow> string list \<Rightarrow> FilterOptions \<Rightarrow> event list \<times> (names_by_namespace \<times> err option) outcome" where
  "getResourcesWithFinalizersPendingDeletion e namespaces filterOpts =
     (case ServerPreferredResources e of
        Inl er \<Rightarrow> ([DiscoveryCall, PrintErrorFetching er], Exit 1)
      | Inr resourceTypes \<Rightarrow>
          (case groups_loop_global e filterOpts resourceTypes \<lparr>pending = [], trace = [DiscoveryCall]\<rparr> of
             (s, er) \<Rightarrow> (trace s, Return (pending s, er))))"

subsection \<open>Scan of one namespace (lines 182 to 229)\<close>

definition item_body_namespaced ::
  "env \<Rightarrow> FilterOptions \<Rightarrow> string \<Rightarrow> item \<Rightarrow> names_by_type scan_state \<Rightarrow> names_by_type scan_state" where
  "item_body_namespaced e filterOpts resourceName x s =
     (let labels = GetLabels x in
      if label_at labels ''kor/used'' = ''true'' then s
      else
        let s1 = emit (HasExcludedLabelCall labels (ExcludeLabels filterOpts)) s in
        if fst (HasExcludedLabel e labels (ExcludeLabels filterOpts)) then s1
        else
          let s2 = emit (HasIncludedAgeCall (GetCreationTimestamp x)) s1 in
          if \<not> fst (HasIncludedAge e (GetCreationTimestamp x) filterOpts) then s2
          else if CheckFinalizers (GetFinalizers x) (GetDeletionTimestamp x)
          then s2\<lparr>pending := append_name (pending s2) resourceName (GetName x)\<rparr>
          else s2)"

definition resource_body_namespaced ::
  "env \<Rightarrow> FilterOptions \<Rightarrow> string \<Rightarrow> string \<Rightarrow> GV \<Rightarrow> APIResource \<Rightarrow> names_by_type scan_state \<Rightarrow> names_by_type scan_state" where
  "resource_body_namespaced e filterOpts namespace groupVersion gv resourceType s =
     (if Namespaced resourceType \<and> ''list'' \<in> set (Verbs resourceType) then
        let s1 = emit (ListCall (WithResource gv (Name resourceType)) namespace) s in
        case ListItems e (WithResource gv (Name resourceType)) namespace of
          Inl er \<Rightarrow> emit (PrintErrorListing groupVersion er) s1
        | Inr items \<Rightarrow> fold (item_body_namespaced e filterOpts (Name resourceType)) items s1
      else s)"

fun groups_loop_namespaced ::
  "env \<Rightarrow> FilterOptions \<Rightarrow> string \<Rightarrow> APIResourceList list \<Rightarrow> names_by_type scan_state \<Rightarrow> names_by_type scan_state \<times> err option" where
  "groups_loop_namespaced e filterOpts namespace [] s = (s, None)"
| "groups_loop_namespaced e filterOpts namespace (apiResourceList # rest) s =
     (case ParseGroupVersion e (GroupVersion apiResourceList) of
        Inl er \<Rightarrow> (s, Some er)
      | Inr gv \<Rightarrow>
          groups_loop_namespaced e filterOpts namespace rest
            (fold (resource_body_namespaced e filterOpts namespace (GroupVersion apiResourceList) gv)
               (APIResources apiResourceList) s))"

definition getNamespacedResourcesWithFinalizersPendingDeletion ::
  "env \<Rightarrow> string \<Rightarrow> FilterOptions \<Rightarrow> event list \<times> (names_by_type \<times> err option) outcome" where
  "getNamespacedResourcesWithFinalizersPendingDeletion e namespace filterOpts =
     (case ServerPreferredResources e of
        Inl er \<Rightarrow> ([DiscoveryCall, PrintErrorFetching er], Exit 1)
      | Inr resourceTypes \<Rightarrow>
          (case groups_loop_namespaced e filterOpts namespace resourceTypes \<lparr>pending = [], trace = [DiscoveryCall]\<rparr> of
             (s, er) \<Rightarrow> (trace s, Return (pending s, er))))"

section \<open>The driver \<^verbatim>\<open>GetUnusedfinalizers\<close> (lines 231 to 289)\<close>

text \<open>
  The state of the driver: the text buffer, the response map and the trace. The scans hand
  their trace back and the driver appends it.
\<close>

record run_state =
  outputBuffer :: string
  response :: names_by_namespace
  log :: "event list"

text \<open>
  Lines 242 to 248 and 263 to 269. The result of the delete call is assigned to the range
  variable \<^verbatim>\<open>resourceDiff\<close>, which the error message reads; the map that is ranged over is
  not written. So the loop changes only the trace. The delete collaborators get the slice by
  value and return a slice of their own.
\<close>

definition delete_body_global ::
  "env \<Rightarrow> Opts \<Rightarrow> string \<Rightarrow> string \<times> string list \<Rightarrow> event list \<Rightarrow> event list" where
  "delete_body_global e opts namespace entry tr =
     (case entry of (resourceType, resourceDiff) \<Rightarrow>
        if DeleteFlag opts then
          (case DeleteResourceWithFinalizer e resourceDiff namespace resourceType (NoInteractive opts) of
             (resourceDiff', Some er) \<Rightarrow>
               tr @ [DeleteResourceWithFinalizerCall resourceDiff namespace resourceType (NoInteractive opts),
                     PrintFailedDelete resourceDiff' namespace er]
           | (resourceDiff', None) \<Rightarrow>
               tr @ [DeleteResourceWithFinalizerCall resourceDiff namespace resourceType (NoInteractive opts)])
        else tr)"

definition delete_body_scoped ::
  "env \<Rightarrow> Opts \<Rightarrow> string \<Rightarrow> string \<times> string list \<Rightarrow> event list \<Rightarrow> event list" where
  "delete_body_scoped e opts namespace entry tr =
     (case entry of (resourceType, resourceDiff) \<Rightarrow>
        if DeleteFlag opts then
          (case DeleteResource e resourceDiff namespace resourceType (NoInteractive opts) of
             (resourceDiff', Some er) \<Rightarrow>
               tr @ [DeleteResourceCall resourceDiff namespace resourceType (NoInteractive opts),
                     PrintFailedDelete resourceDiff' namespace er]
           | (resourceDiff', None) \<Rightarrow>
               tr @ [DeleteResourceCall resourceDiff namespace resourceType (NoInteractive opts)])
        else tr)"

text \<open>Lines 240 to 254: the body of the range over the result of the global scan.\<close>

definition namespace_body_global ::
  "env \<Rightarrow> Opts \<Rightarrow> string list \<Rightarrow> string \<times> names_by_type \<Rightarrow> run_state \<Rightarrow> run_state" where
  "namespace_body_global e opts namespaces entry st =
     (case entry of (namespace, data) \<Rightarrow>
        if namespace \<in> set namespaces then
          \<lparr>outputBuffer = outputBuffer st @ FormatOutputFromMap e namespace data opts @ [CHR 0x0A],
           response = AList.update namespace data (response st),
           log = fold (delete_body_global e opts namespace) data (log st)\<rparr>
        else st)"

text \<open>
  The two modes give the state they reach and, when a scan has ended the process, the exit
  code.
\<close>

definition global_mode ::
  "env \<Rightarrow> FilterOptions \<Rightarrow> Opts \<Rightarrow> string list \<Rightarrow> run_state \<Rightarrow> run_state \<times> nat option" where
  "global_mode e filterOpts opts namespaces st =
     (case getResourcesWithFinalizersPendingDeletion e namespaces filterOpts of
        (tr, Exit code) \<Rightarrow> (st\<lparr>log := log st @ tr\<rparr>, Some code)
      | (tr, Return (resourceDiffs, er)) \<Rightarrow>
          (fold (namespace_body_global e opts namespaces) resourceDiffs
             (st\<lparr>log := log st @ tr @ (case er of None \<Rightarrow> [] | Some x \<Rightarrow> [PrintFailedResources x])\<rparr>),
           None))"

text \<open>Lines 257 to 275: the loop over the namespaces; a scan that fails skips its namespace.\<close>

definition namespace_body_scoped ::
  "env \<Rightarrow> Opts \<Rightarrow> string \<Rightarrow> names_by_type \<Rightarrow> run_state \<Rightarrow> run_state" where
  "namespace_body_scoped e opts namespace resourceDiffs st =
     \<lparr>outputBuffer = outputBuffer st @ FormatOutputFromMap e namespace resourceDiffs opts @ [CHR 0x0A],
      response = AList.update namespace resourceDiffs (response st),
      log = fold (delete_body_scoped e opts namespace) resourceDiffs (log st)\<rparr>"

fun scoped_mode ::
  "env \<Rightarrow> FilterOptions \<Rightarrow> Opts \<Rightarrow> string list \<Rightarrow> run_state \<Rightarrow> run_state \<times> nat option" where
  "scoped_mode e filterOpts opts [] st = (st, None)"
| "scoped_mode e filterOpts opts (namespace # rest) st =
     (case getNamespacedResourcesWithFinalizersPendingDeletion e namespace filterOpts of
        (tr, Exit code) \<Rightarrow> (st\<lparr>log := log st @ tr\<rparr>, Some code)
      | (tr, Return (resourceDiffs, Some er)) \<Rightarrow>
          scoped_mode e filterOpts opts rest (st\<lparr>log := log st @ tr @ [PrintFailedNamespace namespace er]\<rparr>)
      | (tr, Return (resourceDiffs, None)) \<Rightarrow>
          scoped_mode e filterOpts opts rest
            (namespace_body_scoped e opts namespace resourceDiffs (st\<lparr>log := log st @ tr\<rparr>)))"

text \<open>Lines 232 to 276: everything before the marshalling.\<close>

definition collect ::
  "env \<Rightarrow> IncludeExcludeLists \<Rightarrow> FilterOptions \<Rightarrow> Opts \<Rightarrow> run_state \<times> nat option" where
  "collect e includeExcludeLists filterOpts opts =
     (let namespaces = SetNamespaceList e includeExcludeLists;
          st = \<lparr>outputBuffer = [], response = [], log = []\<rparr>
      in if length (ExcludeListStr includeExcludeLists) = 0 \<and> length (IncludeListStr includeExcludeLists) = 0
         then global_mode e filterOpts opts namespaces st
         else scoped_mode e filterOpts opts namespaces st)"

text \<open>
  Lines 278 to 288: the marshalling and the formatter, from the state \<^verbatim>\<open>collect\<close> reached.
  The result is the trace of the run and the pair the function returns.
\<close>

definition finish :: "env \<Rightarrow> string \<Rightarrow> Opts \<Rightarrow> run_state \<Rightarrow> event list \<times> (string \<times> err option) outcome" where
  "finish e outputFormat opts st =
     (case MarshalIndent e (response st) of
        Inl er \<Rightarrow> (log st, Return ([], Some er))
      | Inr jsonResponse \<Rightarrow>
          (case unusedResourceFormatter e outputFormat (outputBuffer st) opts jsonResponse of
             (unusedFinalizers, Some er) \<Rightarrow> (log st @ [PrintErr er], Return (unusedFinalizers, None))
           | (unusedFinalizers, None) \<Rightarrow> (log st, Return (unusedFinalizers, None))))"

definition GetUnusedfinalizers ::
  "env \<Rightarrow> IncludeExcludeLists \<Rightarrow> FilterOptions \<Rightarrow> string \<Rightarrow> Opts \<Rightarrow> event list \<times> (string \<times> err option) outcome" where
  "GetUnusedfinalizers e includeExcludeLists filterOpts outputFormat opts =
     (case collect e includeExcludeLists filterOpts opts of
        (st, Some code) \<Rightarrow> (log st, Exit code)
      | (st, None) \<Rightarrow> finish e outputFormat opts st)"

section \<open>The earlier revision of the scan (lines 18 to 65)\<close>

text \<open>
  The first revision in the file has one scan, of one namespace, with the finalizer test
  written in place (line 56). Its driver is the scoped branch of the later one.
\<close>

definition item_body_v1 ::
  "env \<Rightarrow> FilterOptions \<Rightarrow> string \<Rightarrow> item \<Rightarrow> names_by_type scan_state \<Rightarrow> names_by_type scan_state" where
  "item_body_v1 e filterOpts resourceName x s =
     (let labels = GetLabels x in
      if label_at labels ''kor/used'' = ''true'' then s
      else
        let s1 = emit (HasExcludedLabelCall labels (ExcludeLabels filterOpts)) s in
        if fst (HasExcludedLabel e labels (ExcludeLabels filterOpts)) then s1
        else
          let s2 = emit (HasIncludedAgeCall (GetCreationTimestamp x)) s1 in
          if \<not> fst (HasIncludedAge e (GetCreationTimestamp x) filterOpts) then s2
          else if length (GetFinalizers x) > 0 \<and> GetDeletionTimestamp x \<noteq> None
          then s2\<lparr>pending := append_name (pending s2) resourceName (GetName x)\<rparr>
          else s2)"

definition resource_body_v1 ::
  "env \<Rightarrow> FilterOptions \<Rightarrow> string \<Rightarrow> string \<Rightarrow> GV \<Rightarrow> APIResource \<Rightarrow> names_by_type scan_state \<Rightarrow> names_by_type scan_state" where
  "resource_body_v1 e filterOpts namespace groupVersion gv resource s =
     (if Namespaced resource \<and> ''list'' \<in> set (Verbs resource) then
        let s1 = emit (ListCall (WithResource gv (Name resource)) namespace) s in
        case ListItems e (WithResource gv (Name resource)) namespace of
          Inl er \<Rightarrow> emit (PrintErrorListing groupVersion er) s1
        | Inr items \<Rightarrow> fold (item_body_v1 e filterOpts (Name resource)) items s1
      else s)"

fun groups_loop_v1 ::
  "env \<Rightarrow> FilterOptions \<Rightarrow> string \<Rightarrow> APIResourceList list \<Rightarrow> names_by_type scan_state \<Rightarrow> names_by_type scan_state \<times> err option" where
  "groups_loop_v1 e filterOpts namespace [] s = (s, None)"
| "groups_loop_v1 e filterOpts namespace (apiResourceList # rest) s =
     (case ParseGroupVersion e (GroupVersion apiResourceList) of
        Inl er \<Rightarrow> (s, Some er)
      | Inr gv \<Rightarrow>
          groups_loop_v1 e filterOpts namespace rest
            (fold (resource_body_v1 e filterOpts namespace (GroupVersion apiResourceList) gv)
               (APIResources apiResourceList) s))"

definition getResourcesWithFinalizersPendingDeletion_v1 ::
  "env \<Rightarrow> string \<Rightarrow> FilterOptions \<Rightarrow> event list \<times> (names_by_type \<times> err option) outcome" where
  "getResourcesWithFinalizersPendingDeletion_v1 e namespace filterOpts =
     (case ServerPreferredResources e of
        Inl er \<Rightarrow> ([DiscoveryCall, PrintErrorFetching er], Exit 1)
      | Inr resourceTypes \<Rightarrow>
          (case groups_loop_v1 e filterOpts namespace resourceTypes \<lparr>pending = [], trace = [DiscoveryCall]\<rparr> of
             (s, er) \<Rightarrow> (trace s, Return (pending s, er))))"

section \<open>A cluster snapshot behind the lister\<close>

text \<open>
  Modelled from the spec: the Object Lister of section 4.2, which is the dynamic client of the
  Kubernetes library. Given a resource type and a scope, all namespaces or one namespace, it
  returns the live objects of that type in that scope, or fails for that type. A snapshot
  holds, per resource type, the objects of all namespaces or the failure.
\<close>

record cluster =
  objects :: "(GVR \<times> (err + item list)) list"

definition cluster_list :: "cluster \<Rightarrow> GVR \<Rightarrow> string \<Rightarrow> err + item list" where
  "cluster_list c gvr namespace =
     (case map_of (objects c) gvr of
        None \<Rightarrow> Inl ''the server could not find the requested resource''
      | Some (Inl er) \<Rightarrow> Inl er
      | Some (Inr items) \<Rightarrow>
          Inr (if namespace = NamespaceAll then items
               else filter (\<lambda>x. GetNamespace x = namespace) items))"

text \<open>
  A namespace list names all namespaces of a snapshot when every object lives in one of them;
  the name of a namespace is not empty.
\<close>

definition all_namespaces :: "cluster \<Rightarrow> string list \<Rightarrow> bool" where
  "all_namespaces c namespaces =
     (NamespaceAll \<notin> set namespaces \<and>
      list_all (\<lambda>entry. case snd entry of
                  Inl er \<Rightarrow> True
                | Inr items \<Rightarrow> list_all (\<lambda>x. GetNamespace x \<in> set namespaces) items)
        (objects c))"

section \<open>Reading the results\<close>

text \<open>The pending entries of a result: resource type and name, with the namespace in front.\<close>

definition entries_of :: "names_by_type \<Rightarrow> (string \<times> string) set" where
  "entries_of m = {(t, n). n \<in> set (names_at m t)}"

definition entries_global :: "names_by_namespace \<Rightarrow> (string \<times> string \<times> string) set" where
  "entries_global p = {(ns, t, n). (t, n) \<in> entries_of (inner_at p ns)}"

definition global_entries ::
  "event list \<times> (names_by_namespace \<times> err option) outcome \<Rightarrow> (string \<times> string \<times> string) set" where
  "global_entries r = (case snd r of Exit code \<Rightarrow> {} | Return (p, er) \<Rightarrow> entries_global p)"

definition scoped_entries ::
  "string \<Rightarrow> event list \<times> (names_by_type \<times> err option) outcome \<Rightarrow> (string \<times> string \<times> string) set" where
  "scoped_entries namespace r =
     (case snd r of Exit code \<Rightarrow> {} | Return (m, er) \<Rightarrow> {namespace} \<times> entries_of m)"

text \<open>What a scan returns besides the names: the exit code or the error.\<close>

definition verdict :: "event list \<times> ('m \<times> err option) outcome \<Rightarrow> (err option) outcome" where
  "verdict r = (case snd r of Exit code \<Rightarrow> Exit code | Return (m, er) \<Rightarrow> Return er)"

text \<open>
  The filter pipeline of lines 153 to 168 as one condition, and the calls it makes for an
  object.
\<close>

definition kept :: "env \<Rightarrow> FilterOptions \<Rightarrow> item \<Rightarrow> bool" where
  "kept e filterOpts x =
     (label_at (GetLabels x) ''kor/used'' \<noteq> ''true'' \<and>
      \<not> fst (HasExcludedLabel e (GetLabels x) (ExcludeLabels filterOpts)) \<and>
      fst (HasIncludedAge e (GetCreationTimestamp x) filterOpts) \<and>
      CheckFinalizers (GetFinalizers x) (GetDeletionTimestamp x))"

definition filter_calls :: "env \<Rightarrow> FilterOptions \<Rightarrow> item \<Rightarrow> event list" where
  "filter_calls e filterOpts x =
     (if label_at (GetLabels x) ''kor/used'' = ''true'' then []
      else if fst (HasExcludedLabel e (GetLabels x) (ExcludeLabels filterOpts))
      then [HasExcludedLabelCall (GetLabels x) (ExcludeLabels filterOpts)]
      else [HasExcludedLabelCall (GetLabels x) (ExcludeLabels filterOpts),
            HasIncludedAgeCall (GetCreationTimestamp x)])"

text \<open>A lister that hides every object labelled \<^verbatim>\<open>kor/used=true\<close>.\<close>

definition without_used :: "env \<Rightarrow> env" where
  "without_used e =
     e\<lparr>ListItems := (\<lambda>gvr namespace.
          case ListItems e gvr namespace of
            Inl er \<Rightarrow> Inl er
          | Inr items \<Rightarrow> Inr (filter (\<lambda>x. label_at (GetLabels x) ''kor/used'' \<noteq> ''true'') items))\<rparr>"

text \<open>Counting and selecting events of a trace.\<close>

definition discovery_calls :: "event list \<Rightarrow> nat" where
  "discovery_calls tr = length (filter (\<lambda>ev. ev = DiscoveryCall) tr)"

fun list_scope :: "event \<Rightarrow> string option" where
  "list_scope (ListCall gvr namespace) = Some namespace"
| "list_scope ev = None"

fun plain_delete :: "event \<Rightarrow> bool" where
  "plain_delete (DeleteResourceCall d namespace t ni) = True"
| "plain_delete ev = False"

fun finalizer_delete :: "event \<Rightarrow> bool" where
  "finalizer_delete (DeleteResourceWithFinalizerCall d namespace t ni) = True"
| "finalizer_delete ev = False"

fun delete_namespace :: "event \<Rightarrow> string option" where
  "delete_namespace (DeleteResourceCall d namespace t ni) = Some namespace"
| "delete_namespace (DeleteResourceWithFinalizerCall d namespace t ni) = Some namespace"
| "delete_namespace ev = None"

text \<open>
  The events of a run in global mode after the discovery call, and the events of a run in
  scoped mode, for the resolved namespace list.
\<close>

definition global_event :: "string list \<Rightarrow> event \<Rightarrow> bool" where
  "global_event namespaces ev =
     (ev \<noteq> DiscoveryCall \<and>
      (case list_scope ev of None \<Rightarrow> True | Some n \<Rightarrow> n = NamespaceAll) \<and>
      \<not> plain_delete ev \<and>
      (case delete_namespace ev of None \<Rightarrow> True | Some n \<Rightarrow> n \<in> set namespaces))"

definition scoped_event :: "string list \<Rightarrow> event \<Rightarrow> bool" where
  "scoped_event namespaces ev =
     ((case list_scope ev of None \<Rightarrow> True | Some n \<Rightarrow> n \<in> set namespaces) \<and>
      \<not> finalizer_delete ev \<and>
      (case delete_namespace ev of None \<Rightarrow> True | Some n \<Rightarrow> n \<in> set namespaces))"

text \<open>Every name list of a result holds a name; every namespace of a global result a type.\<close>

definition names_nonempty :: "names_by_type \<Rightarrow> bool" where
  "names_nonempty m = list_all (\<lambda>group. snd group \<noteq> []) m"

definition filled :: "names_by_namespace \<Rightarrow> bool" where
  "filled p = list_all (\<lambda>entry. snd entry \<noteq> [] \<and> names_nonempty (snd entry)) p"

text \<open>The names the scan of one namespace returns, when it returns with a nil error.\<close>

definition scoped_result :: "env \<Rightarrow> FilterOptions \<Rightarrow> string \<Rightarrow> names_by_type option" where
  "scoped_result e filterOpts namespace =
     (case snd (getNamespacedResourcesWithFinalizersPendingDeletion e namespace filterOpts) of
        Exit code \<Rightarrow> None
      | Return (m, Some er) \<Rightarrow> None
      | Return (m, None) \<Rightarrow> Some m)"

section \<open>What a run is expected to do\<close>

text \<open>
  The events of one delete step: the call of the delete collaborator for a group of names
  when the delete flag is set, and the line printed when the call returns an error.
\<close>

definition delete_events_global :: "env \<Rightarrow> Opts \<Rightarrow> string \<Rightarrow> string \<times> string list \<Rightarrow> event list" where
  "delete_events_global e opts namespace grp =
     (if DeleteFlag opts then
        DeleteResourceWithFinalizerCall (snd grp) namespace (fst grp) (NoInteractive opts) #
        (case snd (DeleteResourceWithFinalizer e (snd grp) namespace (fst grp) (NoInteractive opts)) of
           None \<Rightarrow> []
         | Some er \<Rightarrow>
             [PrintFailedDelete
                (fst (DeleteResourceWithFinalizer e (snd grp) namespace (fst grp) (NoInteractive opts)))
                namespace er])
      else [])"

definition delete_events_scoped :: "env \<Rightarrow> Opts \<Rightarrow> string \<Rightarrow> string \<times> string list \<Rightarrow> event list" where
  "delete_events_scoped e opts namespace grp =
     (if DeleteFlag opts then
        DeleteResourceCall (snd grp) namespace (fst grp) (NoInteractive opts) #
        (case snd (DeleteResource e (snd grp) namespace (fst grp) (NoInteractive opts)) of
           None \<Rightarrow> []
         | Some er \<Rightarrow>
             [PrintFailedDelete
                (fst (DeleteResource e (snd grp) namespace (fst grp) (NoInteractive opts)))
                namespace er])
      else [])"

text \<open>
  The events of scoped mode for one namespace: the trace of its scan, then the line for a
  scan that returned an error, or the delete steps of the groups the scan returned.
\<close>

definition scoped_events :: "env \<Rightarrow> FilterOptions \<Rightarrow> Opts \<Rightarrow> string \<Rightarrow> event list" where
  "scoped_events e filterOpts opts namespace =
     (case getNamespacedResourcesWithFinalizersPendingDeletion e namespace filterOpts of
        (tr, Exit code) \<Rightarrow> tr
      | (tr, Return (m, Some er)) \<Rightarrow> tr @ [PrintFailedNamespace namespace er]
      | (tr, Return (m, None)) \<Rightarrow> tr @ concat (map (delete_events_scoped e opts namespace) m))"

text \<open>
  The pending objects of one resource type in a scope, as entries and, in listing order, as a
  list: the objects that pass the filter pipeline, when the type is namespaced and listable
  and its list call succeeds. A type whose list call fails has none. Then the same for a
  whole catalog, over the groups whose group version parses.
\<close>

definition type_hits_global :: "env \<Rightarrow> FilterOptions \<Rightarrow> GV \<Rightarrow> APIResource \<Rightarrow> (string \<times> string \<times> string) set" where
  "type_hits_global e filterOpts gv r =
     {(GetNamespace x, Name r, GetName x) | x items.
        Namespaced r \<and> ''list'' \<in> set (Verbs r) \<and>
        ListItems e (WithResource gv (Name r)) NamespaceAll = Inr items \<and>
        x \<in> set items \<and> kept e filterOpts x}"

definition type_hits_namespaced :: "env \<Rightarrow> FilterOptions \<Rightarrow> string \<Rightarrow> GV \<Rightarrow> APIResource \<Rightarrow> (string \<times> string) set" where
  "type_hits_namespaced e filterOpts namespace gv r =
     {(Name r, GetName x) | x items.
        Namespaced r \<and> ''list'' \<in> set (Verbs r) \<and>
        ListItems e (WithResource gv (Name r)) namespace = Inr items \<and>
        x \<in> set items \<and> kept e filterOpts x}"

definition hits_global :: "env \<Rightarrow> FilterOptions \<Rightarrow> APIResourceList list \<Rightarrow> (string \<times> string \<times> string) set" where
  "hits_global e filterOpts gs =
     {h. \<exists>g gv r. g \<in> set gs \<and> ParseGroupVersion e (GroupVersion g) = Inr gv \<and>
           r \<in> set (APIResources g) \<and> h \<in> type_hits_global e filterOpts gv r}"

definition hits_namespaced :: "env \<Rightarrow> FilterOptions \<Rightarrow> string \<Rightarrow> APIResourceList list \<Rightarrow> (string \<times> string) set" where
  "hits_namespaced e filterOpts namespace gs =
     {h. \<exists>g gv r. g \<in> set gs \<and> ParseGroupVersion e (GroupVersion g) = Inr gv \<and>
           r \<in> set (APIResources g) \<and> h \<in> type_hits_namespaced e filterOpts namespace gv r}"

definition type_hit_list :: "env \<Rightarrow> FilterOptions \<Rightarrow> string \<Rightarrow> GV \<Rightarrow> APIResource \<Rightarrow> (string \<times> item) list" where
  "type_hit_list e filterOpts scope gv r =
     (if Namespaced r \<and> ''list'' \<in> set (Verbs r) then
        (case ListItems e (WithResource gv (Name r)) scope of
           Inl er \<Rightarrow> []
         | Inr items \<Rightarrow> map (\<lambda>x. (Name r, x)) (filter (kept e filterOpts) items))
      else [])"

text \<open>
  The events of one resource type in a scope: nothing for a type that is not namespaced or
  not listable; else the list call, followed by the printed error when it fails and by the
  filter calls of the listed objects when it succeeds.
\<close>

definition type_events :: "env \<Rightarrow> FilterOptions \<Rightarrow> string \<Rightarrow> string \<Rightarrow> GV \<Rightarrow> APIResource \<Rightarrow> event list" where
  "type_events e filterOpts scope groupVersion gv r =
     (if Namespaced r \<and> ''list'' \<in> set (Verbs r) then
        ListCall (WithResource gv (Name r)) scope #
        (case ListItems e (WithResource gv (Name r)) scope of
           Inl er \<Rightarrow> [PrintErrorListing groupVersion er]
         | Inr items \<Rightarrow> concat (map (filter_calls e filterOpts) items))
      else [])"

definition catalog_hit_list :: "env \<Rightarrow> FilterOptions \<Rightarrow> string \<Rightarrow> APIResourceList list \<Rightarrow> (string \<times> item) list" where
  "catalog_hit_list e filterOpts scope gs =
     concat (map (\<lambda>g. case ParseGroupVersion e (GroupVersion g) of
                         Inl er \<Rightarrow> []
                       | Inr gv \<Rightarrow> concat (map (type_hit_list e filterOpts scope gv) (APIResources g)))
               gs)"

definition catalog_events :: "env \<Rightarrow> FilterOptions \<Rightarrow> string \<Rightarrow> APIResourceList list \<Rightarrow> event list" where
  "catalog_events e filterOpts scope gs =
     concat (map (\<lambda>g. case ParseGroupVersion e (GroupVersion g) of
                         Inl er \<Rightarrow> []
                       | Inr gv \<Rightarrow> concat (map (type_events e filterOpts scope (GroupVersion g) gv) (APIResources g)))
               gs)"

text \<open>Filing one pending object in the accumulator of the global scan and of a scoped scan.\<close>

definition file_global :: "string \<times> item \<Rightarrow> names_by_namespace \<Rightarrow> names_by_namespace" where
  "file_global hit p = append_name_in p (GetNamespace (snd hit)) (fst hit) (GetName (snd hit))"

definition file_namespaced :: "string \<times> item \<Rightarrow> names_by_type \<Rightarrow> names_by_type" where
  "file_namespaced hit m = append_name m (fst hit) (GetName (snd hit))"

text \<open>
  The loop over the groups returns at the first group version that does not parse (lines 139
  to 142 and 192 to 195): the groups scanned are those before it, and the error returned is
  that of the first group version that does not parse.
\<close>

definition parses :: "env \<Rightarrow> APIResourceList \<Rightarrow> bool" where
  "parses e g = (case ParseGroupVersion e (GroupVersion g) of Inl er \<Rightarrow> False | Inr gv \<Rightarrow> True)"

definition parsed_prefix :: "env \<Rightarrow> APIResourceList list \<Rightarrow> APIResourceList list" where
  "parsed_prefix e gs = takeWhile (parses e) gs"

definition parse_error :: "env \<Rightarrow> APIResourceList list \<Rightarrow> err option" where
  "parse_error e gs =
     (case dropWhile (parses e) gs of
        [] \<Rightarrow> None
      | g # rest \<Rightarrow> (case ParseGroupVersion e (GroupVersion g) of Inl er \<Rightarrow> Some er | Inr gv \<Rightarrow> None))"

section \<open>A small cluster\<close>

text \<open>
  Three namespaces. The config maps \<^verbatim>\<open>cm-a\<close> (in \<^verbatim>\<open>default\<close>) and \<^verbatim>\<open>cm-c\<close> (in
  \<^verbatim>\<open>kube-system\<close>) are stuck in deletion; \<^verbatim>\<open>cm-b\<close> is too, and is labelled as used; \<^verbatim>\<open>cm-d\<close>
  has a finalizer and no deletion timestamp. Listing secrets is forbidden. The deployment
  \<^verbatim>\<open>web\<close> in \<^verbatim>\<open>staging\<close> is stuck in deletion.
\<close>

definition cm_a :: item where
  "cm_a = \<lparr>GetName = ''cm-a'', GetNamespace = ''default'', GetLabels = Map.empty,
            GetCreationTimestamp = 10, GetFinalizers = [''fin.example/x''],
            GetDeletionTimestamp = Some 20\<rparr>"

definition cm_b :: item where
  "cm_b = \<lparr>GetName = ''cm-b'', GetNamespace = ''default'', GetLabels = [''kor/used'' \<mapsto> ''true''],
            GetCreationTimestamp = 11, GetFinalizers = [''fin.example/x''],
            GetDeletionTimestamp = Some 21\<rparr>"

definition cm_c :: item where
  "cm_c = \<lparr>GetName = ''cm-c'', GetNamespace = ''kube-system'', GetLabels = Map.empty,
            GetCreationTimestamp = 12, GetFinalizers = [''fin.example/y''],
            GetDeletionTimestamp = Some 22\<rparr>"

definition cm_d :: item where
  "cm_d = \<lparr>GetName = ''cm-d'', GetNamespace = ''default'', GetLabels = Map.empty,
            GetCreationTimestamp = 13, GetFinalizers = [''fin.example/x''],
            GetDeletionTimestamp = None\<rparr>"

definition web :: item where
  "web = \<lparr>GetName = ''web'', GetNamespace = ''staging'', GetLabels = Map.empty,
           GetCreationTimestamp = 14, GetFinalizers = [''fin.example/z''],
           GetDeletionTimestamp = Some 24\<rparr>"

definition ex_catalog :: "APIResourceList list" where
  "ex_catalog =
     [\<lparr>GroupVersion = ''v1'', APIResources =
         [\<lparr>Name = ''configmaps'', Namespaced = True, Verbs = [''get'', ''list'']\<rparr>,
          \<lparr>Name = ''secrets'', Namespaced = True, Verbs = [''get'', ''list'']\<rparr>,
          \<lparr>Name = ''nodes'', Namespaced = False, Verbs = [''get'', ''list'']\<rparr>]\<rparr>,
      \<lparr>GroupVersion = ''apps/v1'', APIResources =
         [\<lparr>Name = ''deployments'', Namespaced = True, Verbs = [''list'']\<rparr>]\<rparr>]"

definition ex_cluster :: cluster where
  "ex_cluster = \<lparr>objects =
     [(\<lparr>Group = [], Version = ''v1'', Resource = ''configmaps''\<rparr>, Inr [cm_a, cm_b, cm_c, cm_d]),
      (\<lparr>Group = [], Version = ''v1'', Resource = ''secrets''\<rparr>, Inl ''forbidden''),
      (\<lparr>Group = ''apps'', Version = ''v1'', Resource = ''deployments''\<rparr>, Inr [web])]\<rparr>"

definition ex_parse :: "string \<Rightarrow> err + GV" where
  "ex_parse s =
     (if s = ''v1'' then Inr \<lparr>Group = [], Version = ''v1''\<rparr>
      else if s = ''apps/v1'' then Inr \<lparr>Group = ''apps'', Version = ''v1''\<rparr>
      else Inl ''unexpected GroupVersion string'')"

text \<open>
  Collaborators for the small cluster: nothing is excluded by label or by age, the namespace
  resolver gives the include list, or \<^verbatim>\<open>default\<close> and \<^verbatim>\<open>kube-system\<close> when there is none,
  and every delete succeeds and leaves nothing behind.
\<close>

definition ex_env :: env where
  "ex_env =
     \<lparr>ServerPreferredResources = Inr ex_catalog,
      ParseGroupVersion = ex_parse,
      ListItems = cluster_list ex_cluster,
      HasExcludedLabel = (\<lambda>labels excludeLabels. (False, None)),
      HasIncludedAge = (\<lambda>creationTime filterOpts. (True, None)),
      SetNamespaceList = (\<lambda>l. if IncludeListStr l = [] then [''default'', ''kube-system'']
                                else IncludeListStr l),
      DeleteResource = (\<lambda>diff namespace resourceType noInteractive. ([], None)),
      DeleteResourceWithFinalizer = (\<lambda>diff namespace resourceType noInteractive. ([], None)),
      FormatOutputFromMap = (\<lambda>namespace m opts.
        namespace @ '':'' @ concat (map (\<lambda>entry. concat (map (\<lambda>n. '' '' @ n) (snd entry))) m)),
      MarshalIndent = (\<lambda>r. Inr ''{}''),
      unusedResourceFormatter = (\<lambda>outputFormat buffer opts jsonResponse. (buffer, None))\<rparr>"

definition ex_filterOpts :: FilterOptions where
  "ex_filterOpts = \<lparr>ExcludeLabels = [], OlderThan = [], NewerThan = []\<rparr>"

definition no_lists :: IncludeExcludeLists where
  "no_lists = \<lparr>IncludeListStr = [], ExcludeListStr = []\<rparr>"

definition include_default :: IncludeExcludeLists where
  "include_default = \<lparr>IncludeListStr = [''default''], ExcludeListStr = []\<rparr>"

definition delete_opts :: Opts where
  "delete_opts = \<lparr>DeleteFlag = True, NoInteractive = True\<rparr>"

text \<open>
  A second set of filters for the small cluster: objects labelled \<^verbatim>\<open>tier=infra\<close> are excluded,
  and the age window takes objects created at time 12 or later.
\<close>

definition ex_env_filters :: env where
  "ex_env_filters =
     ex_env\<lparr>HasExcludedLabel := (\<lambda>labels excludeLabels. (labels ''tier'' = Some ''infra'', None)),
            HasIncludedAge := (\<lambda>creationTime filterOpts. (12 \<le> creationTime, None))\<rparr>"

section \<open>Shapes of a scan step\<close>

text \<open>
  A step of a scan appends a fixed list of events to the trace and changes the accumulator in
  a way that does not read the trace; \<open>Q\<close> holds for the events.
\<close>

definition emits :: "(event \<Rightarrow> bool) \<Rightarrow> ('m scan_state \<Rightarrow> 'm scan_state) \<Rightarrow> bool" where
  "emits Q f = (\<exists>P T. list_all Q T \<and> (\<forall>s. f s = \<lparr>pending = P (pending s), trace = trace s @ T\<rparr>))"

text \<open>The events of a scan after discovery: list calls of one scope, filter calls, list errors.\<close>

fun scan_event :: "string \<Rightarrow> event \<Rightarrow> bool" where
  "scan_event scope (ListCall gvr namespace) = (namespace = scope)"
| "scan_event scope (HasExcludedLabelCall labels excludeLabels) = True"
| "scan_event scope (HasIncludedAgeCall t) = True"
| "scan_event scope (PrintErrorListing groupVersion er) = True"
| "scan_event scope ev = False"

text \<open>Parts of the small cluster by name, and variants of its collaborators that fail.\<close>

definition secrets :: APIResource where
  "secrets = \<lparr>Name = ''secrets'', Namespaced = True, Verbs = [''get'', ''list'']\<rparr>"

definition configmaps :: APIResource where
  "configmaps = \<lparr>Name = ''configmaps'', Namespaced = True, Verbs = [''get'', ''list'']\<rparr>"

definition core_v1 :: GV where
  "core_v1 = \<lparr>Group = [], Version = ''v1''\<rparr>"

definition ex_env_down :: env where
  "ex_env_down = ex_env\<lparr>ServerPreferredResources := Inl ''connection refused''\<rparr>"

definition bad_group :: APIResourceList where
  "bad_group = \<lparr>GroupVersion = ''a/b/c'', APIResources =
     [\<lparr>Name = ''widgets'', Namespaced = True, Verbs = [''list'']\<rparr>]\<rparr>"

definition ex_env_bad_group :: env where
  "ex_env_bad_group = ex_env\<lparr>ServerPreferredResources := Inr ([hd ex_catalog] @ bad_group # tl ex_catalog)\<rparr>"

definition ex_env_render_fails :: env where
  "ex_env_render_fails =
     ex_env\<lparr>unusedResourceFormatter :=
       (\<lambda>outputFormat buffer opts jsonResponse. ([], Some ''unsupported format''))\<rparr>"

text \<open>More include lists, and a cluster whose catalog is empty.\<close>

definition include_two :: IncludeExcludeLists where
  "include_two = \<lparr>IncludeListStr = [''default'', ''kube-system''], ExcludeListStr = []\<rparr>"

definition include_default_empty :: IncludeExcludeLists where
  "include_default_empty = \<lparr>IncludeListStr = [''default'', ''empty''], ExcludeListStr = []\<rparr>"

definition ex_env_no_types :: env where
  "ex_env_no_types = ex_env\<lparr>ServerPreferredResources := Inr []\<rparr>"

text \<open>The simplification rules that run the model on a concrete input.\<close>

lemmas run_defs =
  getResourcesWithFinalizersPendingDeletion_def getNamespacedResourcesWithFinalizersPendingDeletion_def
  resource_body_global_def resource_body_namespaced_def item_body_global_def item_body_namespaced_def
  emit_def Let_def label_at_def CheckFinalizers_def append_name_in_def append_name_def inner_at_def names_at_def
  WithResource_def NamespaceAll_def GetUnusedfinalizers_def finish_def collect_def global_mode_def
  namespace_body_global_def namespace_body_scoped_def delete_body_global_def delete_body_scoped_def
  cluster_list_def

lemmas ex_defs =
  ex_env_def ex_cluster_def ex_catalog_def ex_parse_def ex_filterOpts_def no_lists_def
  include_default_def delete_opts_def cm_a_def cm_b_def cm_c_def cm_d_def web_def

section \<open>The filter pipeline and the finalizer predicate\<close>

lemma item_body_global_eq:
  "item_body_global e fo r x s =
     \<lparr>pending = (if kept e fo x then append_name_in (pending s) (GetNamespace x) r (GetName x) else pending s),
      trace = trace s @ filter_calls e fo x\<rparr>"
  by (simp add: item_body_global_def kept_def filter_calls_def emit_def Let_def)

lemma item_body_namespaced_eq:
  "item_body_namespaced e fo r x s =
     \<lparr>pending = (if kept e fo x then append_name (pending s) r (GetName x) else pending s),
      trace = trace s @ filter_calls e fo x\<rparr>"
  by (simp add: item_body_namespaced_def kept_def filter_calls_def emit_def Let_def)

text \<open>The scan of the earlier revision is the scan of one namespace of the later one.\<close>

lemma item_body_v1_eq: "item_body_v1 = item_body_namespaced"
  by (simp add: fun_eq_iff item_body_v1_def item_body_namespaced_def CheckFinalizers_def Let_def)

lemma resource_body_v1_eq: "resource_body_v1 = resource_body_namespaced"
  by (simp add: fun_eq_iff resource_body_v1_def resource_body_namespaced_def item_body_v1_eq Let_def
        split: sum.splits)

lemma groups_loop_v1_eq: "groups_loop_v1 e fo ns gs s = groups_loop_namespaced e fo ns gs s"
  by (induction gs arbitrary: s) (simp_all add: resource_body_v1_eq split: sum.splits)

lemma scan_v1_eq:
  "getResourcesWithFinalizersPendingDeletion_v1 e ns fo =
   getNamespacedResourcesWithFinalizersPendingDeletion e ns fo"
  by (simp add: getResourcesWithFinalizersPendingDeletion_v1_def
        getNamespacedResourcesWithFinalizersPendingDeletion_def groups_loop_v1_eq split: sum.splits)

text \<open>
  Claim C1. \<^verbatim>\<open>CheckFinalizers\<close> answers true exactly when the finalizer list is not empty and
  the deletion timestamp is not nil; so an object with no finalizer or no deletion timestamp
  is not pending. It is a total function of these two values: two objects that agree on their
  finalizers and their deletion timestamp are classified alike, whatever their other fields.
  The test written in place in the earlier revision (line 56) decides the same.
\<close>

theorem CheckFinalizers_pending_iff:
  "(CheckFinalizers fs dt \<longleftrightarrow> length fs > 0 \<and> dt \<noteq> None) \<and>
   (length fs = 0 \<or> dt = None \<longrightarrow> \<not> CheckFinalizers fs dt) \<and>
   (GetFinalizers x = GetFinalizers y \<and> GetDeletionTimestamp x = GetDeletionTimestamp y \<longrightarrow>
      CheckFinalizers (GetFinalizers x) (GetDeletionTimestamp x) =
      CheckFinalizers (GetFinalizers y) (GetDeletionTimestamp y)) \<and>
   item_body_v1 e fo r x s = item_body_namespaced e fo r x s"
  by (simp add: CheckFinalizers_def item_body_v1_def item_body_namespaced_def Let_def)

theorem CheckFinalizers_pending_iff_witness:
  "(length ([] :: string list) = 0 \<or> Some (20 :: int) = None) \<and>
   \<not> CheckFinalizers [] (Some 20) \<and>
   GetFinalizers cm_a = GetFinalizers (cm_a\<lparr>GetName := ''other'', GetLabels := [''kor/used'' \<mapsto> ''true'']\<rparr>) \<and>
   GetDeletionTimestamp cm_a = GetDeletionTimestamp (cm_a\<lparr>GetName := ''other'', GetLabels := [''kor/used'' \<mapsto> ''true'']\<rparr>) \<and>
   CheckFinalizers (GetFinalizers cm_a) (GetDeletionTimestamp cm_a) \<and>
   CheckFinalizers (GetFinalizers (cm_a\<lparr>GetName := ''other'', GetLabels := [''kor/used'' \<mapsto> ''true'']\<rparr>))
     (GetDeletionTimestamp (cm_a\<lparr>GetName := ''other'', GetLabels := [''kor/used'' \<mapsto> ''true'']\<rparr>))"
  using CheckFinalizers_pending_iff [of "[]" "Some 20" cm_a "cm_a\<lparr>GetName := ''other'', GetLabels := [''kor/used'' \<mapsto> ''true'']\<rparr>"]
  by (simp add: cm_a_def CheckFinalizers_def)

section \<open>The delete step and the report\<close>

text \<open>
  Claim C2. With the delete flag set, the report should hold, for every group, only the names
  the delete call left behind. On the small cluster every delete succeeds and returns the
  empty list, in non-interactive mode; the delete collaborator is called with \<^verbatim>\<open>cm-a\<close>, and
  \<^verbatim>\<open>cm-a\<close> is still in the response and in the rendered text, in global and in scoped mode.
\<close>

theorem deleted_name_still_reported:
  "DeleteFlag delete_opts \<and> NoInteractive delete_opts \<and>
   DeleteResourceWithFinalizer ex_env [''cm-a''] ''default'' ''configmaps'' True = ([], None) \<and>
   DeleteResourceWithFinalizerCall [''cm-a''] ''default'' ''configmaps'' True
     \<in> set (fst (GetUnusedfinalizers ex_env no_lists ex_filterOpts ''table'' delete_opts)) \<and>
   response (fst (collect ex_env no_lists ex_filterOpts delete_opts)) =
     [(''default'', [(''configmaps'', [''cm-a''])]), (''kube-system'', [(''configmaps'', [''cm-c''])])] \<and>
   snd (GetUnusedfinalizers ex_env no_lists ex_filterOpts ''table'' delete_opts) =
     Return (''default: cm-a'' @ [CHR 0x0A] @ ''kube-system: cm-c'' @ [CHR 0x0A], None) \<and>
   DeleteResource ex_env [''cm-a''] ''default'' ''configmaps'' True = ([], None) \<and>
   DeleteResourceCall [''cm-a''] ''default'' ''configmaps'' True
     \<in> set (fst (GetUnusedfinalizers ex_env include_default ex_filterOpts ''table'' delete_opts)) \<and>
   response (fst (collect ex_env include_default ex_filterOpts delete_opts)) =
     [(''default'', [(''configmaps'', [''cm-a''])])] \<and>
   snd (GetUnusedfinalizers ex_env include_default ex_filterOpts ''table'' delete_opts) =
     Return (''default: cm-a'' @ [CHR 0x0A], None)"
  by (simp add: run_defs ex_defs)

section \<open>Traces of the scans\<close>

lemma emitsI:
  "list_all Q T \<Longrightarrow> (\<And>s. f s = \<lparr>pending = P (pending s), trace = trace s @ T\<rparr>) \<Longrightarrow> emits Q f"
  unfolding emits_def by blast

lemma emits_id: "emits Q (\<lambda>s. s)"
  by (rule emitsI [where T = "[]" and P = "\<lambda>p. p"]) simp_all

lemma emits_emit: "Q ev \<Longrightarrow> emits Q (emit ev)"
  by (rule emitsI [where T = "[ev]" and P = "\<lambda>p. p"]) (simp_all add: emit_def)

lemma emits_comp:
  assumes "emits Q f" and "emits Q g"
  shows "emits Q (\<lambda>s. g (f s))"
proof -
  from assms(1) obtain P T where f: "list_all Q T" "\<And>s. f s = \<lparr>pending = P (pending s), trace = trace s @ T\<rparr>"
    unfolding emits_def by blast
  from assms(2) obtain P' T' where g: "list_all Q T'" "\<And>s. g s = \<lparr>pending = P' (pending s), trace = trace s @ T'\<rparr>"
    unfolding emits_def by blast
  show ?thesis
    by (rule emitsI [where T = "T @ T'" and P = "\<lambda>p. P' (P p)"]) (simp_all add: f g)
qed

lemma emits_fold:
  "(\<And>x. x \<in> set xs \<Longrightarrow> emits Q (f x)) \<Longrightarrow> emits Q (fold f xs)"
proof (induction xs)
  case Nil
  show ?case using emits_id [of Q] by (simp add: id_def)
next
  case (Cons x xs)
  have "emits Q (\<lambda>s. fold f xs (f x s))"
    by (rule emits_comp) (simp_all add: Cons)
  then show ?case by (simp add: comp_def)
qed

lemma emits_pending:
  "emits Q f \<Longrightarrow> pending (f (s\<lparr>trace := t\<rparr>)) = pending (f s)"
  unfolding emits_def by auto

lemma list_all_filter_calls: "list_all (scan_event scope) (filter_calls e fo x)"
  by (simp add: filter_calls_def)

lemma emits_item_global: "emits (scan_event scope) (item_body_global e fo r x)"
  by (rule emitsI [OF list_all_filter_calls,
        where P = "\<lambda>p. if kept e fo x then append_name_in p (GetNamespace x) r (GetName x) else p"])
     (simp add: item_body_global_eq)

lemma emits_item_namespaced: "emits (scan_event scope) (item_body_namespaced e fo r x)"
  by (rule emitsI [OF list_all_filter_calls,
        where P = "\<lambda>p. if kept e fo x then append_name p r (GetName x) else p"])
     (simp add: item_body_namespaced_eq)

lemma emits_resource_global:
  "emits (scan_event NamespaceAll) (resource_body_global e fo g gv r)"
proof (cases "Namespaced r \<and> ''list'' \<in> set (Verbs r)")
  case False
  then have "resource_body_global e fo g gv r = (\<lambda>s. s)"
    by (auto simp: resource_body_global_def fun_eq_iff)
  then show ?thesis by (simp add: emits_id)
next
  case True
  show ?thesis
  proof (cases "ListItems e (WithResource gv (Name r)) NamespaceAll")
    case (Inl er)
    with True have "resource_body_global e fo g gv r =
        (\<lambda>s. emit (PrintErrorListing g er) (emit (ListCall (WithResource gv (Name r)) NamespaceAll) s))"
      by (simp add: resource_body_global_def fun_eq_iff)
    then show ?thesis by (simp add: emits_comp emits_emit)
  next
    case (Inr items)
    with True have "resource_body_global e fo g gv r =
        (\<lambda>s. fold (item_body_global e fo (Name r)) items (emit (ListCall (WithResource gv (Name r)) NamespaceAll) s))"
      by (simp add: resource_body_global_def fun_eq_iff)
    then show ?thesis by (simp add: emits_comp emits_emit emits_fold emits_item_global)
  qed
qed

lemma emits_resource_namespaced:
  "emits (scan_event namespace) (resource_body_namespaced e fo namespace g gv r)"
proof (cases "Namespaced r \<and> ''list'' \<in> set (Verbs r)")
  case False
  then have "resource_body_namespaced e fo namespace g gv r = (\<lambda>s. s)"
    by (auto simp: resource_body_namespaced_def fun_eq_iff)
  then show ?thesis by (simp add: emits_id)
next
  case True
  show ?thesis
  proof (cases "ListItems e (WithResource gv (Name r)) namespace")
    case (Inl er)
    with True have "resource_body_namespaced e fo namespace g gv r =
        (\<lambda>s. emit (PrintErrorListing g er) (emit (ListCall (WithResource gv (Name r)) namespace) s))"
      by (simp add: resource_body_namespaced_def fun_eq_iff)
    then show ?thesis by (simp add: emits_comp emits_emit)
  next
    case (Inr items)
    with True have "resource_body_namespaced e fo namespace g gv r =
        (\<lambda>s. fold (item_body_namespaced e fo (Name r)) items (emit (ListCall (WithResource gv (Name r)) namespace) s))"
      by (simp add: resource_body_namespaced_def fun_eq_iff)
    then show ?thesis by (simp add: emits_comp emits_emit emits_fold emits_item_namespaced)
  qed
qed

lemma groups_loop_global_shape:
  "\<exists>P T er. list_all (scan_event NamespaceAll) T \<and>
     (\<forall>s. groups_loop_global e fo gs s = (\<lparr>pending = P (pending s), trace = trace s @ T\<rparr>, er))"
proof (induction gs)
  case Nil
  show ?case
    by (rule exI [where x = "\<lambda>p. p"], rule exI [where x = "[]"]) simp
next
  case (Cons g gs)
  show ?case
  proof (cases "ParseGroupVersion e (GroupVersion g)")
    case (Inl er)
    show ?thesis
      by (rule exI [where x = "\<lambda>p. p"], rule exI [where x = "[]"]) (simp add: Inl)
  next
    case (Inr gv)
    have "emits (scan_event NamespaceAll) (fold (resource_body_global e fo (GroupVersion g) gv) (APIResources g))"
      by (simp add: emits_fold emits_resource_global)
    then obtain P T where f: "list_all (scan_event NamespaceAll) T"
      "\<And>s. fold (resource_body_global e fo (GroupVersion g) gv) (APIResources g) s = \<lparr>pending = P (pending s), trace = trace s @ T\<rparr>"
      unfolding emits_def by blast
    from Cons obtain P' T' er where g: "list_all (scan_event NamespaceAll) T'"
      "\<And>s. groups_loop_global e fo gs s = (\<lparr>pending = P' (pending s), trace = trace s @ T'\<rparr>, er)"
      by blast
    show ?thesis
      by (rule exI [where x = "\<lambda>p. P' (P p)"], rule exI [where x = "T @ T'"], rule exI [where x = er])
         (simp add: Inr f g)
  qed
qed

lemma groups_loop_namespaced_shape:
  "\<exists>P T er. list_all (scan_event namespace) T \<and>
     (\<forall>s. groups_loop_namespaced e fo namespace gs s = (\<lparr>pending = P (pending s), trace = trace s @ T\<rparr>, er))"
proof (induction gs)
  case Nil
  show ?case
    by (rule exI [where x = "\<lambda>p. p"], rule exI [where x = "[]"]) simp
next
  case (Cons g gs)
  show ?case
  proof (cases "ParseGroupVersion e (GroupVersion g)")
    case (Inl er)
    show ?thesis
      by (rule exI [where x = "\<lambda>p. p"], rule exI [where x = "[]"]) (simp add: Inl)
  next
    case (Inr gv)
    have "emits (scan_event namespace) (fold (resource_body_namespaced e fo namespace (GroupVersion g) gv) (APIResources g))"
      by (simp add: emits_fold emits_resource_namespaced)
    then obtain P T where f: "list_all (scan_event namespace) T"
      "\<And>s. fold (resource_body_namespaced e fo namespace (GroupVersion g) gv) (APIResources g) s = \<lparr>pending = P (pending s), trace = trace s @ T\<rparr>"
      unfolding emits_def by blast
    from Cons obtain P' T' er where g: "list_all (scan_event namespace) T'"
      "\<And>s. groups_loop_namespaced e fo namespace gs s = (\<lparr>pending = P' (pending s), trace = trace s @ T'\<rparr>, er)"
      by blast
    show ?thesis
      by (rule exI [where x = "\<lambda>p. P' (P p)"], rule exI [where x = "T @ T'"], rule exI [where x = er])
         (simp add: Inr f g)
  qed
qed

lemma global_scan_trace:
  "(\<exists>er. getResourcesWithFinalizersPendingDeletion e nss fo = ([DiscoveryCall, PrintErrorFetching er], Exit 1)) \<or>
   (\<exists>T p er. list_all (scan_event NamespaceAll) T \<and>
      getResourcesWithFinalizersPendingDeletion e nss fo = (DiscoveryCall # T, Return (p, er)))"
proof (cases "ServerPreferredResources e")
  case (Inl er)
  then show ?thesis by (simp add: getResourcesWithFinalizersPendingDeletion_def)
next
  case (Inr gs)
  from groups_loop_global_shape [of e fo gs] obtain P T er where
    "list_all (scan_event NamespaceAll) T"
    "\<And>s. groups_loop_global e fo gs s = (\<lparr>pending = P (pending s), trace = trace s @ T\<rparr>, er)"
    by blast
  then show ?thesis by (simp add: getResourcesWithFinalizersPendingDeletion_def Inr)
qed

lemma namespaced_scan_trace:
  "(\<exists>er. getNamespacedResourcesWithFinalizersPendingDeletion e ns fo = ([DiscoveryCall, PrintErrorFetching er], Exit 1)) \<or>
   (\<exists>T p er. list_all (scan_event ns) T \<and>
      getNamespacedResourcesWithFinalizersPendingDeletion e ns fo = (DiscoveryCall # T, Return (p, er)))"
proof (cases "ServerPreferredResources e")
  case (Inl er)
  then show ?thesis by (simp add: getNamespacedResourcesWithFinalizersPendingDeletion_def)
next
  case (Inr gs)
  from groups_loop_namespaced_shape [of ns e fo gs] obtain P T er where
    "list_all (scan_event ns) T"
    "\<And>s. groups_loop_namespaced e fo ns gs s = (\<lparr>pending = P (pending s), trace = trace s @ T\<rparr>, er)"
    by blast
  then show ?thesis by (simp add: getNamespacedResourcesWithFinalizersPendingDeletion_def Inr)
qed

section \<open>Objects labelled as used\<close>

lemma without_used_fields [simp]:
  "ServerPreferredResources (without_used e) = ServerPreferredResources e"
  "ParseGroupVersion (without_used e) = ParseGroupVersion e"
  "HasExcludedLabel (without_used e) = HasExcludedLabel e"
  "HasIncludedAge (without_used e) = HasIncludedAge e"
  "SetNamespaceList (without_used e) = SetNamespaceList e"
  "DeleteResource (without_used e) = DeleteResource e"
  "DeleteResourceWithFinalizer (without_used e) = DeleteResourceWithFinalizer e"
  "FormatOutputFromMap (without_used e) = FormatOutputFromMap e"
  "MarshalIndent (without_used e) = MarshalIndent e"
  "unusedResourceFormatter (without_used e) = unusedResourceFormatter e"
  by (simp_all add: without_used_def)

lemma without_used_list:
  "ListItems (without_used e) gvr ns =
     (case ListItems e gvr ns of Inl er \<Rightarrow> Inl er
      | Inr items \<Rightarrow> Inr (filter (\<lambda>x. label_at (GetLabels x) ''kor/used'' \<noteq> ''true'') items))"
  by (simp add: without_used_def)

lemma item_body_global_without_used [simp]:
  "item_body_global (without_used e) = item_body_global e"
  by (simp add: fun_eq_iff item_body_global_eq kept_def filter_calls_def)

lemma item_body_namespaced_without_used [simp]:
  "item_body_namespaced (without_used e) = item_body_namespaced e"
  by (simp add: fun_eq_iff item_body_namespaced_eq kept_def filter_calls_def)

lemma fold_item_global_unused:
  "fold (item_body_global e fo r) (filter (\<lambda>x. label_at (GetLabels x) ''kor/used'' \<noteq> ''true'') xs) s =
   fold (item_body_global e fo r) xs s"
  by (induction xs arbitrary: s) (simp_all add: item_body_global_def)

lemma fold_item_namespaced_unused:
  "fold (item_body_namespaced e fo r) (filter (\<lambda>x. label_at (GetLabels x) ''kor/used'' \<noteq> ''true'') xs) s =
   fold (item_body_namespaced e fo r) xs s"
  by (induction xs arbitrary: s) (simp_all add: item_body_namespaced_def)

lemma resource_body_global_without_used [simp]:
  "resource_body_global (without_used e) = resource_body_global e"
proof -
  have "resource_body_global (without_used e) fo g gv r s = resource_body_global e fo g gv r s" for fo g gv r s
    by (cases "ListItems e (WithResource gv (Name r)) NamespaceAll")
       (simp_all add: resource_body_global_def without_used_list fold_item_global_unused)
  then show ?thesis by (simp add: fun_eq_iff)
qed

lemma resource_body_namespaced_without_used [simp]:
  "resource_body_namespaced (without_used e) = resource_body_namespaced e"
proof -
  have "resource_body_namespaced (without_used e) fo ns g gv r s = resource_body_namespaced e fo ns g gv r s" for fo ns g gv r s
    by (cases "ListItems e (WithResource gv (Name r)) ns")
       (simp_all add: resource_body_namespaced_def without_used_list fold_item_namespaced_unused)
  then show ?thesis by (simp add: fun_eq_iff)
qed

lemma groups_loop_global_without_used [simp]:
  "groups_loop_global (without_used e) fo gs s = groups_loop_global e fo gs s"
  by (induction gs arbitrary: s) (simp_all split: sum.splits)

lemma groups_loop_namespaced_without_used [simp]:
  "groups_loop_namespaced (without_used e) fo ns gs s = groups_loop_namespaced e fo ns gs s"
  by (induction gs arbitrary: s) (simp_all split: sum.splits)

lemma global_scan_without_used [simp]:
  "getResourcesWithFinalizersPendingDeletion (without_used e) nss fo =
   getResourcesWithFinalizersPendingDeletion e nss fo"
  by (simp add: getResourcesWithFinalizersPendingDeletion_def split: sum.splits)

lemma namespaced_scan_without_used [simp]:
  "getNamespacedResourcesWithFinalizersPendingDeletion (without_used e) ns fo =
   getNamespacedResourcesWithFinalizersPendingDeletion e ns fo"
  by (simp add: getNamespacedResourcesWithFinalizersPendingDeletion_def split: sum.splits)

lemma delete_body_scoped_without_used [simp]:
  "delete_body_scoped (without_used e) = delete_body_scoped e"
  by (simp add: fun_eq_iff delete_body_scoped_def)

lemma delete_body_global_without_used [simp]:
  "delete_body_global (without_used e) = delete_body_global e"
  by (simp add: fun_eq_iff delete_body_global_def)

lemma namespace_body_scoped_without_used [simp]:
  "namespace_body_scoped (without_used e) = namespace_body_scoped e"
  by (simp add: fun_eq_iff namespace_body_scoped_def)

lemma namespace_body_global_without_used [simp]:
  "namespace_body_global (without_used e) = namespace_body_global e"
  by (simp add: fun_eq_iff namespace_body_global_def)

lemma scoped_mode_without_used [simp]:
  "scoped_mode (without_used e) fo opts nss st = scoped_mode e fo opts nss st"
  by (induction nss arbitrary: st)
     (simp_all split: prod.splits outcome.splits option.splits)

lemma global_mode_without_used [simp]:
  "global_mode (without_used e) fo opts nss st = global_mode e fo opts nss st"
  by (simp add: global_mode_def split: prod.splits outcome.splits)

lemma finish_without_used [simp]:
  "finish (without_used e) = finish e"
  by (simp add: fun_eq_iff finish_def split: sum.splits prod.splits)

lemma collect_without_used [simp]:
  "collect (without_used e) l fo opts = collect e l fo opts"
  by (simp add: collect_def Let_def)

lemma GetUnusedfinalizers_without_used:
  "GetUnusedfinalizers (without_used e) l fo fmt opts = GetUnusedfinalizers e l fo fmt opts"
  by (simp add: GetUnusedfinalizers_def split: prod.splits option.splits)

text \<open>
  Claim C5. For every listed object the filters run in the order: the \<^verbatim>\<open>kor/used\<close> label, the
  exclusion labels, the age window; the first that excludes the object ends its treatment,
  and the later ones are not called. An object labelled \<^verbatim>\<open>kor/used=true\<close> leaves the state of
  the scan as it was, with no filter called; and hiding all such objects from every listing
  changes neither the trace nor the result of \<^verbatim>\<open>GetUnusedfinalizers\<close>, whatever the finalizers,
  deletion timestamps and options: such an object is in no report.
\<close>

theorem used_label_excluded_first:
  "(label_at (GetLabels x) ''kor/used'' = ''true'' \<longrightarrow>
      item_body_global e fo r x s = s \<and> item_body_namespaced e fo r x t = t) \<and>
   (label_at (GetLabels y) ''kor/used'' \<noteq> ''true'' \<and>
    fst (HasExcludedLabel e (GetLabels y) (ExcludeLabels fo)) \<longrightarrow>
      item_body_global e fo r y s = emit (HasExcludedLabelCall (GetLabels y) (ExcludeLabels fo)) s \<and>
      item_body_namespaced e fo r y t = emit (HasExcludedLabelCall (GetLabels y) (ExcludeLabels fo)) t) \<and>
   (label_at (GetLabels z) ''kor/used'' \<noteq> ''true'' \<and>
    \<not> fst (HasExcludedLabel e (GetLabels z) (ExcludeLabels fo)) \<and>
    \<not> fst (HasIncludedAge e (GetCreationTimestamp z) fo) \<longrightarrow>
      item_body_global e fo r z s =
        emit (HasIncludedAgeCall (GetCreationTimestamp z))
          (emit (HasExcludedLabelCall (GetLabels z) (ExcludeLabels fo)) s) \<and>
      item_body_namespaced e fo r z t =
        emit (HasIncludedAgeCall (GetCreationTimestamp z))
          (emit (HasExcludedLabelCall (GetLabels z) (ExcludeLabels fo)) t)) \<and>
   GetUnusedfinalizers (without_used e) l fo fmt opts = GetUnusedfinalizers e l fo fmt opts"
  by (simp add: item_body_global_def item_body_namespaced_def Let_def GetUnusedfinalizers_without_used)

theorem used_label_excluded_first_witness:
  "label_at (GetLabels cm_b) ''kor/used'' = ''true'' \<and>
   item_body_global ex_env_filters ex_filterOpts ''configmaps'' cm_b \<lparr>pending = [], trace = []\<rparr> =
     \<lparr>pending = [], trace = []\<rparr> \<and>
   label_at (GetLabels (cm_c\<lparr>GetLabels := [''tier'' \<mapsto> ''infra'']\<rparr>)) ''kor/used'' \<noteq> ''true'' \<and>
   fst (HasExcludedLabel ex_env_filters (GetLabels (cm_c\<lparr>GetLabels := [''tier'' \<mapsto> ''infra'']\<rparr>))
          (ExcludeLabels ex_filterOpts)) \<and>
   trace (item_body_global ex_env_filters ex_filterOpts ''configmaps''
            (cm_c\<lparr>GetLabels := [''tier'' \<mapsto> ''infra'']\<rparr>) \<lparr>pending = [], trace = []\<rparr>) =
     [HasExcludedLabelCall [''tier'' \<mapsto> ''infra''] []] \<and>
   label_at (GetLabels cm_a) ''kor/used'' \<noteq> ''true'' \<and>
   \<not> fst (HasExcludedLabel ex_env_filters (GetLabels cm_a) (ExcludeLabels ex_filterOpts)) \<and>
   \<not> fst (HasIncludedAge ex_env_filters (GetCreationTimestamp cm_a) ex_filterOpts) \<and>
   item_body_global ex_env_filters ex_filterOpts ''configmaps'' cm_a \<lparr>pending = [], trace = []\<rparr> =
     \<lparr>pending = [], trace = [HasExcludedLabelCall Map.empty [], HasIncludedAgeCall 10]\<rparr>"
  using used_label_excluded_first [of cm_b ex_env_filters ex_filterOpts "''configmaps''"
      "\<lparr>pending = [], trace = []\<rparr>" "\<lparr>pending = [], trace = []\<rparr>"
      "cm_c\<lparr>GetLabels := [''tier'' \<mapsto> ''infra'']\<rparr>" cm_a]
  by (simp add: ex_env_filters_def ex_defs label_at_def emit_def)

section \<open>Failures\<close>

lemma resource_body_global_list_error:
  "Namespaced r \<Longrightarrow> ''list'' \<in> set (Verbs r) \<Longrightarrow>
   ListItems e (WithResource gv (Name r)) NamespaceAll = Inl er \<Longrightarrow>
   resource_body_global e fo g gv r s =
     s\<lparr>trace := trace s @ [ListCall (WithResource gv (Name r)) NamespaceAll, PrintErrorListing g er]\<rparr>"
  by (simp add: resource_body_global_def emit_def)

lemma resource_body_namespaced_list_error:
  "Namespaced r \<Longrightarrow> ''list'' \<in> set (Verbs r) \<Longrightarrow>
   ListItems e (WithResource gv (Name r)) ns = Inl er \<Longrightarrow>
   resource_body_namespaced e fo ns g gv r s =
     s\<lparr>trace := trace s @ [ListCall (WithResource gv (Name r)) ns, PrintErrorListing g er]\<rparr>"
  by (simp add: resource_body_namespaced_def emit_def)

lemma fold_resource_global_skip:
  assumes "Namespaced r" "''list'' \<in> set (Verbs r)"
    "ListItems e (WithResource gv (Name r)) NamespaceAll = Inl er"
  shows "pending (fold (resource_body_global e fo g gv) (rs1 @ r # rs2) s) =
         pending (fold (resource_body_global e fo g gv) (rs1 @ rs2) s)"
proof -
  have "emits (scan_event NamespaceAll) (fold (resource_body_global e fo g gv) rs2)"
    by (simp add: emits_fold emits_resource_global)
  then show ?thesis
    by (simp add: resource_body_global_list_error [OF assms] emits_pending)
qed

lemma fold_resource_namespaced_skip:
  assumes "Namespaced r" "''list'' \<in> set (Verbs r)"
    "ListItems e (WithResource gv (Name r)) ns = Inl er"
  shows "pending (fold (resource_body_namespaced e fo ns g gv) (rs1 @ r # rs2) s) =
         pending (fold (resource_body_namespaced e fo ns g gv) (rs1 @ rs2) s)"
proof -
  have "emits (scan_event ns) (fold (resource_body_namespaced e fo ns g gv) rs2)"
    by (simp add: emits_fold emits_resource_namespaced)
  then show ?thesis
    by (simp add: resource_body_namespaced_list_error [OF assms] emits_pending)
qed

lemma groups_loop_global_no_error:
  "\<forall>g \<in> set gs. \<exists>gv. ParseGroupVersion e (GroupVersion g) = Inr gv \<Longrightarrow>
   snd (groups_loop_global e fo gs s) = None"
  by (induction gs arbitrary: s) auto

lemma groups_loop_namespaced_no_error:
  "\<forall>g \<in> set gs. \<exists>gv. ParseGroupVersion e (GroupVersion g) = Inr gv \<Longrightarrow>
   snd (groups_loop_namespaced e fo ns gs s) = None"
  by (induction gs arbitrary: s) auto

lemma groups_loop_global_parse_error:
  "\<forall>g \<in> set gs1. \<exists>gv. ParseGroupVersion e (GroupVersion g) = Inr gv \<Longrightarrow>
   ParseGroupVersion e (GroupVersion g) = Inl er \<Longrightarrow>
   groups_loop_global e fo (gs1 @ g # gs2) s = (fst (groups_loop_global e fo gs1 s), Some er)"
  by (induction gs1 arbitrary: s) auto

lemma groups_loop_namespaced_parse_error:
  "\<forall>g \<in> set gs1. \<exists>gv. ParseGroupVersion e (GroupVersion g) = Inr gv \<Longrightarrow>
   ParseGroupVersion e (GroupVersion g) = Inl er \<Longrightarrow>
   groups_loop_namespaced e fo ns (gs1 @ g # gs2) s = (fst (groups_loop_namespaced e fo ns gs1 s), Some er)"
  by (induction gs1 arbitrary: s) auto

lemma verdict_global_no_error:
  "ServerPreferredResources e = Inr gs \<Longrightarrow>
   \<forall>g \<in> set gs. \<exists>gv. ParseGroupVersion e (GroupVersion g) = Inr gv \<Longrightarrow>
   verdict (getResourcesWithFinalizersPendingDeletion e nss fo) = Return None"
  using groups_loop_global_no_error [of gs e fo "\<lparr>pending = [], trace = [DiscoveryCall]\<rparr>"]
  by (auto simp: verdict_def getResourcesWithFinalizersPendingDeletion_def split: prod.splits)

lemma verdict_namespaced_no_error:
  "ServerPreferredResources e = Inr gs \<Longrightarrow>
   \<forall>g \<in> set gs. \<exists>gv. ParseGroupVersion e (GroupVersion g) = Inr gv \<Longrightarrow>
   verdict (getNamespacedResourcesWithFinalizersPendingDeletion e ns fo) = Return None"
  using groups_loop_namespaced_no_error [of gs e fo ns "\<lparr>pending = [], trace = [DiscoveryCall]\<rparr>"]
  by (auto simp: verdict_def getNamespacedResourcesWithFinalizersPendingDeletion_def split: prod.splits)

lemma item_body_global_catalog [simp]:
  "item_body_global (e\<lparr>ServerPreferredResources := c\<rparr>) = item_body_global e"
  by (simp add: fun_eq_iff item_body_global_eq kept_def filter_calls_def)

lemma item_body_namespaced_catalog [simp]:
  "item_body_namespaced (e\<lparr>ServerPreferredResources := c\<rparr>) = item_body_namespaced e"
  by (simp add: fun_eq_iff item_body_namespaced_eq kept_def filter_calls_def)

lemma resource_body_global_catalog [simp]:
  "resource_body_global (e\<lparr>ServerPreferredResources := c\<rparr>) = resource_body_global e"
  by (simp add: fun_eq_iff resource_body_global_def Let_def split: sum.splits)

lemma resource_body_namespaced_catalog [simp]:
  "resource_body_namespaced (e\<lparr>ServerPreferredResources := c\<rparr>) = resource_body_namespaced e"
  by (simp add: fun_eq_iff resource_body_namespaced_def Let_def split: sum.splits)

lemma groups_loop_global_catalog [simp]:
  "groups_loop_global (e\<lparr>ServerPreferredResources := c\<rparr>) fo gs s = groups_loop_global e fo gs s"
  by (induction gs arbitrary: s) (simp_all split: sum.splits)

lemma groups_loop_namespaced_catalog [simp]:
  "groups_loop_namespaced (e\<lparr>ServerPreferredResources := c\<rparr>) fo ns gs s = groups_loop_namespaced e fo ns gs s"
  by (induction gs arbitrary: s) (simp_all split: sum.splits)

lemma global_scan_parse_error:
  assumes "ServerPreferredResources e = Inr (gs1 @ g # gs2)"
    "\<forall>g' \<in> set gs1. \<exists>gv. ParseGroupVersion e (GroupVersion g') = Inr gv"
    "ParseGroupVersion e (GroupVersion g) = Inl er"
  shows "\<exists>tr p. getResourcesWithFinalizersPendingDeletion e nss fo = (tr, Return (p, Some er)) \<and>
     getResourcesWithFinalizersPendingDeletion (e\<lparr>ServerPreferredResources := Inr gs1\<rparr>) nss fo =
       (tr, Return (p, None))"
  using groups_loop_global_no_error [OF assms(2), of fo "\<lparr>pending = [], trace = [DiscoveryCall]\<rparr>"]
  by (auto simp: getResourcesWithFinalizersPendingDeletion_def assms(1)
        groups_loop_global_parse_error [OF assms(2,3)] split: prod.splits)

lemma namespaced_scan_parse_error:
  assumes "ServerPreferredResources e = Inr (gs1 @ g # gs2)"
    "\<forall>g' \<in> set gs1. \<exists>gv. ParseGroupVersion e (GroupVersion g') = Inr gv"
    "ParseGroupVersion e (GroupVersion g) = Inl er"
  shows "\<exists>tr p. getNamespacedResourcesWithFinalizersPendingDeletion e ns fo = (tr, Return (p, Some er)) \<and>
     getNamespacedResourcesWithFinalizersPendingDeletion (e\<lparr>ServerPreferredResources := Inr gs1\<rparr>) ns fo =
       (tr, Return (p, None))"
  using groups_loop_namespaced_no_error [OF assms(2), of fo ns "\<lparr>pending = [], trace = [DiscoveryCall]\<rparr>"]
  by (auto simp: getNamespacedResourcesWithFinalizersPendingDeletion_def assms(1)
        groups_loop_namespaced_parse_error [OF assms(2,3)] split: prod.splits)

lemma driver_discovery_failure:
  assumes "ServerPreferredResources e = Inl er"
    "(length (ExcludeListStr l) = 0 \<and> length (IncludeListStr l) = 0) \<or> SetNamespaceList e l \<noteq> []"
  shows "GetUnusedfinalizers e l fo fmt opts = ([DiscoveryCall, PrintErrorFetching er], Exit 1)"
proof (cases "length (ExcludeListStr l) = 0 \<and> length (IncludeListStr l) = 0")
  case True
  then show ?thesis
    by (simp add: GetUnusedfinalizers_def collect_def global_mode_def
          getResourcesWithFinalizersPendingDeletion_def assms(1))
next
  case False
  with assms(2) obtain n rest where "SetNamespaceList e l = n # rest"
    by (cases "SetNamespaceList e l") auto
  with False show ?thesis
    by (auto simp: GetUnusedfinalizers_def collect_def
          getNamespacedResourcesWithFinalizersPendingDeletion_def assms(1))
qed

text \<open>
  Claim C8. When \<^verbatim>\<open>ServerPreferredResources\<close> fails, each scan prints the error and ends the
  process with exit code 1; nothing is listed. \<^verbatim>\<open>GetUnusedfinalizers\<close> then ends the same way,
  in global mode and in scoped mode with at least one namespace. When instead a group version
  does not parse, the scan returns: it hands back the error, with the trace and the names of
  the groups before the malformed one.
\<close>

theorem discovery_failure_exits:
  "(ServerPreferredResources e = Inl er \<longrightarrow>
      getResourcesWithFinalizersPendingDeletion e nss fo = ([DiscoveryCall, PrintErrorFetching er], Exit 1) \<and>
      getNamespacedResourcesWithFinalizersPendingDeletion e ns fo = ([DiscoveryCall, PrintErrorFetching er], Exit 1) \<and>
      ((length (ExcludeListStr l) = 0 \<and> length (IncludeListStr l) = 0) \<or> SetNamespaceList e l \<noteq> [] \<longrightarrow>
         GetUnusedfinalizers e l fo fmt opts = ([DiscoveryCall, PrintErrorFetching er], Exit 1))) \<and>
   (ServerPreferredResources e' = Inr (gs1 @ g # gs2) \<and>
    (\<forall>g' \<in> set gs1. \<exists>gv. ParseGroupVersion e' (GroupVersion g') = Inr gv) \<and>
    ParseGroupVersion e' (GroupVersion g) = Inl er' \<longrightarrow>
      (\<exists>tr p. getResourcesWithFinalizersPendingDeletion e' nss fo = (tr, Return (p, Some er')) \<and>
         getResourcesWithFinalizersPendingDeletion (e'\<lparr>ServerPreferredResources := Inr gs1\<rparr>) nss fo =
           (tr, Return (p, None))) \<and>
      (\<exists>tr p. getNamespacedResourcesWithFinalizersPendingDeletion e' ns fo = (tr, Return (p, Some er')) \<and>
         getNamespacedResourcesWithFinalizersPendingDeletion (e'\<lparr>ServerPreferredResources := Inr gs1\<rparr>) ns fo =
           (tr, Return (p, None))))"
proof -
  have "ServerPreferredResources e = Inl er \<Longrightarrow>
      getResourcesWithFinalizersPendingDeletion e nss fo = ([DiscoveryCall, PrintErrorFetching er], Exit 1)"
    by (simp add: getResourcesWithFinalizersPendingDeletion_def)
  moreover have "ServerPreferredResources e = Inl er \<Longrightarrow>
      getNamespacedResourcesWithFinalizersPendingDeletion e ns fo = ([DiscoveryCall, PrintErrorFetching er], Exit 1)"
    by (simp add: getNamespacedResourcesWithFinalizersPendingDeletion_def)
  ultimately show ?thesis
    using driver_discovery_failure [of e er l fo fmt opts]
      global_scan_parse_error [of e' gs1 g gs2 er' nss fo]
      namespaced_scan_parse_error [of e' gs1 g gs2 er' ns fo]
    by blast
qed

theorem discovery_failure_exits_witness:
  "ServerPreferredResources ex_env_down = Inl ''connection refused'' \<and>
   getResourcesWithFinalizersPendingDeletion ex_env_down [''default''] ex_filterOpts =
     ([DiscoveryCall, PrintErrorFetching ''connection refused''], Exit 1) \<and>
   SetNamespaceList ex_env_down include_default \<noteq> [] \<and>
   GetUnusedfinalizers ex_env_down include_default ex_filterOpts ''table'' delete_opts =
     ([DiscoveryCall, PrintErrorFetching ''connection refused''], Exit 1) \<and>
   ServerPreferredResources ex_env_bad_group = Inr ([hd ex_catalog] @ bad_group # tl ex_catalog) \<and>
   GroupVersion (hd ex_catalog) = ''v1'' \<and>
   ParseGroupVersion ex_env_bad_group ''v1'' = Inr core_v1 \<and>
   ParseGroupVersion ex_env_bad_group (GroupVersion bad_group) = Inl ''unexpected GroupVersion string'' \<and>
   snd (getResourcesWithFinalizersPendingDeletion ex_env_bad_group [''default''] ex_filterOpts) =
     Return ([(''default'', [(''configmaps'', [''cm-a''])]), (''kube-system'', [(''configmaps'', [''cm-c''])])],
             Some ''unexpected GroupVersion string'') \<and>
   snd (getNamespacedResourcesWithFinalizersPendingDeletion ex_env_bad_group ''default'' ex_filterOpts) =
     Return ([(''configmaps'', [''cm-a''])], Some ''unexpected GroupVersion string'')"
  using discovery_failure_exits [of ex_env_down "''connection refused''" "[''default'']" ex_filterOpts
      "''default''" include_default "''table''" delete_opts ex_env_bad_group "[hd ex_catalog]" bad_group
      "tl ex_catalog" "''unexpected GroupVersion string''"]
  by (simp add: ex_env_down_def ex_env_bad_group_def bad_group_def core_v1_def run_defs ex_defs)

lemma GetUnusedfinalizers_error_iff:
  "snd (GetUnusedfinalizers e l fo fmt opts) = Return (out, Some er) \<longleftrightarrow>
     (\<exists>st. collect e l fo opts = (st, None) \<and> MarshalIndent e (response st) = Inl er \<and> out = [])"
  by (auto simp: GetUnusedfinalizers_def finish_def split: prod.splits option.splits sum.splits)

text \<open>
  Claim C9, as the code has it. \<^verbatim>\<open>GetUnusedfinalizers\<close> returns an error exactly when
  \<^verbatim>\<open>json.MarshalIndent\<close> fails on the response, and then with the empty string. When the
  formatter fails, the error is printed and the function returns, with a nil error, the
  string the formatter handed back, whatever the text buffer holds.
\<close>

theorem only_marshal_failure_is_returned:
  "(snd (GetUnusedfinalizers e l fo fmt opts) = Return (out, Some er) \<longleftrightarrow>
      (\<exists>st. collect e l fo opts = (st, None) \<and> MarshalIndent e (response st) = Inl er \<and> out = [])) \<and>
   (collect e l fo opts = (st, None) \<and> MarshalIndent e (response st) = Inr js \<and>
    unusedResourceFormatter e fmt (outputBuffer st) opts js = (u, Some er') \<longrightarrow>
      GetUnusedfinalizers e l fo fmt opts = (log st @ [PrintErr er'], Return (u, None)))"
  by (simp add: GetUnusedfinalizers_error_iff) (simp add: GetUnusedfinalizers_def finish_def)

theorem only_marshal_failure_is_returned_witness:
  "snd (collect ex_env_render_fails include_default ex_filterOpts delete_opts) = None \<and>
   MarshalIndent ex_env_render_fails
     (response (fst (collect ex_env_render_fails include_default ex_filterOpts delete_opts))) = Inr ''{}'' \<and>
   unusedResourceFormatter ex_env_render_fails ''yaml''
     (outputBuffer (fst (collect ex_env_render_fails include_default ex_filterOpts delete_opts)))
     delete_opts ''{}'' = ([], Some ''unsupported format'') \<and>
   snd (GetUnusedfinalizers ex_env_render_fails include_default ex_filterOpts ''yaml'' delete_opts) =
     Return ([], None) \<and>
   PrintErr ''unsupported format''
     \<in> set (fst (GetUnusedfinalizers ex_env_render_fails include_default ex_filterOpts ''yaml'' delete_opts))"
  using only_marshal_failure_is_returned [of ex_env_render_fails include_default ex_filterOpts "''yaml''"
      delete_opts "[]" "[]" "fst (collect ex_env_render_fails include_default ex_filterOpts delete_opts)"
      "''{}''" "[]" "''unsupported format''"]
  by (simp add: ex_env_render_fails_def run_defs ex_defs)

text \<open>
  Claim C9 as stated fails in its last part. The formatter fails and hands back the empty
  string; the text buffer holds the line for \<^verbatim>\<open>default\<close>; the function returns the empty
  string with a nil error, not the buffer.
\<close>

theorem formatter_failure_counterexample:
  "snd (collect ex_env_render_fails include_default ex_filterOpts delete_opts) = None \<and>
   outputBuffer (fst (collect ex_env_render_fails include_default ex_filterOpts delete_opts)) =
     ''default: cm-a'' @ [CHR 0x0A] \<and>
   MarshalIndent ex_env_render_fails
     (response (fst (collect ex_env_render_fails include_default ex_filterOpts delete_opts))) = Inr ''{}'' \<and>
   unusedResourceFormatter ex_env_render_fails ''yaml'' (''default: cm-a'' @ [CHR 0x0A]) delete_opts ''{}'' =
     ([], Some ''unsupported format'') \<and>
   snd (GetUnusedfinalizers ex_env_render_fails include_default ex_filterOpts ''yaml'' delete_opts) =
     Return ([], None) \<and>
   snd (GetUnusedfinalizers ex_env_render_fails include_default ex_filterOpts ''yaml'' delete_opts) \<noteq>
     Return (outputBuffer (fst (collect ex_env_render_fails include_default ex_filterOpts delete_opts)), None)"
  by (simp add: ex_env_render_fails_def run_defs ex_defs)

section \<open>Traces of the driver\<close>

lemma list_all_weaken: "list_all P xs \<Longrightarrow> (\<And>x. P x \<Longrightarrow> Q x) \<Longrightarrow> list_all Q xs"
  by (induction xs) auto

lemma scan_event_global: "scan_event NamespaceAll ev \<Longrightarrow> global_event nss ev"
  by (cases ev) (simp_all add: global_event_def)

lemma scan_event_scoped: "ns \<in> set nss \<Longrightarrow> scan_event ns ev \<Longrightarrow> scoped_event nss ev"
  by (cases ev) (simp_all add: scoped_event_def)

lemma scan_event_no_discovery: "list_all (scan_event ns) T \<Longrightarrow> discovery_calls T = 0"
proof (induction T)
  case Nil
  show ?case by (simp add: discovery_calls_def)
next
  case (Cons ev T)
  then show ?case by (cases ev) (simp_all add: discovery_calls_def)
qed

lemma discovery_calls_append [simp]: "discovery_calls (xs @ ys) = discovery_calls xs + discovery_calls ys"
  by (simp add: discovery_calls_def)

lemma delete_body_global_events:
  "ns \<in> set nss \<Longrightarrow>
   \<exists>T. list_all (global_event nss) T \<and> discovery_calls T = 0 \<and>
       delete_body_global e opts ns entry tr = tr @ T"
proof -
  assume ns: "ns \<in> set nss"
  obtain t d where entry: "entry = (t, d)" by (cases entry)
  obtain d' r where res: "DeleteResourceWithFinalizer e d ns t (NoInteractive opts) = (d', r)"
    by (cases "DeleteResourceWithFinalizer e d ns t (NoInteractive opts)")
  let ?T = "if DeleteFlag opts
            then DeleteResourceWithFinalizerCall d ns t (NoInteractive opts) #
                 (case r of None \<Rightarrow> [] | Some er \<Rightarrow> [PrintFailedDelete d' ns er])
            else []"
  have "delete_body_global e opts ns entry tr = tr @ ?T"
    by (simp add: delete_body_global_def entry res split: option.splits)
  moreover have "list_all (global_event nss) ?T" "discovery_calls ?T = 0"
    using ns by (simp_all add: global_event_def discovery_calls_def split: option.splits)
  ultimately show ?thesis by blast
qed

lemma delete_body_scoped_events:
  "ns \<in> set nss \<Longrightarrow>
   \<exists>T. list_all (scoped_event nss) T \<and> discovery_calls T = 0 \<and>
       delete_body_scoped e opts ns entry tr = tr @ T"
proof -
  assume ns: "ns \<in> set nss"
  obtain t d where entry: "entry = (t, d)" by (cases entry)
  obtain d' r where res: "DeleteResource e d ns t (NoInteractive opts) = (d', r)"
    by (cases "DeleteResource e d ns t (NoInteractive opts)")
  let ?T = "if DeleteFlag opts
            then DeleteResourceCall d ns t (NoInteractive opts) #
                 (case r of None \<Rightarrow> [] | Some er \<Rightarrow> [PrintFailedDelete d' ns er])
            else []"
  have "delete_body_scoped e opts ns entry tr = tr @ ?T"
    by (simp add: delete_body_scoped_def entry res split: option.splits)
  moreover have "list_all (scoped_event nss) ?T" "discovery_calls ?T = 0"
    using ns by (simp_all add: scoped_event_def discovery_calls_def split: option.splits)
  ultimately show ?thesis by blast
qed

lemma fold_delete_body_global:
  "ns \<in> set nss \<Longrightarrow>
   \<exists>T. list_all (global_event nss) T \<and> discovery_calls T = 0 \<and>
       fold (delete_body_global e opts ns) data tr = tr @ T"
proof (induction data arbitrary: tr)
  case Nil
  show ?case by (simp add: discovery_calls_def)
next
  case (Cons entry data)
  from delete_body_global_events [OF Cons.prems, of e opts entry tr]
  obtain T0 where T0: "list_all (global_event nss) T0" "discovery_calls T0 = 0"
      "delete_body_global e opts ns entry tr = tr @ T0"
    by blast
  from Cons.IH [OF Cons.prems, of "tr @ T0"] obtain T1 where
    "list_all (global_event nss) T1" "discovery_calls T1 = 0"
    "fold (delete_body_global e opts ns) data (tr @ T0) = tr @ T0 @ T1"
    by auto
  with T0 show ?case
    by (intro exI [where x = "T0 @ T1"]) simp
qed

lemma fold_delete_body_scoped:
  "ns \<in> set nss \<Longrightarrow>
   \<exists>T. list_all (scoped_event nss) T \<and> discovery_calls T = 0 \<and>
       fold (delete_body_scoped e opts ns) data tr = tr @ T"
proof (induction data arbitrary: tr)
  case Nil
  show ?case by (simp add: discovery_calls_def)
next
  case (Cons entry data)
  from delete_body_scoped_events [OF Cons.prems, of e opts entry tr]
  obtain T0 where T0: "list_all (scoped_event nss) T0" "discovery_calls T0 = 0"
      "delete_body_scoped e opts ns entry tr = tr @ T0"
    by blast
  from Cons.IH [OF Cons.prems, of "tr @ T0"] obtain T1 where
    "list_all (scoped_event nss) T1" "discovery_calls T1 = 0"
    "fold (delete_body_scoped e opts ns) data (tr @ T0) = tr @ T0 @ T1"
    by auto
  with T0 show ?case
    by (intro exI [where x = "T0 @ T1"]) simp
qed

lemma fold_namespace_body_global_log:
  "\<exists>T. list_all (global_event nss) T \<and> discovery_calls T = 0 \<and>
       log (fold (namespace_body_global e opts nss) rd st) = log st @ T"
proof (induction rd arbitrary: st)
  case Nil
  show ?case by (simp add: discovery_calls_def)
next
  case (Cons entry rd)
  obtain T0 where T0: "list_all (global_event nss) T0" "discovery_calls T0 = 0"
      "log (namespace_body_global e opts nss entry st) = log st @ T0"
  proof (cases "fst entry \<in> set nss")
    case True
    from fold_delete_body_global [OF True, of e opts "snd entry" "log st"] obtain T where
      "list_all (global_event nss) T" "discovery_calls T = 0"
      "fold (delete_body_global e opts (fst entry)) (snd entry) (log st) = log st @ T"
      by blast
    with True that show ?thesis
      by (cases entry) (simp add: namespace_body_global_def)
  next
    case False
    with that [of "[]"] show ?thesis
      by (cases entry) (simp add: namespace_body_global_def discovery_calls_def)
  qed
  from Cons.IH [of "namespace_body_global e opts nss entry st"] obtain T1 where
    "list_all (global_event nss) T1" "discovery_calls T1 = 0"
    "log (fold (namespace_body_global e opts nss) rd (namespace_body_global e opts nss entry st)) =
       log (namespace_body_global e opts nss entry st) @ T1"
    by blast
  with T0 show ?case
    by (intro exI [where x = "T0 @ T1"]) simp
qed

lemma global_mode_log:
  assumes "global_mode e fo opts nss \<lparr>outputBuffer = [], response = [], log = []\<rparr> = (st, x)"
  shows "\<exists>T. list_all (global_event nss) T \<and> discovery_calls T = 0 \<and> log st = DiscoveryCall # T"
proof -
  consider er where "getResourcesWithFinalizersPendingDeletion e nss fo = ([DiscoveryCall, PrintErrorFetching er], Exit 1)"
    | T p er where "list_all (scan_event NamespaceAll) T"
        "getResourcesWithFinalizersPendingDeletion e nss fo = (DiscoveryCall # T, Return (p, er))"
    using global_scan_trace [of e nss fo] by blast
  then show ?thesis
  proof cases
    case 1
    with assms have "log st = [DiscoveryCall, PrintErrorFetching er]"
      by (auto simp: global_mode_def)
    then show ?thesis
      by (intro exI [where x = "[PrintErrorFetching er]"]) (simp add: global_event_def discovery_calls_def)
  next
    case 2
    let ?E = "case er of None \<Rightarrow> [] | Some x \<Rightarrow> [PrintFailedResources x]"
    let ?st0 = "\<lparr>outputBuffer = [], response = [], log = DiscoveryCall # T @ ?E\<rparr>"
    from fold_namespace_body_global_log [of nss e opts p ?st0] obtain T1 where T1:
      "list_all (global_event nss) T1" "discovery_calls T1 = 0"
      "log (fold (namespace_body_global e opts nss) p ?st0) = log ?st0 @ T1"
      by blast
    have E: "list_all (global_event nss) ?E" "discovery_calls ?E = 0"
      by (cases er; simp add: global_event_def discovery_calls_def)+
    have T: "list_all (global_event nss) T" "discovery_calls T = 0"
      using 2(1) scan_event_global list_all_weaken scan_event_no_discovery by blast+
    from assms 2(2) have "st = fold (namespace_body_global e opts nss) p ?st0"
      by (simp add: global_mode_def)
    with T1 T E show ?thesis
      by (intro exI [where x = "T @ ?E @ T1"]) simp
  qed
qed

lemma scoped_event_simps:
  "scoped_event all DiscoveryCall" "scoped_event all (PrintErrorFetching er)"
  "scoped_event all (PrintFailedNamespace ns er)"
  by (simp_all add: scoped_event_def)

lemma scoped_mode_log:
  "set nss \<subseteq> set all \<Longrightarrow> scoped_mode e fo opts nss st = (st', x) \<Longrightarrow>
   \<exists>T. list_all (scoped_event all) T \<and> discovery_calls T \<le> length nss \<and>
       (x = None \<longrightarrow> discovery_calls T = length nss) \<and> log st' = log st @ T"
proof (induction nss arbitrary: st)
  case Nil
  then show ?case by (auto simp: discovery_calls_def)
next
  case (Cons ns nss)
  from Cons.prems(1) have ns: "ns \<in> set all" and sub: "set nss \<subseteq> set all" by auto
  consider er where "getNamespacedResourcesWithFinalizersPendingDeletion e ns fo = ([DiscoveryCall, PrintErrorFetching er], Exit 1)"
    | T p er where "list_all (scan_event ns) T"
        "getNamespacedResourcesWithFinalizersPendingDeletion e ns fo = (DiscoveryCall # T, Return (p, Some er))"
    | T p where "list_all (scan_event ns) T"
        "getNamespacedResourcesWithFinalizersPendingDeletion e ns fo = (DiscoveryCall # T, Return (p, None))"
    using namespaced_scan_trace [of e ns fo] by (metis option.exhaust)
  then show ?case
  proof cases
    case 1
    with Cons.prems(2) have "log st' = log st @ [DiscoveryCall, PrintErrorFetching er]" "x = Some 1"
      by auto
    then show ?thesis
      by (intro exI [where x = "[DiscoveryCall, PrintErrorFetching er]"])
         (simp add: scoped_event_simps discovery_calls_def)
  next
    case 2
    let ?st1 = "st\<lparr>log := log st @ (DiscoveryCall # T) @ [PrintFailedNamespace ns er]\<rparr>"
    from Cons.prems(2) 2(2) have "scoped_mode e fo opts nss ?st1 = (st', x)" by simp
    from Cons.IH [OF sub this] obtain T1 where T1: "list_all (scoped_event all) T1"
      "discovery_calls T1 \<le> length nss" "x = None \<longrightarrow> discovery_calls T1 = length nss"
      "log st' = log ?st1 @ T1"
      by blast
    have T: "list_all (scoped_event all) T" "discovery_calls T = 0"
      using 2(1) scan_event_scoped [OF ns] list_all_weaken scan_event_no_discovery by blast+
    with T1 show ?thesis
      by (intro exI [where x = "(DiscoveryCall # T) @ [PrintFailedNamespace ns er] @ T1"])
         (simp add: scoped_event_simps discovery_calls_def)
  next
    case 3
    let ?st0 = "st\<lparr>log := log st @ DiscoveryCall # T\<rparr>"
    let ?st1 = "namespace_body_scoped e opts ns p ?st0"
    from Cons.prems(2) 3(2) have "scoped_mode e fo opts nss ?st1 = (st', x)" by simp
    from Cons.IH [OF sub this] obtain T1 where T1: "list_all (scoped_event all) T1"
      "discovery_calls T1 \<le> length nss" "x = None \<longrightarrow> discovery_calls T1 = length nss"
      "log st' = log ?st1 @ T1"
      by blast
    from fold_delete_body_scoped [OF ns, of e opts p "log ?st0"] obtain T2 where T2:
      "list_all (scoped_event all) T2" "discovery_calls T2 = 0"
      "log ?st1 = log ?st0 @ T2"
      by (auto simp: namespace_body_scoped_def)
    have T: "list_all (scoped_event all) T" "discovery_calls T = 0"
      using 3(1) scan_event_scoped [OF ns] list_all_weaken scan_event_no_discovery by blast+
    with T1 T2 show ?thesis
      by (intro exI [where x = "(DiscoveryCall # T) @ T2 @ T1"])
         (simp add: scoped_event_simps discovery_calls_def)
  qed
qed

lemma collect_global:
  "length (ExcludeListStr l) = 0 \<Longrightarrow> length (IncludeListStr l) = 0 \<Longrightarrow>
   collect e l fo opts =
     global_mode e fo opts (SetNamespaceList e l) \<lparr>outputBuffer = [], response = [], log = []\<rparr>"
  by (simp add: collect_def Let_def)

lemma collect_scoped:
  "length (ExcludeListStr l) = 0 \<longrightarrow> length (IncludeListStr l) \<noteq> 0 \<Longrightarrow>
   collect e l fo opts =
     scoped_mode e fo opts (SetNamespaceList e l) \<lparr>outputBuffer = [], response = [], log = []\<rparr>"
  by (auto simp: collect_def Let_def)

lemma global_mode_selected:
  assumes "length (ExcludeListStr l) = 0" "length (IncludeListStr l) = 0" "collect e l fo opts = (st, x)"
  shows "discovery_calls (log st) = 1 \<and>
      list_all (\<lambda>ev. (list_scope ev = None \<or> list_scope ev = Some NamespaceAll) \<and> \<not> plain_delete ev)
        (log st)"
proof -
  from assms have "global_mode e fo opts (SetNamespaceList e l) \<lparr>outputBuffer = [], response = [], log = []\<rparr> = (st, x)"
    by (simp add: collect_global)
  from global_mode_log [OF this] obtain T where T: "list_all (global_event (SetNamespaceList e l)) T"
    "discovery_calls T = 0" "log st = DiscoveryCall # T"
    by blast
  have "list_all (\<lambda>ev. (list_scope ev = None \<or> list_scope ev = Some NamespaceAll) \<and> \<not> plain_delete ev) T"
    by (rule list_all_weaken [OF T(1)]) (auto simp: global_event_def split: option.splits)
  with T(2,3) show ?thesis
    by (simp add: discovery_calls_def)
qed

lemma scoped_mode_selected:
  assumes "length (ExcludeListStr l) = 0 \<longrightarrow> length (IncludeListStr l) \<noteq> 0" "collect e l fo opts = (st, x)"
  shows "discovery_calls (log st) \<le> length (SetNamespaceList e l) \<and>
      (x = None \<longrightarrow> discovery_calls (log st) = length (SetNamespaceList e l)) \<and>
      list_all (\<lambda>ev. (list_scope ev = None \<or> list_scope ev \<in> Some ` set (SetNamespaceList e l)) \<and>
                  \<not> finalizer_delete ev)
        (log st)"
proof -
  from assms have "scoped_mode e fo opts (SetNamespaceList e l) \<lparr>outputBuffer = [], response = [], log = []\<rparr> = (st, x)"
    by (simp add: collect_scoped)
  from scoped_mode_log [OF subset_refl this] obtain T where T:
    "list_all (scoped_event (SetNamespaceList e l)) T" "discovery_calls T \<le> length (SetNamespaceList e l)"
    "x = None \<longrightarrow> discovery_calls T = length (SetNamespaceList e l)" "log st = T"
    by auto
  have "list_all (\<lambda>ev. (list_scope ev = None \<or> list_scope ev \<in> Some ` set (SetNamespaceList e l)) \<and> \<not> finalizer_delete ev) T"
    by (rule list_all_weaken [OF T(1)]) (auto simp: scoped_event_def split: option.splits)
  with T show ?thesis by simp
qed

section \<open>Invariants of the accumulators\<close>

lemma fold_item_global_invariant:
  assumes "\<And>p x. I p \<Longrightarrow> x \<in> set items \<Longrightarrow> kept e fo x \<Longrightarrow>
             I (append_name_in p (GetNamespace x) r (GetName x))"
  shows "I (pending s) \<Longrightarrow> I (pending (fold (item_body_global e fo r) items s))"
  using assms
proof (induction items arbitrary: s)
  case Nil
  then show ?case by simp
next
  case (Cons x items)
  have "I (pending (item_body_global e fo r x s))"
    using Cons.prems(1) Cons.prems(2) [of "pending s" x] by (simp add: item_body_global_eq)
  then show ?case
    using Cons.IH [of "item_body_global e fo r x s"] Cons.prems(2) by simp
qed

lemma fold_item_namespaced_invariant:
  assumes "\<And>p x. I p \<Longrightarrow> x \<in> set items \<Longrightarrow> kept e fo x \<Longrightarrow> I (append_name p r (GetName x))"
  shows "I (pending s) \<Longrightarrow> I (pending (fold (item_body_namespaced e fo r) items s))"
  using assms
proof (induction items arbitrary: s)
  case Nil
  then show ?case by simp
next
  case (Cons x items)
  have "I (pending (item_body_namespaced e fo r x s))"
    using Cons.prems(1) Cons.prems(2) [of "pending s" x] by (simp add: item_body_namespaced_eq)
  then show ?case
    using Cons.IH [of "item_body_namespaced e fo r x s"] Cons.prems(2) by simp
qed

lemma resource_body_global_invariant:
  assumes "\<And>p x r gvr items. I p \<Longrightarrow> ListItems e gvr NamespaceAll = Inr items \<Longrightarrow> x \<in> set items \<Longrightarrow>
             I (append_name_in p (GetNamespace x) r (GetName x))"
  shows "I (pending s) \<Longrightarrow> I (pending (resource_body_global e fo g gv r s))"
proof (cases "ListItems e (WithResource gv (Name r)) NamespaceAll")
  case (Inl er)
  assume "I (pending s)"
  then show ?thesis by (simp add: resource_body_global_def Inl emit_def)
next
  case (Inr items)
  assume s: "I (pending s)"
  have "I (pending (fold (item_body_global e fo (Name r)) items
                     (emit (ListCall (WithResource gv (Name r)) NamespaceAll) s)))"
    by (rule fold_item_global_invariant [where I = I]) (use assms Inr s in \<open>auto simp: emit_def\<close>)
  with s show ?thesis by (simp add: resource_body_global_def Inr)
qed

lemma resource_body_namespaced_invariant:
  assumes "\<And>p n r. I p \<Longrightarrow> I (append_name p r n)"
  shows "I (pending s) \<Longrightarrow> I (pending (resource_body_namespaced e fo ns g gv r s))"
proof (cases "ListItems e (WithResource gv (Name r)) ns")
  case (Inl er)
  assume "I (pending s)"
  then show ?thesis by (simp add: resource_body_namespaced_def Inl emit_def)
next
  case (Inr items)
  assume s: "I (pending s)"
  have "I (pending (fold (item_body_namespaced e fo (Name r)) items
                     (emit (ListCall (WithResource gv (Name r)) ns) s)))"
    by (rule fold_item_namespaced_invariant [where I = I]) (use assms s in \<open>auto simp: emit_def\<close>)
  with s show ?thesis by (simp add: resource_body_namespaced_def Inr)
qed

lemma fold_invariant:
  "(\<And>x s. I (pending s) \<Longrightarrow> I (pending (f x s))) \<Longrightarrow> I (pending s) \<Longrightarrow> I (pending (fold f xs s))"
  by (induction xs arbitrary: s) simp_all

lemma groups_loop_global_invariant:
  assumes "\<And>p x r gvr items. I p \<Longrightarrow> ListItems e gvr NamespaceAll = Inr items \<Longrightarrow> x \<in> set items \<Longrightarrow>
             I (append_name_in p (GetNamespace x) r (GetName x))"
  shows "I (pending s) \<Longrightarrow> I (pending (fst (groups_loop_global e fo gs s)))"
proof (induction gs arbitrary: s)
  case Nil
  then show ?case by simp
next
  case (Cons g gs)
  show ?case
  proof (cases "ParseGroupVersion e (GroupVersion g)")
    case (Inl er)
    with Cons.prems show ?thesis by simp
  next
    case (Inr gv)
    have "I (pending (fold (resource_body_global e fo (GroupVersion g) gv) (APIResources g) s))"
      by (rule fold_invariant [where I = I])
         (use Cons.prems resource_body_global_invariant [where I = I, OF assms] in auto)
    from Cons.IH [OF this] show ?thesis by (simp add: Inr)
  qed
qed

lemma groups_loop_namespaced_invariant:
  assumes "\<And>p n r. I p \<Longrightarrow> I (append_name p r n)"
  shows "I (pending s) \<Longrightarrow> I (pending (fst (groups_loop_namespaced e fo ns gs s)))"
proof (induction gs arbitrary: s)
  case Nil
  then show ?case by simp
next
  case (Cons g gs)
  show ?case
  proof (cases "ParseGroupVersion e (GroupVersion g)")
    case (Inl er)
    with Cons.prems show ?thesis by simp
  next
    case (Inr gv)
    have "I (pending (fold (resource_body_namespaced e fo ns (GroupVersion g) gv) (APIResources g) s))"
      by (rule fold_invariant [where I = I])
         (use Cons.prems resource_body_namespaced_invariant [where I = I, OF assms] in auto)
    from Cons.IH [OF this] show ?thesis by (simp add: Inr)
  qed
qed

lemma global_scan_invariant:
  assumes "I []"
    "\<And>p x r gvr items. I p \<Longrightarrow> ListItems e gvr NamespaceAll = Inr items \<Longrightarrow> x \<in> set items \<Longrightarrow>
             I (append_name_in p (GetNamespace x) r (GetName x))"
    "getResourcesWithFinalizersPendingDeletion e nss fo = (tr, Return (p, er))"
  shows "I p"
proof (cases "ServerPreferredResources e")
  case (Inl x)
  with assms(3) show ?thesis by (simp add: getResourcesWithFinalizersPendingDeletion_def)
next
  case (Inr gs)
  have "I (pending (fst (groups_loop_global e fo gs \<lparr>pending = [], trace = [DiscoveryCall]\<rparr>)))"
    by (rule groups_loop_global_invariant [where I = I]) (use assms(1,2) in auto)
  with assms(3) Inr show ?thesis
    by (auto simp: getResourcesWithFinalizersPendingDeletion_def split: prod.splits)
qed

lemma namespaced_scan_invariant:
  assumes "I []" "\<And>p n r. I p \<Longrightarrow> I (append_name p r n)"
    "getNamespacedResourcesWithFinalizersPendingDeletion e ns fo = (tr, Return (p, er))"
  shows "I p"
proof (cases "ServerPreferredResources e")
  case (Inl x)
  with assms(3) show ?thesis by (simp add: getNamespacedResourcesWithFinalizersPendingDeletion_def)
next
  case (Inr gs)
  have "I (pending (fst (groups_loop_namespaced e fo ns gs \<lparr>pending = [], trace = [DiscoveryCall]\<rparr>)))"
    by (rule groups_loop_namespaced_invariant [where I = I]) (use assms(1,2) in auto)
  with assms(3) Inr show ?thesis
    by (auto simp: getNamespacedResourcesWithFinalizersPendingDeletion_def split: prod.splits)
qed

lemma set_update_subset: "set (AList.update k v al) \<subseteq> insert (k, v) (set al)"
  by (induction al) auto

lemma update_fresh: "k \<notin> fst ` set al \<Longrightarrow> AList.update k v al = al @ [(k, v)]"
  by (induction al) auto

lemma names_nonempty_append_name: "names_nonempty m \<Longrightarrow> names_nonempty (append_name m r n)"
  using set_update_subset [of r "names_at m r @ [n]" m]
  by (auto simp: names_nonempty_def append_name_def list_all_iff)

lemma names_nonempty_inner_at: "filled p \<Longrightarrow> names_nonempty (inner_at p ns)"
proof (cases "map_of p ns")
  case None
  then show ?thesis by (simp add: inner_at_def names_nonempty_def)
next
  case (Some m)
  assume "filled p"
  moreover from Some have "(ns, m) \<in> set p" by (rule map_of_SomeD)
  ultimately have "names_nonempty m" by (auto simp: filled_def list_all_iff)
  with Some show ?thesis by (simp add: inner_at_def)
qed

lemma filled_append_name_in: "filled p \<Longrightarrow> filled (append_name_in p ns r n)"
proof -
  assume p: "filled p"
  have "names_nonempty (append_name (inner_at p ns) r n)"
    by (simp add: names_nonempty_append_name names_nonempty_inner_at p)
  moreover have "append_name (inner_at p ns) r n \<noteq> []"
    by (simp add: append_name_def)
  ultimately show ?thesis
    using p set_update_subset [of ns "append_name (inner_at p ns) r n" p]
    by (auto simp: filled_def append_name_in_def list_all_iff)
qed

lemma distinct_append_name_in:
  "distinct (map fst p) \<Longrightarrow> distinct (map fst (append_name_in p ns r n))"
  by (simp add: append_name_in_def distinct_update)

lemma global_scan_filled:
  "getResourcesWithFinalizersPendingDeletion e nss fo = (tr, Return (p, er)) \<Longrightarrow> filled p"
  by (rule global_scan_invariant [where I = filled]) (simp_all add: filled_def [of "[]"] filled_append_name_in)

lemma global_scan_distinct:
  "getResourcesWithFinalizersPendingDeletion e nss fo = (tr, Return (p, er)) \<Longrightarrow> distinct (map fst p)"
  by (rule global_scan_invariant [where I = "\<lambda>p. distinct (map fst p)"]) (simp_all add: distinct_append_name_in)

lemma namespaced_scan_names_nonempty:
  "getNamespacedResourcesWithFinalizersPendingDeletion e ns fo = (tr, Return (m, er)) \<Longrightarrow> names_nonempty m"
  by (rule namespaced_scan_invariant [where I = names_nonempty])
     (simp_all add: names_nonempty_def [of "[]"] names_nonempty_append_name)

section \<open>The response\<close>

lemma fold_namespace_body_global_response:
  "distinct (map fst rd) \<Longrightarrow> fst ` set (response st) \<inter> fst ` set rd = {} \<Longrightarrow>
   response (fold (namespace_body_global e opts nss) rd st) =
     response st @ filter (\<lambda>entry. fst entry \<in> set nss) rd"
proof (induction rd arbitrary: st)
  case Nil
  then show ?case by simp
next
  case (Cons entry rd)
  obtain ns d where entry: "entry = (ns, d)" by (cases entry)
  let ?st = "namespace_body_global e opts nss (ns, d) st"
  have fresh: "ns \<notin> fst ` set (response st)"
    using Cons.prems(2) by (auto simp: entry)
  have r: "response ?st = (if ns \<in> set nss then response st @ [(ns, d)] else response st)"
    by (simp add: namespace_body_global_def update_fresh [OF fresh])
  have "fst ` set (response ?st) \<inter> fst ` set rd = {}"
    unfolding r using Cons.prems by (auto simp: entry)
  with Cons.IH [of ?st] Cons.prems(1)
  have "response (fold (namespace_body_global e opts nss) rd ?st) =
          response ?st @ filter (\<lambda>entry. fst entry \<in> set nss) rd"
    by simp
  then show ?case by (simp add: r entry)
qed

lemma global_mode_response:
  assumes "global_mode e fo opts nss \<lparr>outputBuffer = [], response = [], log = []\<rparr> = (st, None)"
  shows "\<exists>tr p er. getResourcesWithFinalizersPendingDeletion e nss fo = (tr, Return (p, er)) \<and>
           response st = filter (\<lambda>entry. fst entry \<in> set nss) p"
proof -
  from assms obtain tr p er where scan: "getResourcesWithFinalizersPendingDeletion e nss fo = (tr, Return (p, er))"
    by (auto simp: global_mode_def split: prod.splits outcome.splits)
  let ?st0 = "\<lparr>outputBuffer = [], response = [], log = tr @ (case er of None \<Rightarrow> [] | Some x \<Rightarrow> [PrintFailedResources x])\<rparr>"
  from assms scan have "st = fold (namespace_body_global e opts nss) p ?st0"
    by (simp add: global_mode_def)
  then have "response st = filter (\<lambda>entry. fst entry \<in> set nss) p"
    using fold_namespace_body_global_response [OF global_scan_distinct [OF scan], of ?st0 e opts nss]
    by simp
  with scan show ?thesis by blast
qed

text \<open>
  Claim C10. In global mode, when the run does not exit, the response is the result of the
  global scan restricted to the namespaces that \<^verbatim>\<open>SetNamespaceList\<close> gave: every key of the
  response is in that list, and a namespace that the listing found and the list does not
  hold is dropped. Every call of a delete collaborator is for a namespace of the list.
\<close>

theorem global_report_within_namespace_list:
  "length (ExcludeListStr l) = 0 \<and> length (IncludeListStr l) = 0 \<and> collect e l fo opts = (st, None) \<longrightarrow>
     fst ` set (response st) \<subseteq> set (SetNamespaceList e l) \<and>
     list_all (\<lambda>ev. delete_namespace ev = None \<or> delete_namespace ev \<in> Some ` set (SetNamespaceList e l))
       (log st) \<and>
     (\<exists>tr p er. getResourcesWithFinalizersPendingDeletion e (SetNamespaceList e l) fo = (tr, Return (p, er)) \<and>
        response st = filter (\<lambda>entry. fst entry \<in> set (SetNamespaceList e l)) p)"
proof (intro impI, elim conjE)
  assume a: "length (ExcludeListStr l) = 0" "length (IncludeListStr l) = 0" "collect e l fo opts = (st, None)"
  then have g: "global_mode e fo opts (SetNamespaceList e l) \<lparr>outputBuffer = [], response = [], log = []\<rparr> = (st, None)"
    by (simp add: collect_global)
  from global_mode_response [OF g] obtain tr p er where
    p: "getResourcesWithFinalizersPendingDeletion e (SetNamespaceList e l) fo = (tr, Return (p, er))"
       "response st = filter (\<lambda>entry. fst entry \<in> set (SetNamespaceList e l)) p"
    by blast
  from global_mode_log [OF g] obtain T where T: "list_all (global_event (SetNamespaceList e l)) T"
    "log st = DiscoveryCall # T"
    by blast
  have "list_all (\<lambda>ev. delete_namespace ev = None \<or> delete_namespace ev \<in> Some ` set (SetNamespaceList e l)) T"
    by (rule list_all_weaken [OF T(1)]) (auto simp: global_event_def split: option.splits)
  with T(2) have "list_all (\<lambda>ev. delete_namespace ev = None \<or> delete_namespace ev \<in> Some ` set (SetNamespaceList e l)) (log st)"
    by simp
  moreover from p(2) have "fst ` set (response st) \<subseteq> set (SetNamespaceList e l)" by auto
  ultimately show "fst ` set (response st) \<subseteq> set (SetNamespaceList e l) \<and>
     list_all (\<lambda>ev. delete_namespace ev = None \<or> delete_namespace ev \<in> Some ` set (SetNamespaceList e l))
       (log st) \<and>
     (\<exists>tr p er. getResourcesWithFinalizersPendingDeletion e (SetNamespaceList e l) fo = (tr, Return (p, er)) \<and>
        response st = filter (\<lambda>entry. fst entry \<in> set (SetNamespaceList e l)) p)"
    using p by blast
qed

theorem global_report_within_namespace_list_witness:
  "length (ExcludeListStr no_lists) = 0 \<and> length (IncludeListStr no_lists) = 0 \<and>
   snd (collect ex_env no_lists ex_filterOpts delete_opts) = None \<and>
   SetNamespaceList ex_env no_lists = [''default'', ''kube-system''] \<and>
   snd (getResourcesWithFinalizersPendingDeletion ex_env [''default'', ''kube-system''] ex_filterOpts) =
     Return ([(''default'', [(''configmaps'', [''cm-a''])]), (''kube-system'', [(''configmaps'', [''cm-c''])]),
              (''staging'', [(''deployments'', [''web''])])], None) \<and>
   response (fst (collect ex_env no_lists ex_filterOpts delete_opts)) =
     [(''default'', [(''configmaps'', [''cm-a''])]), (''kube-system'', [(''configmaps'', [''cm-c''])])] \<and>
   map delete_namespace (filter (\<lambda>ev. delete_namespace ev \<noteq> None)
      (log (fst (collect ex_env no_lists ex_filterOpts delete_opts)))) = [Some ''default'', Some ''kube-system'']"
  using global_report_within_namespace_list [of no_lists ex_env ex_filterOpts delete_opts
      "fst (collect ex_env no_lists ex_filterOpts delete_opts)"]
  by (simp add: run_defs ex_defs)

lemma scoped_mode_response:
  "scoped_mode e fo opts nss st = (st', None) \<Longrightarrow>
   map_of (response st') =
     (\<lambda>ns. if ns \<in> set nss
           then (case scoped_result e fo ns of Some m \<Rightarrow> Some m | None \<Rightarrow> map_of (response st) ns)
           else map_of (response st) ns)"
proof (induction nss arbitrary: st)
  case Nil
  then show ?case by auto
next
  case (Cons ns nss)
  obtain tr out where scan: "getNamespacedResourcesWithFinalizersPendingDeletion e ns fo = (tr, out)"
    by (cases "getNamespacedResourcesWithFinalizersPendingDeletion e ns fo")
  show ?case
  proof (cases out)
    case (Exit code)
    with Cons.prems scan show ?thesis by simp
  next
    case (Return pr)
    obtain m er where pr: "pr = (m, er)" by (cases pr)
    show ?thesis
    proof (cases er)
      case (Some x)
      with Cons.prems scan Return pr
      have "scoped_mode e fo opts nss (st\<lparr>log := log st @ tr @ [PrintFailedNamespace ns x]\<rparr>) = (st', None)"
        by simp
      from Cons.IH [OF this] have "map_of (response st') =
          (\<lambda>k. if k \<in> set nss
               then (case scoped_result e fo k of Some m \<Rightarrow> Some m | None \<Rightarrow> map_of (response st) k)
               else map_of (response st) k)"
        by (simp cong: option.case_cong if_cong)
      moreover have "scoped_result e fo ns = None"
        by (simp add: scoped_result_def scan Return pr Some)
      ultimately show ?thesis by (auto simp: fun_eq_iff)
    next
      case None
      let ?st1 = "namespace_body_scoped e opts ns m (st\<lparr>log := log st @ tr\<rparr>)"
      from Cons.prems scan Return pr None
      have "scoped_mode e fo opts nss ?st1 = (st', None)"
        by simp
      from Cons.IH [OF this] have "map_of (response st') =
          (\<lambda>k. if k \<in> set nss
               then (case scoped_result e fo k of Some m \<Rightarrow> Some m | None \<Rightarrow> map_of (response ?st1) k)
               else map_of (response ?st1) k)" .
      moreover have "scoped_result e fo ns = Some m"
        by (simp add: scoped_result_def scan Return pr None)
      moreover have "map_of (response ?st1) = (map_of (response st))(ns \<mapsto> m)"
        by (simp add: namespace_body_scoped_def update_conv')
      ultimately show ?thesis by (auto simp: fun_eq_iff split: option.splits)
    qed
  qed
qed

lemma scoped_mode_names_nonempty:
  "scoped_mode e fo opts nss st = (st', x) \<Longrightarrow>
   list_all (\<lambda>entry. names_nonempty (snd entry)) (response st) \<Longrightarrow>
   list_all (\<lambda>entry. names_nonempty (snd entry)) (response st')"
proof (induction nss arbitrary: st)
  case Nil
  then show ?case by auto
next
  case (Cons ns nss)
  obtain tr out where scan: "getNamespacedResourcesWithFinalizersPendingDeletion e ns fo = (tr, out)"
    by (cases "getNamespacedResourcesWithFinalizersPendingDeletion e ns fo")
  show ?case
  proof (cases out)
    case (Exit code)
    with Cons.prems scan show ?thesis by auto
  next
    case (Return pr)
    obtain m er where pr: "pr = (m, er)" by (cases pr)
    show ?thesis
    proof (cases er)
      case (Some y)
      with Cons.prems scan Return pr
      have "scoped_mode e fo opts nss (st\<lparr>log := log st @ tr @ [PrintFailedNamespace ns y]\<rparr>) = (st', x)"
        by simp
      from Cons.IH [OF this] Cons.prems(2) show ?thesis by simp
    next
      case None
      let ?st1 = "namespace_body_scoped e opts ns m (st\<lparr>log := log st @ tr\<rparr>)"
      from Cons.prems scan Return pr None
      have run: "scoped_mode e fo opts nss ?st1 = (st', x)"
        by simp
      have "names_nonempty m"
        using namespaced_scan_names_nonempty scan Return pr by blast
      with Cons.prems(2) set_update_subset [of ns m "response st"]
      have "list_all (\<lambda>entry. names_nonempty (snd entry)) (response ?st1)"
        by (auto simp: namespace_body_scoped_def list_all_iff)
      from Cons.IH [OF run this] show ?thesis .
    qed
  qed
qed

lemma keys_iff_entries:
  assumes "filled p"
  shows "ns \<in> fst ` set p \<longleftrightarrow> (\<exists>t n. (ns, t, n) \<in> entries_global p)"
proof
  assume "ns \<in> fst ` set p"
  then obtain m where m: "map_of p ns = Some m"
    by (metis domD dom_map_of_conv_image_fst)
  then have "(ns, m) \<in> set p" by (rule map_of_SomeD)
  with assms have ne: "m \<noteq> []" "names_nonempty m"
    by (auto simp: filled_def list_all_iff)
  then obtain t names rest where mm: "m = (t, names) # rest" by (cases m) auto
  with ne(2) obtain n ns' where "names = n # ns'"
    by (cases names) (auto simp: names_nonempty_def)
  with mm m have "(ns, t, n) \<in> entries_global p"
    by (simp add: entries_global_def entries_of_def inner_at_def names_at_def)
  then show "\<exists>t n. (ns, t, n) \<in> entries_global p" by blast
next
  assume "\<exists>t n. (ns, t, n) \<in> entries_global p"
  then obtain t n where "n \<in> set (names_at (inner_at p ns) t)"
    by (auto simp: entries_global_def entries_of_def)
  then have "map_of p ns \<noteq> None"
    by (auto simp: inner_at_def names_at_def split: option.splits)
  then show "ns \<in> fst ` set p"
    by (simp add: map_of_eq_None_iff)
qed

lemma global_keys:
  assumes "length (ExcludeListStr l) = 0" "length (IncludeListStr l) = 0" "collect e l fo opts = (st, None)"
  shows "(\<forall>ns. ns \<in> fst ` set (response st) \<longleftrightarrow>
            ns \<in> set (SetNamespaceList e l) \<and>
            (\<exists>t n. (ns, t, n) \<in> global_entries (getResourcesWithFinalizersPendingDeletion e (SetNamespaceList e l) fo))) \<and>
         (\<forall>entry \<in> set (response st). snd entry \<noteq> [] \<and> (\<forall>group \<in> set (snd entry). snd group \<noteq> []))"
proof -
  let ?nss = "SetNamespaceList e l"
  from assms have g: "global_mode e fo opts ?nss \<lparr>outputBuffer = [], response = [], log = []\<rparr> = (st, None)"
    by (simp add: collect_global)
  from global_mode_response [OF g] obtain tr p er where
    p: "getResourcesWithFinalizersPendingDeletion e ?nss fo = (tr, Return (p, er))"
       "response st = filter (\<lambda>entry. fst entry \<in> set ?nss) p"
    by blast
  have f: "filled p" using global_scan_filled [OF p(1)] .
  have "\<And>ns. ns \<in> fst ` set (response st) \<longleftrightarrow> ns \<in> set ?nss \<and> ns \<in> fst ` set p"
    unfolding p(2) by force
  then have "\<forall>ns. ns \<in> fst ` set (response st) \<longleftrightarrow>
            ns \<in> set ?nss \<and> (\<exists>t n. (ns, t, n) \<in> global_entries (getResourcesWithFinalizersPendingDeletion e ?nss fo))"
    by (simp add: keys_iff_entries [OF f] global_entries_def p(1))
  moreover have "\<forall>entry \<in> set (response st). snd entry \<noteq> [] \<and> (\<forall>group \<in> set (snd entry). snd group \<noteq> [])"
    using f unfolding p(2) by (fastforce simp: filled_def names_nonempty_def list_all_iff)
  ultimately show ?thesis by blast
qed

lemma scoped_keys:
  assumes "length (ExcludeListStr l) = 0 \<longrightarrow> length (IncludeListStr l) \<noteq> 0" "collect e l fo opts = (st, None)"
  shows "(\<forall>ns. ns \<in> fst ` set (response st) \<longleftrightarrow>
            ns \<in> set (SetNamespaceList e l) \<and>
            verdict (getNamespacedResourcesWithFinalizersPendingDeletion e ns fo) = Return None) \<and>
         (\<forall>ns tr m. ns \<in> set (SetNamespaceList e l) \<and>
            getNamespacedResourcesWithFinalizersPendingDeletion e ns fo = (tr, Return (m, None)) \<longrightarrow>
            map_of (response st) ns = Some m) \<and>
         (\<forall>entry \<in> set (response st). \<forall>group \<in> set (snd entry). snd group \<noteq> [])"
proof -
  let ?nss = "SetNamespaceList e l"
  from assms have s: "scoped_mode e fo opts ?nss \<lparr>outputBuffer = [], response = [], log = []\<rparr> = (st, None)"
    by (simp add: collect_scoped)
  from scoped_mode_response [OF s]
  have m: "map_of (response st) = (\<lambda>ns. if ns \<in> set ?nss then scoped_result e fo ns else None)"
    by (auto simp: fun_eq_iff split: option.splits)
  have v: "(\<exists>y. scoped_result e fo ns = Some y) \<longleftrightarrow>
           verdict (getNamespacedResourcesWithFinalizersPendingDeletion e ns fo) = Return None" for ns
    by (auto simp: scoped_result_def verdict_def split: outcome.splits prod.splits option.splits)
  have "ns \<in> fst ` set (response st) \<longleftrightarrow> ns \<in> set ?nss \<and> (\<exists>y. scoped_result e fo ns = Some y)" for ns
  proof -
    have "ns \<in> fst ` set (response st) \<longleftrightarrow> map_of (response st) ns \<noteq> None"
      by (simp add: map_of_eq_None_iff)
    then show ?thesis by (simp add: m)
  qed
  then have 1: "\<forall>ns. ns \<in> fst ` set (response st) \<longleftrightarrow>
            ns \<in> set ?nss \<and> verdict (getNamespacedResourcesWithFinalizersPendingDeletion e ns fo) = Return None"
    by (simp add: v)
  have 2: "\<forall>ns tr m. ns \<in> set ?nss \<and>
            getNamespacedResourcesWithFinalizersPendingDeletion e ns fo = (tr, Return (m, None)) \<longrightarrow>
            map_of (response st) ns = Some m"
    by (simp add: m scoped_result_def)
  from scoped_mode_names_nonempty [OF s]
  have 3: "\<forall>entry \<in> set (response st). \<forall>group \<in> set (snd entry). snd group \<noteq> []"
    by (auto simp: names_nonempty_def list_all_iff)
  from 1 2 3 show ?thesis by blast
qed

text \<open>
  Claim C4, as the code has it. In global mode a namespace is a key of the response exactly
  when it is in the resolved list and the scan recorded at least one pending name under it;
  its inner mapping is then not empty. In scoped mode a namespace is a key exactly when it is
  in the resolved list and its scan returned a nil error; its value is the result of that
  scan, which may be empty. In both modes no resource type has an empty name list.
\<close>

theorem response_keys_by_mode:
  "(length (ExcludeListStr l) = 0 \<and> length (IncludeListStr l) = 0 \<and> collect e l fo opts = (st, None) \<longrightarrow>
      (\<forall>ns. ns \<in> fst ` set (response st) \<longleftrightarrow>
            ns \<in> set (SetNamespaceList e l) \<and>
            (\<exists>t n. (ns, t, n) \<in> global_entries (getResourcesWithFinalizersPendingDeletion e (SetNamespaceList e l) fo))) \<and>
      (\<forall>entry \<in> set (response st). snd entry \<noteq> [] \<and> (\<forall>group \<in> set (snd entry). snd group \<noteq> []))) \<and>
   ((length (ExcludeListStr l') = 0 \<longrightarrow> length (IncludeListStr l') \<noteq> 0) \<and>
    collect e l' fo opts = (st', None) \<longrightarrow>
      (\<forall>ns. ns \<in> fst ` set (response st') \<longleftrightarrow>
            ns \<in> set (SetNamespaceList e l') \<and>
            verdict (getNamespacedResourcesWithFinalizersPendingDeletion e ns fo) = Return None) \<and>
      (\<forall>ns tr m. ns \<in> set (SetNamespaceList e l') \<and>
            getNamespacedResourcesWithFinalizersPendingDeletion e ns fo = (tr, Return (m, None)) \<longrightarrow>
            map_of (response st') ns = Some m) \<and>
      (\<forall>entry \<in> set (response st'). \<forall>group \<in> set (snd entry). snd group \<noteq> []))"
  using global_keys [of l e fo opts st] scoped_keys [of l' e fo opts st']
  by blast

theorem response_keys_by_mode_witness:
  "length (ExcludeListStr no_lists) = 0 \<and> length (IncludeListStr no_lists) = 0 \<and>
   snd (collect ex_env_filters no_lists ex_filterOpts delete_opts) = None \<and>
   response (fst (collect ex_env_filters no_lists ex_filterOpts delete_opts)) =
     [(''kube-system'', [(''configmaps'', [''cm-c''])])] \<and>
   length (IncludeListStr include_default_empty) \<noteq> 0 \<and>
   snd (collect ex_env_filters include_default_empty ex_filterOpts delete_opts) = None \<and>
   response (fst (collect ex_env_filters include_default_empty ex_filterOpts delete_opts)) =
     [(''default'', []), (''empty'', [])]"
  using response_keys_by_mode [of no_lists ex_env_filters ex_filterOpts delete_opts
      "fst (collect ex_env_filters no_lists ex_filterOpts delete_opts)"
      include_default_empty
      "fst (collect ex_env_filters include_default_empty ex_filterOpts delete_opts)"]
  by (simp add: include_default_empty_def ex_env_filters_def run_defs ex_defs)

text \<open>
  Claim C4 as stated fails. In global mode, with \<^verbatim>\<open>default\<close> in the resolved list and the
  config maps of all namespaces listed, \<^verbatim>\<open>default\<close> has no pending object and is not a key.
  In scoped mode, with an empty catalog no type is scanned and \<^verbatim>\<open>default\<close> is a key; and
  with a malformed group version after the config maps were listed under \<^verbatim>\<open>default\<close>, it
  is not a key.
\<close>

theorem namespace_key_counterexample:
  "''default'' \<in> set (SetNamespaceList ex_env_filters no_lists) \<and>
   ListCall \<lparr>Group = [], Version = ''v1'', Resource = ''configmaps''\<rparr> NamespaceAll
     \<in> set (log (fst (collect ex_env_filters no_lists ex_filterOpts delete_opts))) \<and>
   snd (collect ex_env_filters no_lists ex_filterOpts delete_opts) = None \<and>
   ''default'' \<notin> fst ` set (response (fst (collect ex_env_filters no_lists ex_filterOpts delete_opts))) \<and>
   log (fst (collect ex_env_no_types include_default ex_filterOpts delete_opts)) = [DiscoveryCall] \<and>
   snd (collect ex_env_no_types include_default ex_filterOpts delete_opts) = None \<and>
   ''default'' \<in> fst ` set (response (fst (collect ex_env_no_types include_default ex_filterOpts delete_opts))) \<and>
   ListCall \<lparr>Group = [], Version = ''v1'', Resource = ''configmaps''\<rparr> ''default''
     \<in> set (log (fst (collect ex_env_bad_group include_default ex_filterOpts delete_opts))) \<and>
   snd (collect ex_env_bad_group include_default ex_filterOpts delete_opts) = None \<and>
   ''default'' \<notin> fst ` set (response (fst (collect ex_env_bad_group include_default ex_filterOpts delete_opts)))"
  by (simp add: ex_env_filters_def ex_env_no_types_def ex_env_bad_group_def bad_group_def run_defs ex_defs)

section \<open>The two scans on one snapshot\<close>

text \<open>
  The scan of a namespace sees, type by type, the objects that the global scan files under
  that namespace, in the same order: after every step the inner map of the namespace in the
  global accumulator reads like the accumulator of the scoped scan.
\<close>

lemma map_of_append_name:
  "map_of (append_name m r n) = (map_of m)(r \<mapsto> names_at m r @ [n])"
  by (simp add: append_name_def update_conv')

lemma names_at_cong: "map_of m = map_of m' \<Longrightarrow> names_at m r = names_at m' r"
  by (simp add: names_at_def)

lemma inner_at_append_name_in:
  "inner_at (append_name_in p ns r n) ns' =
     (if ns' = ns then append_name (inner_at p ns) r n else inner_at p ns')"
  by (simp add: inner_at_def append_name_in_def update_conv')

lemma sim_items:
  "map_of (inner_at (pending sg) ns) = map_of (pending ss) \<Longrightarrow>
   map_of (inner_at (pending (fold (item_body_global e fo r) items sg)) ns) =
   map_of (pending (fold (item_body_namespaced e fo r) (filter (\<lambda>x. GetNamespace x = ns) items) ss))"
proof (induction items arbitrary: sg ss)
  case Nil
  then show ?case by simp
next
  case (Cons x items)
  show ?case
  proof (cases "GetNamespace x = ns")
    case True
    have "map_of (inner_at (pending (item_body_global e fo r x sg)) ns) =
          map_of (pending (item_body_namespaced e fo r x ss))"
      using Cons.prems True names_at_cong [OF Cons.prems, of r]
      by (simp add: item_body_global_eq item_body_namespaced_eq inner_at_append_name_in map_of_append_name)
    from Cons.IH [OF this] True show ?thesis by simp
  next
    case False
    have "map_of (inner_at (pending (item_body_global e fo r x sg)) ns) = map_of (pending ss)"
      using Cons.prems False
      by (simp add: item_body_global_eq inner_at_append_name_in)
    from Cons.IH [OF this] False show ?thesis by simp
  qed
qed

lemma sim_resource:
  assumes "ListItems e = cluster_list c" "ns \<noteq> NamespaceAll"
    "map_of (inner_at (pending sg) ns) = map_of (pending ss)"
  shows "map_of (inner_at (pending (resource_body_global e fo g gv r sg)) ns) =
         map_of (pending (resource_body_namespaced e fo ns g gv r ss))"
proof (cases "Namespaced r \<and> ''list'' \<in> set (Verbs r)")
  case False
  with assms(3) show ?thesis
    by (auto simp: resource_body_global_def resource_body_namespaced_def)
next
  case True
  show ?thesis
  proof (cases "map_of (objects c) (WithResource gv (Name r))")
    case None
    with True assms show ?thesis
      by (simp add: resource_body_global_def resource_body_namespaced_def cluster_list_def emit_def)
  next
    case (Some res)
    show ?thesis
    proof (cases res)
      case (Inl er)
      with Some True assms show ?thesis
        by (simp add: resource_body_global_def resource_body_namespaced_def cluster_list_def emit_def)
    next
      case (Inr items)
      have "map_of (inner_at (pending (emit (ListCall (WithResource gv (Name r)) NamespaceAll) sg)) ns) =
            map_of (pending (emit (ListCall (WithResource gv (Name r)) ns) ss))"
        using assms(3) by (simp add: emit_def)
      from sim_items [OF this, of e fo "Name r" items] Inr Some True assms(1,2) show ?thesis
        by (simp add: resource_body_global_def resource_body_namespaced_def cluster_list_def)
    qed
  qed
qed

lemma sim_resources:
  assumes "ListItems e = cluster_list c" "ns \<noteq> NamespaceAll"
  shows "map_of (inner_at (pending sg) ns) = map_of (pending ss) \<Longrightarrow>
         map_of (inner_at (pending (fold (resource_body_global e fo g gv) rs sg)) ns) =
         map_of (pending (fold (resource_body_namespaced e fo ns g gv) rs ss))"
proof (induction rs arbitrary: sg ss)
  case Nil
  then show ?case by simp
next
  case (Cons r rs)
  from Cons.IH [OF sim_resource [OF assms Cons.prems]] show ?case by simp
qed

lemma sim_groups:
  assumes "ListItems e = cluster_list c" "ns \<noteq> NamespaceAll"
  shows "map_of (inner_at (pending sg) ns) = map_of (pending ss) \<Longrightarrow>
         map_of (inner_at (pending (fst (groups_loop_global e fo gs sg))) ns) =
         map_of (pending (fst (groups_loop_namespaced e fo ns gs ss))) \<and>
         snd (groups_loop_global e fo gs sg) = snd (groups_loop_namespaced e fo ns gs ss)"
proof (induction gs arbitrary: sg ss)
  case Nil
  then show ?case by simp
next
  case (Cons g gs)
  show ?case
  proof (cases "ParseGroupVersion e (GroupVersion g)")
    case (Inl er)
    with Cons.prems show ?thesis by simp
  next
    case (Inr gv)
    from Cons.IH [OF sim_resources [OF assms Cons.prems]] Inr show ?thesis by simp
  qed
qed

lemma entries_of_cong: "map_of m = map_of m' \<Longrightarrow> entries_of m = entries_of m'"
  by (simp add: entries_of_def names_at_def)

lemma scans_agree:
  assumes "ListItems e = cluster_list c" "ns \<noteq> NamespaceAll"
  shows "{(t, n). (ns, t, n) \<in> global_entries (getResourcesWithFinalizersPendingDeletion e nss fo)} =
         {(t, n). (ns, t, n) \<in> scoped_entries ns (getNamespacedResourcesWithFinalizersPendingDeletion e ns fo)} \<and>
         verdict (getNamespacedResourcesWithFinalizersPendingDeletion e ns fo) =
         verdict (getResourcesWithFinalizersPendingDeletion e nss fo)"
proof (cases "ServerPreferredResources e")
  case (Inl er)
  then show ?thesis
    by (simp add: getResourcesWithFinalizersPendingDeletion_def
          getNamespacedResourcesWithFinalizersPendingDeletion_def global_entries_def scoped_entries_def verdict_def)
next
  case (Inr gs)
  let ?s0 = "\<lparr>pending = [], trace = [DiscoveryCall]\<rparr> :: names_by_namespace scan_state"
  let ?t0 = "\<lparr>pending = [], trace = [DiscoveryCall]\<rparr> :: names_by_type scan_state"
  have "map_of (inner_at (pending ?s0) ns) = map_of (pending ?t0)"
    by (simp add: inner_at_def)
  from sim_groups [OF assms this, of fo gs]
  have m: "map_of (inner_at (pending (fst (groups_loop_global e fo gs ?s0))) ns) =
           map_of (pending (fst (groups_loop_namespaced e fo ns gs ?t0)))"
    and v: "snd (groups_loop_global e fo gs ?s0) = snd (groups_loop_namespaced e fo ns gs ?t0)"
    by simp_all
  from entries_of_cong [OF m] v Inr show ?thesis
    by (auto simp: getResourcesWithFinalizersPendingDeletion_def
          getNamespacedResourcesWithFinalizersPendingDeletion_def global_entries_def scoped_entries_def
          verdict_def entries_global_def split: prod.splits)
qed

lemma cluster_items_namespace:
  assumes "all_namespaces c nss" "cluster_list c gvr NamespaceAll = Inr items" "x \<in> set items"
  shows "GetNamespace x \<in> set nss"
proof -
  from assms(2) have "map_of (objects c) gvr = Some (Inr items)"
    by (auto simp: cluster_list_def split: option.splits sum.splits)
  then have "(gvr, Inr items) \<in> set (objects c)" by (rule map_of_SomeD)
  with assms(1,3) show ?thesis
    by (fastforce simp: all_namespaces_def list_all_iff)
qed

lemma keys_append_name_in: "fst ` set (append_name_in p ns r n) = insert ns (fst ` set p)"
  by (simp add: append_name_in_def dom_update)

lemma global_scan_keys:
  assumes "ListItems e = cluster_list c" "all_namespaces c nss"
    "getResourcesWithFinalizersPendingDeletion e nss' fo = (tr, Return (p, er))"
  shows "fst ` set p \<subseteq> set nss"
  by (rule global_scan_invariant [where I = "\<lambda>p. fst ` set p \<subseteq> set nss", OF _ _ assms(3)])
     (use assms(1,2) cluster_items_namespace in \<open>auto simp: keys_append_name_in\<close>)

lemma entries_global_keys: "(ns, t, n) \<in> entries_global p \<Longrightarrow> ns \<in> fst ` set p"
proof -
  assume "(ns, t, n) \<in> entries_global p"
  then have "map_of p ns \<noteq> None"
    by (auto simp: entries_global_def entries_of_def inner_at_def names_at_def split: option.splits)
  then show ?thesis by (simp add: map_of_eq_None_iff)
qed

lemma global_entries_namespaces:
  assumes "ListItems e = cluster_list c" "all_namespaces c nss"
    "(ns, t, n) \<in> global_entries (getResourcesWithFinalizersPendingDeletion e nss' fo)"
  shows "ns \<in> set nss"
proof -
  obtain tr out where scan: "getResourcesWithFinalizersPendingDeletion e nss' fo = (tr, out)"
    by (cases "getResourcesWithFinalizersPendingDeletion e nss' fo")
  with assms(3) obtain p er where out: "out = Return (p, er)" and en: "(ns, t, n) \<in> entries_global p"
    by (cases out) (auto simp: global_entries_def)
  from global_scan_keys [OF assms(1,2)] scan out have "fst ` set p \<subseteq> set nss" by blast
  with entries_global_keys [OF en] show ?thesis by blast
qed

text \<open>
  Claim C3. On a cluster snapshot, with a namespace list that names all namespaces of the
  snapshot, the global scan and the scans of the single namespaces record the same set of
  pending entries (namespace, resource type, object name); and each scoped scan ends as the
  global one does, with the same exit or the same returned error.
\<close>

theorem global_and_scoped_scans_agree:
  "ListItems e = cluster_list c \<and> all_namespaces c nss \<longrightarrow>
     global_entries (getResourcesWithFinalizersPendingDeletion e nss fo) =
       (\<Union>ns \<in> set nss. scoped_entries ns (getNamespacedResourcesWithFinalizersPendingDeletion e ns fo)) \<and>
     list_all (\<lambda>ns. verdict (getNamespacedResourcesWithFinalizersPendingDeletion e ns fo) =
                    verdict (getResourcesWithFinalizersPendingDeletion e nss fo)) nss"
proof (intro impI, elim conjE)
  assume l: "ListItems e = cluster_list c" and a: "all_namespaces c nss"
  let ?G = "global_entries (getResourcesWithFinalizersPendingDeletion e nss fo)"
  let ?S = "\<lambda>ns. scoped_entries ns (getNamespacedResourcesWithFinalizersPendingDeletion e ns fo)"
  have ne: "ns \<noteq> NamespaceAll" if "ns \<in> set nss" for ns
    using a that by (auto simp: all_namespaces_def)
  have agree: "(ns, t, n) \<in> ?G \<longleftrightarrow> (ns, t, n) \<in> ?S ns" if "ns \<in> set nss" for ns t n
    using scans_agree [OF l ne [OF that], of nss fo] by blast
  have own: "ns' = ns" if "(ns', t, n) \<in> ?S ns" for ns ns' t n
    using that by (auto simp: scoped_entries_def split: outcome.splits)
  have "?G = (\<Union>ns \<in> set nss. ?S ns)"
  proof (intro set_eqI iffI)
    fix x assume x: "x \<in> ?G"
    obtain ns t n where xx: "x = (ns, t, n)" by (cases x)
    with x global_entries_namespaces [OF l a] have "ns \<in> set nss" by blast
    with agree x xx show "x \<in> (\<Union>ns \<in> set nss. ?S ns)" by blast
  next
    fix x assume "x \<in> (\<Union>ns \<in> set nss. ?S ns)"
    then obtain ns where ns: "ns \<in> set nss" "x \<in> ?S ns" by blast
    obtain ns' t n where xx: "x = (ns', t, n)" by (cases x)
    with ns own have "ns' = ns" by blast
    with agree ns xx show "x \<in> ?G" by blast
  qed
  moreover have "list_all (\<lambda>ns. verdict (getNamespacedResourcesWithFinalizersPendingDeletion e ns fo) =
                    verdict (getResourcesWithFinalizersPendingDeletion e nss fo)) nss"
    using scans_agree [OF l ne, of _ nss fo] by (simp add: list_all_iff)
  ultimately show "?G = (\<Union>ns \<in> set nss. ?S ns) \<and>
     list_all (\<lambda>ns. verdict (getNamespacedResourcesWithFinalizersPendingDeletion e ns fo) =
                    verdict (getResourcesWithFinalizersPendingDeletion e nss fo)) nss"
    by blast
qed

theorem global_and_scoped_scans_agree_witness:
  "ListItems ex_env = cluster_list ex_cluster \<and>
   all_namespaces ex_cluster [''default'', ''kube-system'', ''staging''] \<and>
   global_entries (getResourcesWithFinalizersPendingDeletion ex_env [''default'', ''kube-system'', ''staging''] ex_filterOpts) =
     (\<Union>ns \<in> set [''default'', ''kube-system'', ''staging''].
        scoped_entries ns (getNamespacedResourcesWithFinalizersPendingDeletion ex_env ns ex_filterOpts)) \<and>
   snd (getResourcesWithFinalizersPendingDeletion ex_env [''default'', ''kube-system'', ''staging''] ex_filterOpts) =
     Return ([(''default'', [(''configmaps'', [''cm-a''])]), (''kube-system'', [(''configmaps'', [''cm-c''])]),
              (''staging'', [(''deployments'', [''web''])])], None) \<and>
   snd (getNamespacedResourcesWithFinalizersPendingDeletion ex_env ''default'' ex_filterOpts) =
     Return ([(''configmaps'', [''cm-a''])], None) \<and>
   snd (getNamespacedResourcesWithFinalizersPendingDeletion ex_env ''kube-system'' ex_filterOpts) =
     Return ([(''configmaps'', [''cm-c''])], None) \<and>
   snd (getNamespacedResourcesWithFinalizersPendingDeletion ex_env ''staging'' ex_filterOpts) =
     Return ([(''deployments'', [''web''])], None)"
proof -
  have h: "ListItems ex_env = cluster_list ex_cluster \<and>
      all_namespaces ex_cluster [''default'', ''kube-system'', ''staging'']"
    by (simp add: ex_env_def ex_cluster_def all_namespaces_def NamespaceAll_def
          cm_a_def cm_b_def cm_c_def cm_d_def web_def)
  have ev: "snd (getResourcesWithFinalizersPendingDeletion ex_env [''default'', ''kube-system'', ''staging''] ex_filterOpts) =
     Return ([(''default'', [(''configmaps'', [''cm-a''])]), (''kube-system'', [(''configmaps'', [''cm-c''])]),
              (''staging'', [(''deployments'', [''web''])])], None) \<and>
   snd (getNamespacedResourcesWithFinalizersPendingDeletion ex_env ''default'' ex_filterOpts) =
     Return ([(''configmaps'', [''cm-a''])], None) \<and>
   snd (getNamespacedResourcesWithFinalizersPendingDeletion ex_env ''kube-system'' ex_filterOpts) =
     Return ([(''configmaps'', [''cm-c''])], None) \<and>
   snd (getNamespacedResourcesWithFinalizersPendingDeletion ex_env ''staging'' ex_filterOpts) =
     Return ([(''deployments'', [''web''])], None)"
    by (simp add: run_defs ex_defs)
  from global_and_scoped_scans_agree [of ex_env ex_cluster "[''default'', ''kube-system'', ''staging'']" ex_filterOpts] h ev
  show ?thesis by blast
qed

section \<open>The delete calls of the two modes\<close>

lemma delete_body_global_exact:
  "delete_body_global e opts ns grp tr = tr @ delete_events_global e opts ns grp"
  by (cases grp)
     (simp add: delete_body_global_def delete_events_global_def split: prod.splits option.splits)

lemma delete_body_scoped_exact:
  "delete_body_scoped e opts ns grp tr = tr @ delete_events_scoped e opts ns grp"
  by (cases grp)
     (simp add: delete_body_scoped_def delete_events_scoped_def split: prod.splits option.splits)

lemma fold_delete_body_global_exact:
  "fold (delete_body_global e opts ns) data tr = tr @ concat (map (delete_events_global e opts ns) data)"
  by (induction data arbitrary: tr) (simp_all add: delete_body_global_exact)

lemma fold_delete_body_scoped_exact:
  "fold (delete_body_scoped e opts ns) data tr = tr @ concat (map (delete_events_scoped e opts ns) data)"
  by (induction data arbitrary: tr) (simp_all add: delete_body_scoped_exact)

lemma fold_namespace_body_global_exact:
  "log (fold (namespace_body_global e opts nss) rd st) =
     log st @ concat (map (\<lambda>entry. concat (map (delete_events_global e opts (fst entry)) (snd entry)))
                       (filter (\<lambda>entry. fst entry \<in> set nss) rd))"
proof (induction rd arbitrary: st)
  case Nil
  show ?case by simp
next
  case (Cons entry rd)
  obtain ns d where entry: "entry = (ns, d)" by (cases entry)
  have "log (namespace_body_global e opts nss (ns, d) st) =
          log st @ (if ns \<in> set nss then concat (map (delete_events_global e opts ns) d) else [])"
    by (simp add: namespace_body_global_def fold_delete_body_global_exact)
  with Cons.IH [of "namespace_body_global e opts nss (ns, d) st"] show ?case
    by (simp add: entry)
qed

lemma global_mode_log_exact:
  assumes "global_mode e fo opts nss \<lparr>outputBuffer = [], response = [], log = []\<rparr> = (st, None)"
  shows "\<exists>tr p er. getResourcesWithFinalizersPendingDeletion e nss fo = (tr, Return (p, er)) \<and>
           log st = tr @ (case er of None \<Rightarrow> [] | Some y \<Rightarrow> [PrintFailedResources y]) @
             concat (map (\<lambda>entry. concat (map (delete_events_global e opts (fst entry)) (snd entry)))
                       (filter (\<lambda>entry. fst entry \<in> set nss) p))"
proof -
  from assms obtain tr p er where scan: "getResourcesWithFinalizersPendingDeletion e nss fo = (tr, Return (p, er))"
    by (auto simp: global_mode_def split: prod.splits outcome.splits)
  let ?st0 = "\<lparr>outputBuffer = [], response = [], log = tr @ (case er of None \<Rightarrow> [] | Some x \<Rightarrow> [PrintFailedResources x])\<rparr>"
  from assms scan have "st = fold (namespace_body_global e opts nss) p ?st0"
    by (simp add: global_mode_def)
  then have "log st = tr @ (case er of None \<Rightarrow> [] | Some y \<Rightarrow> [PrintFailedResources y]) @
             concat (map (\<lambda>entry. concat (map (delete_events_global e opts (fst entry)) (snd entry)))
                       (filter (\<lambda>entry. fst entry \<in> set nss) p))"
    by (simp add: fold_namespace_body_global_exact)
  with scan show ?thesis by blast
qed

lemma scoped_mode_log_exact:
  "scoped_mode e fo opts nss st = (st', None) \<Longrightarrow>
   log st' = log st @ concat (map (scoped_events e fo opts) nss)"
proof (induction nss arbitrary: st)
  case Nil
  then show ?case by auto
next
  case (Cons ns nss)
  obtain tr out where scan: "getNamespacedResourcesWithFinalizersPendingDeletion e ns fo = (tr, out)"
    by (cases "getNamespacedResourcesWithFinalizersPendingDeletion e ns fo")
  show ?case
  proof (cases out)
    case (Exit code)
    with Cons.prems scan show ?thesis by simp
  next
    case (Return pr)
    obtain m er where pr: "pr = (m, er)" by (cases pr)
    show ?thesis
    proof (cases er)
      case (Some y)
      with Cons.prems scan Return pr
      have "scoped_mode e fo opts nss (st\<lparr>log := log st @ tr @ [PrintFailedNamespace ns y]\<rparr>) = (st', None)"
        by simp
      from Cons.IH [OF this] scan Return pr Some show ?thesis
        by (simp add: scoped_events_def)
    next
      case None
      let ?st1 = "namespace_body_scoped e opts ns m (st\<lparr>log := log st @ tr\<rparr>)"
      from Cons.prems scan Return pr None
      have "scoped_mode e fo opts nss ?st1 = (st', None)"
        by simp
      from Cons.IH [OF this] scan Return pr None show ?thesis
        by (simp add: scoped_events_def namespace_body_scoped_def fold_delete_body_scoped_exact)
    qed
  qed
qed

lemma scoped_mode_response_members:
  "scoped_mode e fo opts nss st = (st', x) \<Longrightarrow> entry \<in> set (response st') \<Longrightarrow>
   entry \<in> set (response st) \<or> (fst entry \<in> set nss \<and> scoped_result e fo (fst entry) = Some (snd entry))"
proof (induction nss arbitrary: st)
  case Nil
  then show ?case by auto
next
  case (Cons ns nss)
  obtain tr out where scan: "getNamespacedResourcesWithFinalizersPendingDeletion e ns fo = (tr, out)"
    by (cases "getNamespacedResourcesWithFinalizersPendingDeletion e ns fo")
  show ?case
  proof (cases out)
    case (Exit code)
    with Cons.prems scan show ?thesis by auto
  next
    case (Return pr)
    obtain m er where pr: "pr = (m, er)" by (cases pr)
    show ?thesis
    proof (cases er)
      case (Some y)
      with Cons.prems scan Return pr
      have "scoped_mode e fo opts nss (st\<lparr>log := log st @ tr @ [PrintFailedNamespace ns y]\<rparr>) = (st', x)"
        by simp
      from Cons.IH [OF this Cons.prems(2)] show ?thesis by auto
    next
      case None
      let ?st1 = "namespace_body_scoped e opts ns m (st\<lparr>log := log st @ tr\<rparr>)"
      from Cons.prems scan Return pr None
      have "scoped_mode e fo opts nss ?st1 = (st', x)"
        by simp
      from Cons.IH [OF this Cons.prems(2)]
      have "entry \<in> set (response ?st1) \<or>
            (fst entry \<in> set nss \<and> scoped_result e fo (fst entry) = Some (snd entry))" .
      moreover have "set (response ?st1) \<subseteq> insert (ns, m) (set (response st))"
        using set_update_subset [of ns m "response st"] by (simp add: namespace_body_scoped_def)
      moreover have "scoped_result e fo ns = Some m"
        by (simp add: scoped_result_def scan Return pr None)
      ultimately show ?thesis by auto
    qed
  qed
qed

lemma concat_map_mem: "x \<in> set xs \<Longrightarrow> set (g x) \<subseteq> set (concat (map g xs))"
  by auto

lemma delete_events_global_call:
  "DeleteFlag opts \<Longrightarrow>
   DeleteResourceWithFinalizerCall (snd grp) ns (fst grp) (NoInteractive opts)
     \<in> set (delete_events_global e opts ns grp)"
  by (simp add: delete_events_global_def)

lemma delete_events_scoped_call:
  "DeleteFlag opts \<Longrightarrow>
   DeleteResourceCall (snd grp) ns (fst grp) (NoInteractive opts)
     \<in> set (delete_events_scoped e opts ns grp)"
  by (simp add: delete_events_scoped_def)

lemma global_mode_deletes:
  assumes "length (ExcludeListStr l) = 0" "length (IncludeListStr l) = 0" "collect e l fo opts = (st, None)"
  shows "(\<exists>tr p er. getResourcesWithFinalizersPendingDeletion e (SetNamespaceList e l) fo = (tr, Return (p, er)) \<and>
           log st = tr @ (case er of None \<Rightarrow> [] | Some y \<Rightarrow> [PrintFailedResources y]) @
             concat (map (\<lambda>entry. concat (map (delete_events_global e opts (fst entry)) (snd entry)))
                       (filter (\<lambda>entry. fst entry \<in> set (SetNamespaceList e l)) p))) \<and>
         (DeleteFlag opts \<longrightarrow>
            list_all (\<lambda>entry. list_all (\<lambda>grp.
                DeleteResourceWithFinalizerCall (snd grp) (fst entry) (fst grp) (NoInteractive opts)
                  \<in> set (log st)) (snd entry))
              (response st))"
proof -
  let ?nss = "SetNamespaceList e l"
  from assms have g: "global_mode e fo opts ?nss \<lparr>outputBuffer = [], response = [], log = []\<rparr> = (st, None)"
    by (simp add: collect_global)
  from global_mode_log_exact [OF g] obtain tr p er where
    scan: "getResourcesWithFinalizersPendingDeletion e ?nss fo = (tr, Return (p, er))" and
    lg: "log st = tr @ (case er of None \<Rightarrow> [] | Some y \<Rightarrow> [PrintFailedResources y]) @
             concat (map (\<lambda>entry. concat (map (delete_events_global e opts (fst entry)) (snd entry)))
                       (filter (\<lambda>entry. fst entry \<in> set ?nss) p))"
    by blast
  from global_mode_response [OF g] scan
  have r: "response st = filter (\<lambda>entry. fst entry \<in> set ?nss) p" by auto
  have "DeleteResourceWithFinalizerCall (snd grp) (fst entry) (fst grp) (NoInteractive opts) \<in> set (log st)"
    if "DeleteFlag opts" "entry \<in> set (response st)" "grp \<in> set (snd entry)" for entry grp
  proof -
    have "DeleteResourceWithFinalizerCall (snd grp) (fst entry) (fst grp) (NoInteractive opts)
            \<in> set (concat (map (delete_events_global e opts (fst entry)) (snd entry)))"
      using that(3) delete_events_global_call [OF that(1), of grp "fst entry" e]
      by (auto intro!: bexI [where x = grp])
    moreover have "set (concat (map (delete_events_global e opts (fst entry)) (snd entry))) \<subseteq>
        set (concat (map (\<lambda>entry. concat (map (delete_events_global e opts (fst entry)) (snd entry)))
                       (filter (\<lambda>entry. fst entry \<in> set ?nss) p)))"
      using that(2) [unfolded r]
      by (rule concat_map_mem [where g = "\<lambda>entry. concat (map (delete_events_global e opts (fst entry)) (snd entry))"])
    ultimately show ?thesis by (auto simp: lg)
  qed
  then have "DeleteFlag opts \<longrightarrow>
            list_all (\<lambda>entry. list_all (\<lambda>grp.
                DeleteResourceWithFinalizerCall (snd grp) (fst entry) (fst grp) (NoInteractive opts)
                  \<in> set (log st)) (snd entry))
              (response st)"
    by (simp add: list_all_iff)
  with scan lg show ?thesis by blast
qed

lemma scoped_mode_deletes:
  assumes "length (ExcludeListStr l) = 0 \<longrightarrow> length (IncludeListStr l) \<noteq> 0" "collect e l fo opts = (st, None)"
  shows "log st = concat (map (scoped_events e fo opts) (SetNamespaceList e l)) \<and>
         (DeleteFlag opts \<longrightarrow>
            list_all (\<lambda>entry. list_all (\<lambda>grp.
                DeleteResourceCall (snd grp) (fst entry) (fst grp) (NoInteractive opts)
                  \<in> set (log st)) (snd entry))
              (response st))"
proof -
  let ?nss = "SetNamespaceList e l"
  from assms have s: "scoped_mode e fo opts ?nss \<lparr>outputBuffer = [], response = [], log = []\<rparr> = (st, None)"
    by (simp add: collect_scoped)
  from scoped_mode_log_exact [OF s] have lg: "log st = concat (map (scoped_events e fo opts) ?nss)"
    by simp
  have "DeleteResourceCall (snd grp) (fst entry) (fst grp) (NoInteractive opts) \<in> set (log st)"
    if "DeleteFlag opts" "entry \<in> set (response st)" "grp \<in> set (snd entry)" for entry grp
  proof -
    from scoped_mode_response_members [OF s that(2)]
    have ns: "fst entry \<in> set ?nss" and res: "scoped_result e fo (fst entry) = Some (snd entry)"
      by simp_all
    from res obtain tr where "getNamespacedResourcesWithFinalizersPendingDeletion e (fst entry) fo =
        (tr, Return (snd entry, None))"
      by (cases "getNamespacedResourcesWithFinalizersPendingDeletion e (fst entry) fo")
         (auto simp: scoped_result_def split: outcome.splits prod.splits option.splits)
    then have "scoped_events e fo opts (fst entry) =
        tr @ concat (map (delete_events_scoped e opts (fst entry)) (snd entry))"
      by (simp add: scoped_events_def)
    moreover have "DeleteResourceCall (snd grp) (fst entry) (fst grp) (NoInteractive opts)
            \<in> set (concat (map (delete_events_scoped e opts (fst entry)) (snd entry)))"
      using that(3) delete_events_scoped_call [OF that(1), of grp "fst entry" e]
      by (auto intro!: bexI [where x = grp])
    ultimately have "DeleteResourceCall (snd grp) (fst entry) (fst grp) (NoInteractive opts)
            \<in> set (scoped_events e fo opts (fst entry))"
      by simp
    with concat_map_mem [OF ns, of "scoped_events e fo opts"] show ?thesis
      by (auto simp: lg)
  qed
  then have "DeleteFlag opts \<longrightarrow>
            list_all (\<lambda>entry. list_all (\<lambda>grp.
                DeleteResourceCall (snd grp) (fst entry) (fst grp) (NoInteractive opts)
                  \<in> set (log st)) (snd entry))
              (response st)"
    by (simp add: list_all_iff)
  with lg show ?thesis by blast
qed

text \<open>
  Claim C6. When the include list and the exclude list are both empty, the run is in global
  mode: discovery is called once, every list call is for all namespaces and the plain delete
  is never called; when the run does not exit, its trace is the trace of the one global scan,
  the line for a scan error, and then, for every namespace of the scan result that is in the
  resolved list, the finalizer-aware delete step of each of its groups; with the delete flag
  set, \<^verbatim>\<open>DeleteResourceWithFinalizer\<close> is called for every group of the response. Otherwise
  the run is in scoped mode: there is at most one discovery call per resolved namespace,
  exactly one when the run does not exit, every list call is for a resolved namespace and
  the finalizer-aware delete is never called; when the run does not exit, its trace is, for
  each resolved namespace in turn, the trace of the scan of that namespace followed by the
  plain delete step of each group the scan returned; with the delete flag set,
  \<^verbatim>\<open>DeleteResource\<close> is called for every group of the response.
\<close>

theorem mode_selection:
  "(length (ExcludeListStr l) = 0 \<and> length (IncludeListStr l) = 0 \<and> collect e l fo opts = (st, x) \<longrightarrow>
      discovery_calls (log st) = 1 \<and>
      list_all (\<lambda>ev. (list_scope ev = None \<or> list_scope ev = Some NamespaceAll) \<and> \<not> plain_delete ev)
        (log st) \<and>
      (x = None \<longrightarrow>
         (\<exists>tr p er. getResourcesWithFinalizersPendingDeletion e (SetNamespaceList e l) fo = (tr, Return (p, er)) \<and>
            log st = tr @ (case er of None \<Rightarrow> [] | Some y \<Rightarrow> [PrintFailedResources y]) @
              concat (map (\<lambda>entry. concat (map (delete_events_global e opts (fst entry)) (snd entry)))
                        (filter (\<lambda>entry. fst entry \<in> set (SetNamespaceList e l)) p))) \<and>
         (DeleteFlag opts \<longrightarrow>
            list_all (\<lambda>entry. list_all (\<lambda>grp.
                DeleteResourceWithFinalizerCall (snd grp) (fst entry) (fst grp) (NoInteractive opts)
                  \<in> set (log st)) (snd entry))
              (response st)))) \<and>
   ((length (ExcludeListStr l') = 0 \<longrightarrow> length (IncludeListStr l') \<noteq> 0) \<and>
    collect e l' fo opts = (st', x') \<longrightarrow>
      discovery_calls (log st') \<le> length (SetNamespaceList e l') \<and>
      (x' = None \<longrightarrow> discovery_calls (log st') = length (SetNamespaceList e l')) \<and>
      list_all (\<lambda>ev. (list_scope ev = None \<or> list_scope ev \<in> Some ` set (SetNamespaceList e l')) \<and>
                  \<not> finalizer_delete ev)
        (log st') \<and>
      (x' = None \<longrightarrow>
         log st' = concat (map (scoped_events e fo opts) (SetNamespaceList e l')) \<and>
         (DeleteFlag opts \<longrightarrow>
            list_all (\<lambda>entry. list_all (\<lambda>grp.
                DeleteResourceCall (snd grp) (fst entry) (fst grp) (NoInteractive opts)
                  \<in> set (log st')) (snd entry))
              (response st'))))"
proof -
  have "discovery_calls (log st) = 1 \<and>
      list_all (\<lambda>ev. (list_scope ev = None \<or> list_scope ev = Some NamespaceAll) \<and> \<not> plain_delete ev)
        (log st)"
    if "length (ExcludeListStr l) = 0" "length (IncludeListStr l) = 0" "collect e l fo opts = (st, x)"
    using global_mode_selected [OF that] .
  moreover have "(\<exists>tr p er. getResourcesWithFinalizersPendingDeletion e (SetNamespaceList e l) fo = (tr, Return (p, er)) \<and>
            log st = tr @ (case er of None \<Rightarrow> [] | Some y \<Rightarrow> [PrintFailedResources y]) @
              concat (map (\<lambda>entry. concat (map (delete_events_global e opts (fst entry)) (snd entry)))
                        (filter (\<lambda>entry. fst entry \<in> set (SetNamespaceList e l)) p))) \<and>
         (DeleteFlag opts \<longrightarrow>
            list_all (\<lambda>entry. list_all (\<lambda>grp.
                DeleteResourceWithFinalizerCall (snd grp) (fst entry) (fst grp) (NoInteractive opts)
                  \<in> set (log st)) (snd entry))
              (response st))"
    if "length (ExcludeListStr l) = 0" "length (IncludeListStr l) = 0" "collect e l fo opts = (st, x)" "x = None"
    using global_mode_deletes [OF that(1,2) that(3) [unfolded that(4)]] .
  moreover have "discovery_calls (log st') \<le> length (SetNamespaceList e l') \<and>
      (x' = None \<longrightarrow> discovery_calls (log st') = length (SetNamespaceList e l')) \<and>
      list_all (\<lambda>ev. (list_scope ev = None \<or> list_scope ev \<in> Some ` set (SetNamespaceList e l')) \<and>
                  \<not> finalizer_delete ev)
        (log st')"
    if "length (ExcludeListStr l') = 0 \<longrightarrow> length (IncludeListStr l') \<noteq> 0" "collect e l' fo opts = (st', x')"
    using scoped_mode_selected [OF that] .
  moreover have "log st' = concat (map (scoped_events e fo opts) (SetNamespaceList e l')) \<and>
         (DeleteFlag opts \<longrightarrow>
            list_all (\<lambda>entry. list_all (\<lambda>grp.
                DeleteResourceCall (snd grp) (fst entry) (fst grp) (NoInteractive opts)
                  \<in> set (log st')) (snd entry))
              (response st'))"
    if "length (ExcludeListStr l') = 0 \<longrightarrow> length (IncludeListStr l') \<noteq> 0" "collect e l' fo opts = (st', x')" "x' = None"
    using scoped_mode_deletes [OF that(1) that(2) [unfolded that(3)]] .
  ultimately show ?thesis
    by (intro conjI impI; elim conjE; simp)
qed

theorem mode_selection_witness:
  "length (ExcludeListStr no_lists) = 0 \<and> length (IncludeListStr no_lists) = 0 \<and>
   DeleteFlag delete_opts \<and>
   length (IncludeListStr include_two) \<noteq> 0 \<and>
   SetNamespaceList ex_env include_two = [''default'', ''kube-system''] \<and>
   list_all (\<lambda>entry. list_all (\<lambda>grp.
       DeleteResourceWithFinalizerCall (snd grp) (fst entry) (fst grp) (NoInteractive delete_opts)
         \<in> set (log (fst (collect ex_env no_lists ex_filterOpts delete_opts)))) (snd entry))
     (response (fst (collect ex_env no_lists ex_filterOpts delete_opts))) \<and>
   list_all (\<lambda>entry. list_all (\<lambda>grp.
       DeleteResourceCall (snd grp) (fst entry) (fst grp) (NoInteractive delete_opts)
         \<in> set (log (fst (collect ex_env include_two ex_filterOpts delete_opts)))) (snd entry))
     (response (fst (collect ex_env include_two ex_filterOpts delete_opts))) \<and>
   collect ex_env no_lists ex_filterOpts delete_opts =
     (\<lparr>outputBuffer = ''default: cm-a'' @ [CHR 0x0A] @ ''kube-system: cm-c'' @ [CHR 0x0A],
       response = [(''default'', [(''configmaps'', [''cm-a''])]), (''kube-system'', [(''configmaps'', [''cm-c''])])],
       log = [DiscoveryCall,
         ListCall \<lparr>Group = [], Version = ''v1'', Resource = ''configmaps''\<rparr> NamespaceAll,
         HasExcludedLabelCall Map.empty [], HasIncludedAgeCall 10,
         HasExcludedLabelCall Map.empty [], HasIncludedAgeCall 12,
         HasExcludedLabelCall Map.empty [], HasIncludedAgeCall 13,
         ListCall \<lparr>Group = [], Version = ''v1'', Resource = ''secrets''\<rparr> NamespaceAll,
         PrintErrorListing ''v1'' ''forbidden'',
         ListCall \<lparr>Group = ''apps'', Version = ''v1'', Resource = ''deployments''\<rparr> NamespaceAll,
         HasExcludedLabelCall Map.empty [], HasIncludedAgeCall 14,
         DeleteResourceWithFinalizerCall [''cm-a''] ''default'' ''configmaps'' True,
         DeleteResourceWithFinalizerCall [''cm-c''] ''kube-system'' ''configmaps'' True]\<rparr>, None) \<and>
   collect ex_env include_two ex_filterOpts delete_opts =
     (\<lparr>outputBuffer = ''default: cm-a'' @ [CHR 0x0A] @ ''kube-system: cm-c'' @ [CHR 0x0A],
       response = [(''default'', [(''configmaps'', [''cm-a''])]), (''kube-system'', [(''configmaps'', [''cm-c''])])],
       log = [DiscoveryCall,
         ListCall \<lparr>Group = [], Version = ''v1'', Resource = ''configmaps''\<rparr> ''default'',
         HasExcludedLabelCall Map.empty [], HasIncludedAgeCall 10,
         HasExcludedLabelCall Map.empty [], HasIncludedAgeCall 13,
         ListCall \<lparr>Group = [], Version = ''v1'', Resource = ''secrets''\<rparr> ''default'',
         PrintErrorListing ''v1'' ''forbidden'',
         ListCall \<lparr>Group = ''apps'', Version = ''v1'', Resource = ''deployments''\<rparr> ''default'',
         DeleteResourceCall [''cm-a''] ''default'' ''configmaps'' True,
         DiscoveryCall,
         ListCall \<lparr>Group = [], Version = ''v1'', Resource = ''configmaps''\<rparr> ''kube-system'',
         HasExcludedLabelCall Map.empty [], HasIncludedAgeCall 12,
         ListCall \<lparr>Group = [], Version = ''v1'', Resource = ''secrets''\<rparr> ''kube-system'',
         PrintErrorListing ''v1'' ''forbidden'',
         ListCall \<lparr>Group = ''apps'', Version = ''v1'', Resource = ''deployments''\<rparr> ''kube-system'',
         DeleteResourceCall [''cm-c''] ''kube-system'' ''configmaps'' True]\<rparr>, None)"
proof -
  have ev: "collect ex_env no_lists ex_filterOpts delete_opts =
     (\<lparr>outputBuffer = ''default: cm-a'' @ [CHR 0x0A] @ ''kube-system: cm-c'' @ [CHR 0x0A],
       response = [(''default'', [(''configmaps'', [''cm-a''])]), (''kube-system'', [(''configmaps'', [''cm-c''])])],
       log = [DiscoveryCall,
         ListCall \<lparr>Group = [], Version = ''v1'', Resource = ''configmaps''\<rparr> NamespaceAll,
         HasExcludedLabelCall Map.empty [], HasIncludedAgeCall 10,
         HasExcludedLabelCall Map.empty [], HasIncludedAgeCall 12,
         HasExcludedLabelCall Map.empty [], HasIncludedAgeCall 13,
         ListCall \<lparr>Group = [], Version = ''v1'', Resource = ''secrets''\<rparr> NamespaceAll,
         PrintErrorListing ''v1'' ''forbidden'',
         ListCall \<lparr>Group = ''apps'', Version = ''v1'', Resource = ''deployments''\<rparr> NamespaceAll,
         HasExcludedLabelCall Map.empty [], HasIncludedAgeCall 14,
         DeleteResourceWithFinalizerCall [''cm-a''] ''default'' ''configmaps'' True,
         DeleteResourceWithFinalizerCall [''cm-c''] ''kube-system'' ''configmaps'' True]\<rparr>, None) \<and>
   collect ex_env include_two ex_filterOpts delete_opts =
     (\<lparr>outputBuffer = ''default: cm-a'' @ [CHR 0x0A] @ ''kube-system: cm-c'' @ [CHR 0x0A],
       response = [(''default'', [(''configmaps'', [''cm-a''])]), (''kube-system'', [(''configmaps'', [''cm-c''])])],
       log = [DiscoveryCall,
         ListCall \<lparr>Group = [], Version = ''v1'', Resource = ''configmaps''\<rparr> ''default'',
         HasExcludedLabelCall Map.empty [], HasIncludedAgeCall 10,
         HasExcludedLabelCall Map.empty [], HasIncludedAgeCall 13,
         ListCall \<lparr>Group = [], Version = ''v1'', Resource = ''secrets''\<rparr> ''default'',
         PrintErrorListing ''v1'' ''forbidden'',
         ListCall \<lparr>Group = ''apps'', Version = ''v1'', Resource = ''deployments''\<rparr> ''default'',
         DeleteResourceCall [''cm-a''] ''default'' ''configmaps'' True,
         DiscoveryCall,
         ListCall \<lparr>Group = [], Version = ''v1'', Resource = ''configmaps''\<rparr> ''kube-system'',
         HasExcludedLabelCall Map.empty [], HasIncludedAgeCall 12,
         ListCall \<lparr>Group = [], Version = ''v1'', Resource = ''secrets''\<rparr> ''kube-system'',
         PrintErrorListing ''v1'' ''forbidden'',
         ListCall \<lparr>Group = ''apps'', Version = ''v1'', Resource = ''deployments''\<rparr> ''kube-system'',
         DeleteResourceCall [''cm-c''] ''kube-system'' ''configmaps'' True]\<rparr>, None)"
    by (simp add: include_two_def run_defs ex_defs)
  have h: "length (ExcludeListStr no_lists) = 0 \<and> length (IncludeListStr no_lists) = 0 \<and>
     DeleteFlag delete_opts \<and> length (IncludeListStr include_two) \<noteq> 0 \<and>
     SetNamespaceList ex_env include_two = [''default'', ''kube-system'']"
    by (simp add: include_two_def ex_defs)
  from ev have none: "snd (collect ex_env no_lists ex_filterOpts delete_opts) = None"
    "snd (collect ex_env include_two ex_filterOpts delete_opts) = None"
    by simp_all
  have hg: "length (ExcludeListStr no_lists) = 0 \<and> length (IncludeListStr no_lists) = 0 \<and>
      collect ex_env no_lists ex_filterOpts delete_opts =
        (fst (collect ex_env no_lists ex_filterOpts delete_opts),
         snd (collect ex_env no_lists ex_filterOpts delete_opts))"
    using h by simp
  have hs: "(length (ExcludeListStr include_two) = 0 \<longrightarrow> length (IncludeListStr include_two) \<noteq> 0) \<and>
      collect ex_env include_two ex_filterOpts delete_opts =
        (fst (collect ex_env include_two ex_filterOpts delete_opts),
         snd (collect ex_env include_two ex_filterOpts delete_opts))"
    using h by simp
  have df: "DeleteFlag delete_opts" using h by simp
  note T = mode_selection [where l = no_lists and e = ex_env and fo = ex_filterOpts and opts = delete_opts
      and st = "fst (collect ex_env no_lists ex_filterOpts delete_opts)"
      and x = "snd (collect ex_env no_lists ex_filterOpts delete_opts)"
      and l' = include_two
      and st' = "fst (collect ex_env include_two ex_filterOpts delete_opts)"
      and x' = "snd (collect ex_env include_two ex_filterOpts delete_opts)"]
  note G = T [THEN conjunct1, THEN mp, OF hg, THEN conjunct2, THEN conjunct2, THEN mp, OF none(1),
      THEN conjunct2, THEN mp, OF df]
  note S = T [THEN conjunct2, THEN mp, OF hs, THEN conjunct2, THEN conjunct2, THEN conjunct2, THEN mp, OF none(2),
      THEN conjunct2, THEN mp, OF df]
  from h G S ev show ?thesis by blast
qed

section \<open>A failing list call, over the whole scan\<close>

lemma names_at_append_name:
  "names_at (append_name m r n) t = (if t = r then names_at m r @ [n] else names_at m t)"
  by (simp add: names_at_def map_of_append_name)

lemma entries_of_append_name: "entries_of (append_name m r n) = insert (r, n) (entries_of m)"
  by (auto simp: entries_of_def names_at_append_name split: if_splits)

lemma entries_global_append_name_in:
  "entries_global (append_name_in p ns r n) = insert (ns, r, n) (entries_global p)"
  by (auto simp: entries_global_def inner_at_append_name_in entries_of_append_name split: if_splits)

lemma fold_item_global_entries:
  "entries_global (pending (fold (item_body_global e fo r) items s)) =
   entries_global (pending s) \<union> {(GetNamespace x, r, GetName x) | x. x \<in> set items \<and> kept e fo x}"
proof (induction items arbitrary: s)
  case Nil
  show ?case by simp
next
  case (Cons y items)
  have "entries_global (pending (item_body_global e fo r y s)) =
        entries_global (pending s) \<union> (if kept e fo y then {(GetNamespace y, r, GetName y)} else {})"
    by (simp add: item_body_global_eq entries_global_append_name_in)
  with Cons.IH [of "item_body_global e fo r y s"] show ?case by auto
qed

lemma fold_item_namespaced_entries:
  "entries_of (pending (fold (item_body_namespaced e fo r) items s)) =
   entries_of (pending s) \<union> {(r, GetName x) | x. x \<in> set items \<and> kept e fo x}"
proof (induction items arbitrary: s)
  case Nil
  show ?case by simp
next
  case (Cons y items)
  have "entries_of (pending (item_body_namespaced e fo r y s)) =
        entries_of (pending s) \<union> (if kept e fo y then {(r, GetName y)} else {})"
    by (simp add: item_body_namespaced_eq entries_of_append_name)
  with Cons.IH [of "item_body_namespaced e fo r y s"] show ?case by auto
qed

lemma resource_body_global_entries:
  "entries_global (pending (resource_body_global e fo g gv r s)) =
   entries_global (pending s) \<union> type_hits_global e fo gv r"
proof (cases "Namespaced r \<and> ''list'' \<in> set (Verbs r)")
  case False
  then show ?thesis by (auto simp: resource_body_global_def type_hits_global_def)
next
  case True
  show ?thesis
  proof (cases "ListItems e (WithResource gv (Name r)) NamespaceAll")
    case (Inl er)
    with True show ?thesis
      by (simp add: resource_body_global_def type_hits_global_def emit_def)
  next
    case (Inr items)
    with True show ?thesis
      by (simp add: resource_body_global_def type_hits_global_def fold_item_global_entries emit_def)
  qed
qed

lemma resource_body_namespaced_entries:
  "entries_of (pending (resource_body_namespaced e fo ns g gv r s)) =
   entries_of (pending s) \<union> type_hits_namespaced e fo ns gv r"
proof (cases "Namespaced r \<and> ''list'' \<in> set (Verbs r)")
  case False
  then show ?thesis by (auto simp: resource_body_namespaced_def type_hits_namespaced_def)
next
  case True
  show ?thesis
  proof (cases "ListItems e (WithResource gv (Name r)) ns")
    case (Inl er)
    with True show ?thesis
      by (simp add: resource_body_namespaced_def type_hits_namespaced_def emit_def)
  next
    case (Inr items)
    with True show ?thesis
      by (simp add: resource_body_namespaced_def type_hits_namespaced_def fold_item_namespaced_entries emit_def)
  qed
qed

lemma fold_resource_global_entries:
  "entries_global (pending (fold (resource_body_global e fo g gv) rs s)) =
   entries_global (pending s) \<union> (\<Union>r \<in> set rs. type_hits_global e fo gv r)"
  by (induction rs arbitrary: s) (auto simp: resource_body_global_entries)

lemma fold_resource_namespaced_entries:
  "entries_of (pending (fold (resource_body_namespaced e fo ns g gv) rs s)) =
   entries_of (pending s) \<union> (\<Union>r \<in> set rs. type_hits_namespaced e fo ns gv r)"
  by (induction rs arbitrary: s) (auto simp: resource_body_namespaced_entries)

lemma groups_loop_global_entries:
  "\<forall>g \<in> set gs. \<exists>gv. ParseGroupVersion e (GroupVersion g) = Inr gv \<Longrightarrow>
   entries_global (pending (fst (groups_loop_global e fo gs s))) =
   entries_global (pending s) \<union> hits_global e fo gs"
proof (induction gs arbitrary: s)
  case Nil
  show ?case by (simp add: hits_global_def)
next
  case (Cons g gs)
  then obtain gv where gv: "ParseGroupVersion e (GroupVersion g) = Inr gv" by auto
  have "hits_global e fo (g # gs) = (\<Union>r \<in> set (APIResources g). type_hits_global e fo gv r) \<union> hits_global e fo gs"
    using gv by (auto simp: hits_global_def)
  with Cons.IH [of "fold (resource_body_global e fo (GroupVersion g) gv) (APIResources g) s"] Cons.prems gv
  show ?case by (auto simp: fold_resource_global_entries)
qed

lemma groups_loop_namespaced_entries:
  "\<forall>g \<in> set gs. \<exists>gv. ParseGroupVersion e (GroupVersion g) = Inr gv \<Longrightarrow>
   entries_of (pending (fst (groups_loop_namespaced e fo ns gs s))) =
   entries_of (pending s) \<union> hits_namespaced e fo ns gs"
proof (induction gs arbitrary: s)
  case Nil
  show ?case by (simp add: hits_namespaced_def)
next
  case (Cons g gs)
  then obtain gv where gv: "ParseGroupVersion e (GroupVersion g) = Inr gv" by auto
  have "hits_namespaced e fo ns (g # gs) =
          (\<Union>r \<in> set (APIResources g). type_hits_namespaced e fo ns gv r) \<union> hits_namespaced e fo ns gs"
    using gv by (auto simp: hits_namespaced_def)
  with Cons.IH [of "fold (resource_body_namespaced e fo ns (GroupVersion g) gv) (APIResources g) s"] Cons.prems gv
  show ?case by (auto simp: fold_resource_namespaced_entries)
qed

lemma hits_global_explicit:
  "hits_global e fo gs =
     {(GetNamespace x, Name r, GetName x) | g gv r items x.
        g \<in> set gs \<and> ParseGroupVersion e (GroupVersion g) = Inr gv \<and> r \<in> set (APIResources g) \<and>
        Namespaced r \<and> ''list'' \<in> set (Verbs r) \<and>
        ListItems e (WithResource gv (Name r)) NamespaceAll = Inr items \<and> x \<in> set items \<and> kept e fo x}"
  unfolding hits_global_def type_hits_global_def
  apply (rule set_eqI)
  apply (simp only: mem_Collect_eq)
  apply (rule iffI)
   apply (elim exE conjE)
   apply (intro exI conjI; assumption)
  apply (elim exE conjE)
  apply (intro exI conjI; (assumption | rule refl)?)
  done


lemma hits_namespaced_explicit:
  "{ns} \<times> hits_namespaced e fo ns gs =
     {(ns, Name r, GetName x) | g gv r items x.
        g \<in> set gs \<and> ParseGroupVersion e (GroupVersion g) = Inr gv \<and> r \<in> set (APIResources g) \<and>
        Namespaced r \<and> ''list'' \<in> set (Verbs r) \<and>
        ListItems e (WithResource gv (Name r)) ns = Inr items \<and> x \<in> set items \<and> kept e fo x}"
proof (rule set_eqI)
  fix h :: "string \<times> string \<times> string"
  obtain a t n where h: "h = (a, t, n)" by (cases h)
  have "(t, n) \<in> hits_namespaced e fo ns gs \<longleftrightarrow>
        (\<exists>g gv r items x. t = Name r \<and> n = GetName x \<and>
           g \<in> set gs \<and> ParseGroupVersion e (GroupVersion g) = Inr gv \<and> r \<in> set (APIResources g) \<and>
           Namespaced r \<and> ''list'' \<in> set (Verbs r) \<and>
           ListItems e (WithResource gv (Name r)) ns = Inr items \<and> x \<in> set items \<and> kept e fo x)"
    unfolding hits_namespaced_def type_hits_namespaced_def
    apply (simp only: mem_Collect_eq prod.inject)
    apply (rule iffI)
     apply (elim exE conjE)
     apply (intro exI conjI; assumption)
    apply (elim exE conjE)
    apply (intro exI conjI; (assumption | rule refl)?)
    done
  then show "h \<in> {ns} \<times> hits_namespaced e fo ns gs \<longleftrightarrow>
     h \<in> {(ns, Name r, GetName x) | g gv r items x.
        g \<in> set gs \<and> ParseGroupVersion e (GroupVersion g) = Inr gv \<and> r \<in> set (APIResources g) \<and>
        Namespaced r \<and> ''list'' \<in> set (Verbs r) \<and>
        ListItems e (WithResource gv (Name r)) ns = Inr items \<and> x \<in> set items \<and> kept e fo x}"
    unfolding h by (simp only: mem_Sigma_iff singleton_iff mem_Collect_eq prod.inject) blast
qed

lemma global_scan_entries:
  assumes "ServerPreferredResources e = Inr gs"
    "\<forall>g \<in> set gs. \<exists>gv. ParseGroupVersion e (GroupVersion g) = Inr gv"
  shows "global_entries (getResourcesWithFinalizersPendingDeletion e nss fo) =
     {(GetNamespace x, Name r, GetName x) | g gv r items x.
        g \<in> set gs \<and> ParseGroupVersion e (GroupVersion g) = Inr gv \<and> r \<in> set (APIResources g) \<and>
        Namespaced r \<and> ''list'' \<in> set (Verbs r) \<and>
        ListItems e (WithResource gv (Name r)) NamespaceAll = Inr items \<and> x \<in> set items \<and> kept e fo x}"
proof -
  let ?s0 = "\<lparr>pending = [], trace = [DiscoveryCall]\<rparr> :: names_by_namespace scan_state"
  obtain s' er where loop: "groups_loop_global e fo gs ?s0 = (s', er)"
    by (cases "groups_loop_global e fo gs ?s0")
  have "entries_global [] = {}"
    by (simp add: entries_global_def entries_of_def inner_at_def names_at_def)
  with groups_loop_global_entries [OF assms(2), of fo ?s0] loop
  have "entries_global (pending s') = hits_global e fo gs" by simp
  moreover have "global_entries (getResourcesWithFinalizersPendingDeletion e nss fo) = entries_global (pending s')"
    by (simp add: global_entries_def getResourcesWithFinalizersPendingDeletion_def assms(1) loop)
  ultimately show ?thesis by (simp only: hits_global_explicit)
qed

lemma namespaced_scan_entries:
  assumes "ServerPreferredResources e = Inr gs"
    "\<forall>g \<in> set gs. \<exists>gv. ParseGroupVersion e (GroupVersion g) = Inr gv"
  shows "scoped_entries ns (getNamespacedResourcesWithFinalizersPendingDeletion e ns fo) =
     {(ns, Name r, GetName x) | g gv r items x.
        g \<in> set gs \<and> ParseGroupVersion e (GroupVersion g) = Inr gv \<and> r \<in> set (APIResources g) \<and>
        Namespaced r \<and> ''list'' \<in> set (Verbs r) \<and>
        ListItems e (WithResource gv (Name r)) ns = Inr items \<and> x \<in> set items \<and> kept e fo x}"
proof -
  let ?s0 = "\<lparr>pending = [], trace = [DiscoveryCall]\<rparr> :: names_by_type scan_state"
  obtain s' er where loop: "groups_loop_namespaced e fo ns gs ?s0 = (s', er)"
    by (cases "groups_loop_namespaced e fo ns gs ?s0")
  have "entries_of [] = {}"
    by (simp add: entries_of_def names_at_def)
  with groups_loop_namespaced_entries [OF assms(2), of fo ns ?s0] loop
  have "entries_of (pending s') = hits_namespaced e fo ns gs" by simp
  moreover have "scoped_entries ns (getNamespacedResourcesWithFinalizersPendingDeletion e ns fo) =
      {ns} \<times> entries_of (pending s')"
    by (simp add: scoped_entries_def getNamespacedResourcesWithFinalizersPendingDeletion_def assms(1) loop)
  ultimately show ?thesis by (simp only: hits_namespaced_explicit)
qed

lemma emits_trace_mono: "emits Q f \<Longrightarrow> set (trace s) \<subseteq> set (trace (f s))"
  unfolding emits_def by auto

lemma fold_trace_mem:
  assumes "\<And>y. emits Q (f y)" "x \<in> set xs" "\<And>s. ev \<in> set (trace (f x s))"
  shows "ev \<in> set (trace (fold f xs s))"
  using assms(2)
proof (induction xs arbitrary: s)
  case Nil
  then show ?case by simp
next
  case (Cons y ys)
  show ?case
  proof (cases "x = y")
    case True
    have "emits Q (fold f ys)" by (rule emits_fold) (rule assms(1))
    from emits_trace_mono [OF this, of "f y s"] assms(3) [of s] True show ?thesis by auto
  next
    case False
    with Cons.prems have "x \<in> set ys" by simp
    from Cons.IH [OF this] show ?thesis by simp
  qed
qed

lemma resource_body_global_list_call:
  assumes "Namespaced r" "''list'' \<in> set (Verbs r)"
  shows "ListCall (WithResource gv (Name r)) NamespaceAll \<in> set (trace (resource_body_global e fo g gv r s))"
proof (cases "ListItems e (WithResource gv (Name r)) NamespaceAll")
  case (Inl er)
  with assms show ?thesis by (simp add: resource_body_global_def emit_def)
next
  case (Inr items)
  have "emits (scan_event NamespaceAll) (fold (item_body_global e fo (Name r)) items)"
    by (simp add: emits_fold emits_item_global)
  from emits_trace_mono [OF this, of "emit (ListCall (WithResource gv (Name r)) NamespaceAll) s"]
  show ?thesis using assms Inr by (auto simp: resource_body_global_def emit_def)
qed

lemma resource_body_namespaced_list_call:
  assumes "Namespaced r" "''list'' \<in> set (Verbs r)"
  shows "ListCall (WithResource gv (Name r)) ns \<in> set (trace (resource_body_namespaced e fo ns g gv r s))"
proof (cases "ListItems e (WithResource gv (Name r)) ns")
  case (Inl er)
  with assms show ?thesis by (simp add: resource_body_namespaced_def emit_def)
next
  case (Inr items)
  have "emits (scan_event ns) (fold (item_body_namespaced e fo (Name r)) items)"
    by (simp add: emits_fold emits_item_namespaced)
  from emits_trace_mono [OF this, of "emit (ListCall (WithResource gv (Name r)) ns) s"]
  show ?thesis using assms Inr by (auto simp: resource_body_namespaced_def emit_def)
qed

lemma groups_loop_global_trace_mono:
  "set (trace s) \<subseteq> set (trace (fst (groups_loop_global e fo gs s)))"
  using groups_loop_global_shape [of e fo gs] by auto

lemma groups_loop_namespaced_trace_mono:
  "set (trace s) \<subseteq> set (trace (fst (groups_loop_namespaced e fo ns gs s)))"
  using groups_loop_namespaced_shape [of ns e fo gs] by auto

lemma groups_loop_global_trace_mem:
  assumes "\<forall>g \<in> set gs. \<exists>gv. ParseGroupVersion e (GroupVersion g) = Inr gv"
    "g \<in> set gs" "ParseGroupVersion e (GroupVersion g) = Inr gv" "r \<in> set (APIResources g)"
    "\<And>s. ev \<in> set (trace (resource_body_global e fo (GroupVersion g) gv r s))"
  shows "ev \<in> set (trace (fst (groups_loop_global e fo gs s)))"
  using assms(1,2)
proof (induction gs arbitrary: s)
  case Nil
  then show ?case by simp
next
  case (Cons g' gs)
  then obtain gv' where gv': "ParseGroupVersion e (GroupVersion g') = Inr gv'" by auto
  let ?s1 = "fold (resource_body_global e fo (GroupVersion g') gv') (APIResources g') s"
  show ?case
  proof (cases "g = g'")
    case True
    with gv' assms(3) have eq: "gv' = gv" by simp
    have "ev \<in> set (trace (fold (resource_body_global e fo (GroupVersion g) gv) (APIResources g) s))"
      by (rule fold_trace_mem [where Q = "scan_event NamespaceAll"
            and f = "resource_body_global e fo (GroupVersion g) gv", OF emits_resource_global assms(4) assms(5)])
    with True eq groups_loop_global_trace_mono [of ?s1 e fo gs] gv' show ?thesis by auto
  next
    case False
    with Cons.prems have "g \<in> set gs" "\<forall>g \<in> set gs. \<exists>gv. ParseGroupVersion e (GroupVersion g) = Inr gv"
      by simp_all
    from Cons.IH [OF this(2,1), of ?s1] gv' show ?thesis by simp
  qed
qed

lemma groups_loop_namespaced_trace_mem:
  assumes "\<forall>g \<in> set gs. \<exists>gv. ParseGroupVersion e (GroupVersion g) = Inr gv"
    "g \<in> set gs" "ParseGroupVersion e (GroupVersion g) = Inr gv" "r \<in> set (APIResources g)"
    "\<And>s. ev \<in> set (trace (resource_body_namespaced e fo ns (GroupVersion g) gv r s))"
  shows "ev \<in> set (trace (fst (groups_loop_namespaced e fo ns gs s)))"
  using assms(1,2)
proof (induction gs arbitrary: s)
  case Nil
  then show ?case by simp
next
  case (Cons g' gs)
  then obtain gv' where gv': "ParseGroupVersion e (GroupVersion g') = Inr gv'" by auto
  let ?s1 = "fold (resource_body_namespaced e fo ns (GroupVersion g') gv') (APIResources g') s"
  show ?case
  proof (cases "g = g'")
    case True
    with gv' assms(3) have eq: "gv' = gv" by simp
    have "ev \<in> set (trace (fold (resource_body_namespaced e fo ns (GroupVersion g) gv) (APIResources g) s))"
      by (rule fold_trace_mem [where Q = "scan_event ns"
            and f = "resource_body_namespaced e fo ns (GroupVersion g) gv", OF emits_resource_namespaced assms(4) assms(5)])
    with True eq groups_loop_namespaced_trace_mono [of ?s1 e fo ns gs] gv' show ?thesis by auto
  next
    case False
    with Cons.prems have "g \<in> set gs" "\<forall>g \<in> set gs. \<exists>gv. ParseGroupVersion e (GroupVersion g) = Inr gv"
      by simp_all
    from Cons.IH [OF this(2,1), of ?s1] gv' show ?thesis by simp
  qed
qed

lemma global_scan_lists_every_type:
  assumes "ServerPreferredResources e = Inr gs"
    "\<forall>g \<in> set gs. \<exists>gv. ParseGroupVersion e (GroupVersion g) = Inr gv"
    "g \<in> set gs" "ParseGroupVersion e (GroupVersion g) = Inr gv" "r \<in> set (APIResources g)"
    "Namespaced r" "''list'' \<in> set (Verbs r)"
  shows "ListCall (WithResource gv (Name r)) NamespaceAll
           \<in> set (fst (getResourcesWithFinalizersPendingDeletion e nss fo))"
    and "ListItems e (WithResource gv (Name r)) NamespaceAll = Inl er \<Longrightarrow>
         PrintErrorListing (GroupVersion g) er \<in> set (fst (getResourcesWithFinalizersPendingDeletion e nss fo))"
proof -
  let ?s0 = "\<lparr>pending = [], trace = [DiscoveryCall]\<rparr> :: names_by_namespace scan_state"
  have tr: "fst (getResourcesWithFinalizersPendingDeletion e nss fo) = trace (fst (groups_loop_global e fo gs ?s0))"
    by (simp add: getResourcesWithFinalizersPendingDeletion_def assms(1) split: prod.splits)
  show "ListCall (WithResource gv (Name r)) NamespaceAll
           \<in> set (fst (getResourcesWithFinalizersPendingDeletion e nss fo))"
    unfolding tr
    by (rule groups_loop_global_trace_mem [OF assms(2,3,4,5)])
       (rule resource_body_global_list_call [OF assms(6,7)])
  assume "ListItems e (WithResource gv (Name r)) NamespaceAll = Inl er"
  then have "\<And>s. PrintErrorListing (GroupVersion g) er
        \<in> set (trace (resource_body_global e fo (GroupVersion g) gv r s))"
    by (simp add: resource_body_global_list_error [OF assms(6,7)])
  then show "PrintErrorListing (GroupVersion g) er \<in> set (fst (getResourcesWithFinalizersPendingDeletion e nss fo))"
    unfolding tr by (rule groups_loop_global_trace_mem [OF assms(2,3,4,5)])
qed

lemma namespaced_scan_lists_every_type:
  assumes "ServerPreferredResources e = Inr gs"
    "\<forall>g \<in> set gs. \<exists>gv. ParseGroupVersion e (GroupVersion g) = Inr gv"
    "g \<in> set gs" "ParseGroupVersion e (GroupVersion g) = Inr gv" "r \<in> set (APIResources g)"
    "Namespaced r" "''list'' \<in> set (Verbs r)"
  shows "ListCall (WithResource gv (Name r)) ns
           \<in> set (fst (getNamespacedResourcesWithFinalizersPendingDeletion e ns fo))"
    and "ListItems e (WithResource gv (Name r)) ns = Inl er \<Longrightarrow>
         PrintErrorListing (GroupVersion g) er
           \<in> set (fst (getNamespacedResourcesWithFinalizersPendingDeletion e ns fo))"
proof -
  let ?s0 = "\<lparr>pending = [], trace = [DiscoveryCall]\<rparr> :: names_by_type scan_state"
  have tr: "fst (getNamespacedResourcesWithFinalizersPendingDeletion e ns fo) =
            trace (fst (groups_loop_namespaced e fo ns gs ?s0))"
    by (simp add: getNamespacedResourcesWithFinalizersPendingDeletion_def assms(1) split: prod.splits)
  show "ListCall (WithResource gv (Name r)) ns
           \<in> set (fst (getNamespacedResourcesWithFinalizersPendingDeletion e ns fo))"
    unfolding tr
    by (rule groups_loop_namespaced_trace_mem [OF assms(2,3,4,5)])
       (rule resource_body_namespaced_list_call [OF assms(6,7)])
  assume "ListItems e (WithResource gv (Name r)) ns = Inl er"
  then have "\<And>s. PrintErrorListing (GroupVersion g) er
        \<in> set (trace (resource_body_namespaced e fo ns (GroupVersion g) gv r s))"
    by (simp add: resource_body_namespaced_list_error [OF assms(6,7)])
  then show "PrintErrorListing (GroupVersion g) er
           \<in> set (fst (getNamespacedResourcesWithFinalizersPendingDeletion e ns fo))"
    unfolding tr by (rule groups_loop_namespaced_trace_mem [OF assms(2,3,4,5)])
qed

lemma fold_item_global_exact:
  "fold (item_body_global e fo r) items s =
     \<lparr>pending = fold file_global (map (\<lambda>x. (r, x)) (filter (kept e fo) items)) (pending s),
      trace = trace s @ concat (map (filter_calls e fo) items)\<rparr>"
  by (induction items arbitrary: s) (simp_all add: item_body_global_eq file_global_def)

lemma fold_item_namespaced_exact:
  "fold (item_body_namespaced e fo r) items s =
     \<lparr>pending = fold file_namespaced (map (\<lambda>x. (r, x)) (filter (kept e fo) items)) (pending s),
      trace = trace s @ concat (map (filter_calls e fo) items)\<rparr>"
  by (induction items arbitrary: s) (simp_all add: item_body_namespaced_eq file_namespaced_def)

lemma resource_body_global_exact:
  "resource_body_global e fo g gv r s =
     \<lparr>pending = fold file_global (type_hit_list e fo NamespaceAll gv r) (pending s),
      trace = trace s @ type_events e fo NamespaceAll g gv r\<rparr>"
proof (cases "Namespaced r \<and> ''list'' \<in> set (Verbs r)")
  case False
  then show ?thesis by (auto simp: resource_body_global_def type_hit_list_def type_events_def)
next
  case True
  then show ?thesis
    by (cases "ListItems e (WithResource gv (Name r)) NamespaceAll")
       (simp_all add: resource_body_global_def type_hit_list_def type_events_def emit_def
          fold_item_global_exact)
qed

lemma resource_body_namespaced_exact:
  "resource_body_namespaced e fo ns g gv r s =
     \<lparr>pending = fold file_namespaced (type_hit_list e fo ns gv r) (pending s),
      trace = trace s @ type_events e fo ns g gv r\<rparr>"
proof (cases "Namespaced r \<and> ''list'' \<in> set (Verbs r)")
  case False
  then show ?thesis by (auto simp: resource_body_namespaced_def type_hit_list_def type_events_def)
next
  case True
  then show ?thesis
    by (cases "ListItems e (WithResource gv (Name r)) ns")
       (simp_all add: resource_body_namespaced_def type_hit_list_def type_events_def emit_def
          fold_item_namespaced_exact)
qed

lemma fold_resource_global_exact:
  "fold (resource_body_global e fo g gv) rs s =
     \<lparr>pending = fold file_global (concat (map (type_hit_list e fo NamespaceAll gv) rs)) (pending s),
      trace = trace s @ concat (map (type_events e fo NamespaceAll g gv) rs)\<rparr>"
  by (induction rs arbitrary: s) (simp_all add: resource_body_global_exact)

lemma fold_resource_namespaced_exact:
  "fold (resource_body_namespaced e fo ns g gv) rs s =
     \<lparr>pending = fold file_namespaced (concat (map (type_hit_list e fo ns gv) rs)) (pending s),
      trace = trace s @ concat (map (type_events e fo ns g gv) rs)\<rparr>"
  by (induction rs arbitrary: s) (simp_all add: resource_body_namespaced_exact)

lemma groups_loop_global_exact:
  "\<forall>g \<in> set gs. \<exists>gv. ParseGroupVersion e (GroupVersion g) = Inr gv \<Longrightarrow>
   groups_loop_global e fo gs s =
     (\<lparr>pending = fold file_global (catalog_hit_list e fo NamespaceAll gs) (pending s),
       trace = trace s @ catalog_events e fo NamespaceAll gs\<rparr>, None)"
proof (induction gs arbitrary: s)
  case Nil
  show ?case by (simp add: catalog_hit_list_def catalog_events_def)
next
  case (Cons g gs)
  then obtain gv where gv: "ParseGroupVersion e (GroupVersion g) = Inr gv" by auto
  have h: "catalog_hit_list e fo NamespaceAll (g # gs) =
           concat (map (type_hit_list e fo NamespaceAll gv) (APIResources g)) @ catalog_hit_list e fo NamespaceAll gs"
    by (simp add: catalog_hit_list_def gv)
  have t: "catalog_events e fo NamespaceAll (g # gs) =
           concat (map (type_events e fo NamespaceAll (GroupVersion g) gv) (APIResources g)) @
           catalog_events e fo NamespaceAll gs"
    by (simp add: catalog_events_def gv)
  from Cons.prems have "\<forall>g \<in> set gs. \<exists>gv. ParseGroupVersion e (GroupVersion g) = Inr gv" by simp
  from Cons.IH [OF this] show ?case
    by (simp add: gv h t fold_resource_global_exact)
qed

lemma groups_loop_namespaced_exact:
  "\<forall>g \<in> set gs. \<exists>gv. ParseGroupVersion e (GroupVersion g) = Inr gv \<Longrightarrow>
   groups_loop_namespaced e fo ns gs s =
     (\<lparr>pending = fold file_namespaced (catalog_hit_list e fo ns gs) (pending s),
       trace = trace s @ catalog_events e fo ns gs\<rparr>, None)"
proof (induction gs arbitrary: s)
  case Nil
  show ?case by (simp add: catalog_hit_list_def catalog_events_def)
next
  case (Cons g gs)
  then obtain gv where gv: "ParseGroupVersion e (GroupVersion g) = Inr gv" by auto
  have h: "catalog_hit_list e fo ns (g # gs) =
           concat (map (type_hit_list e fo ns gv) (APIResources g)) @ catalog_hit_list e fo ns gs"
    by (simp add: catalog_hit_list_def gv)
  have t: "catalog_events e fo ns (g # gs) =
           concat (map (type_events e fo ns (GroupVersion g) gv) (APIResources g)) @
           catalog_events e fo ns gs"
    by (simp add: catalog_events_def gv)
  from Cons.prems have "\<forall>g \<in> set gs. \<exists>gv. ParseGroupVersion e (GroupVersion g) = Inr gv" by simp
  from Cons.IH [OF this] show ?case
    by (simp add: gv h t fold_resource_namespaced_exact)
qed

lemma global_scan_exact:
  assumes "ServerPreferredResources e = Inr gs"
    "\<forall>g \<in> set gs. \<exists>gv. ParseGroupVersion e (GroupVersion g) = Inr gv"
  shows "getResourcesWithFinalizersPendingDeletion e nss fo =
     (DiscoveryCall # catalog_events e fo NamespaceAll gs,
      Return (fold file_global (catalog_hit_list e fo NamespaceAll gs) [], None))"
  by (simp add: getResourcesWithFinalizersPendingDeletion_def assms(1) groups_loop_global_exact [OF assms(2)])

lemma namespaced_scan_exact:
  assumes "ServerPreferredResources e = Inr gs"
    "\<forall>g \<in> set gs. \<exists>gv. ParseGroupVersion e (GroupVersion g) = Inr gv"
  shows "getNamespacedResourcesWithFinalizersPendingDeletion e ns fo =
     (DiscoveryCall # catalog_events e fo ns gs,
      Return (fold file_namespaced (catalog_hit_list e fo ns gs) [], None))"
  by (simp add: getNamespacedResourcesWithFinalizersPendingDeletion_def assms(1)
        groups_loop_namespaced_exact [OF assms(2)])

lemma failing_type_contributes_nothing:
  "Namespaced r \<Longrightarrow> ''list'' \<in> set (Verbs r) \<Longrightarrow> ListItems e (WithResource gv (Name r)) scope = Inl er \<Longrightarrow>
   type_hit_list e fo scope gv r = [] \<and>
   type_events e fo scope g gv r = [ListCall (WithResource gv (Name r)) scope, PrintErrorListing g er]"
  by (simp add: type_hit_list_def type_events_def)

lemma global_scan_after_failures:
  assumes "ServerPreferredResources e = Inr gs"
    "\<forall>g' \<in> set gs. \<exists>gv'. ParseGroupVersion e (GroupVersion g') = Inr gv'"
  shows "verdict (getResourcesWithFinalizersPendingDeletion e nss fo) = Return None \<and>
      getResourcesWithFinalizersPendingDeletion e nss fo =
        (DiscoveryCall # catalog_events e fo NamespaceAll gs,
         Return (fold file_global (catalog_hit_list e fo NamespaceAll gs) [], None)) \<and>
      global_entries (getResourcesWithFinalizersPendingDeletion e nss fo) =
        {(GetNamespace x, Name r', GetName x) | g' gv' r' items x.
           g' \<in> set gs \<and> ParseGroupVersion e (GroupVersion g') = Inr gv' \<and> r' \<in> set (APIResources g') \<and>
           Namespaced r' \<and> ''list'' \<in> set (Verbs r') \<and>
           ListItems e (WithResource gv' (Name r')) NamespaceAll = Inr items \<and> x \<in> set items \<and> kept e fo x} \<and>
      (\<forall>g' \<in> set gs. \<forall>r' \<in> set (APIResources g'). \<forall>gv'.
          ParseGroupVersion e (GroupVersion g') = Inr gv' \<and> Namespaced r' \<and> ''list'' \<in> set (Verbs r') \<longrightarrow>
            ListCall (WithResource gv' (Name r')) NamespaceAll
              \<in> set (fst (getResourcesWithFinalizersPendingDeletion e nss fo)) \<and>
            (\<forall>er''. ListItems e (WithResource gv' (Name r')) NamespaceAll = Inl er'' \<longrightarrow>
               PrintErrorListing (GroupVersion g') er''
                 \<in> set (fst (getResourcesWithFinalizersPendingDeletion e nss fo))))"
  using verdict_global_no_error [OF assms] global_scan_exact [OF assms] global_scan_entries [OF assms]
    global_scan_lists_every_type [OF assms]
  by (intro conjI ballI allI impI; (elim conjE)?) (assumption | blast)+

lemma namespaced_scan_after_failures:
  assumes "ServerPreferredResources e = Inr gs"
    "\<forall>g' \<in> set gs. \<exists>gv'. ParseGroupVersion e (GroupVersion g') = Inr gv'"
  shows "verdict (getNamespacedResourcesWithFinalizersPendingDeletion e ns fo) = Return None \<and>
      getNamespacedResourcesWithFinalizersPendingDeletion e ns fo =
        (DiscoveryCall # catalog_events e fo ns gs,
         Return (fold file_namespaced (catalog_hit_list e fo ns gs) [], None)) \<and>
      scoped_entries ns (getNamespacedResourcesWithFinalizersPendingDeletion e ns fo) =
        {(ns, Name r', GetName x) | g' gv' r' items x.
           g' \<in> set gs \<and> ParseGroupVersion e (GroupVersion g') = Inr gv' \<and> r' \<in> set (APIResources g') \<and>
           Namespaced r' \<and> ''list'' \<in> set (Verbs r') \<and>
           ListItems e (WithResource gv' (Name r')) ns = Inr items \<and> x \<in> set items \<and> kept e fo x} \<and>
      (\<forall>g' \<in> set gs. \<forall>r' \<in> set (APIResources g'). \<forall>gv'.
          ParseGroupVersion e (GroupVersion g') = Inr gv' \<and> Namespaced r' \<and> ''list'' \<in> set (Verbs r') \<longrightarrow>
            ListCall (WithResource gv' (Name r')) ns
              \<in> set (fst (getNamespacedResourcesWithFinalizersPendingDeletion e ns fo)) \<and>
            (\<forall>er''. ListItems e (WithResource gv' (Name r')) ns = Inl er'' \<longrightarrow>
               PrintErrorListing (GroupVersion g') er''
                 \<in> set (fst (getNamespacedResourcesWithFinalizersPendingDeletion e ns fo))))"
  using verdict_namespaced_no_error [OF assms] namespaced_scan_exact [OF assms] namespaced_scan_entries [OF assms]
    namespaced_scan_lists_every_type [OF assms]
  by (intro conjI ballI allI impI; (elim conjE)?) (assumption | blast)+

text \<open>The same equations for any catalog: the groups up to the first one that does not parse.\<close>

lemma groups_loop_global_exact_prefix:
  "groups_loop_global e fo gs s =
     (\<lparr>pending = fold file_global (catalog_hit_list e fo NamespaceAll (parsed_prefix e gs)) (pending s),
       trace = trace s @ catalog_events e fo NamespaceAll (parsed_prefix e gs)\<rparr>, parse_error e gs)"
proof (induction gs arbitrary: s)
  case Nil
  show ?case by (simp add: catalog_hit_list_def catalog_events_def parsed_prefix_def parse_error_def)
next
  case (Cons g gs)
  show ?case
  proof (cases "ParseGroupVersion e (GroupVersion g)")
    case (Inl er)
    then show ?thesis
      by (simp add: catalog_hit_list_def catalog_events_def parsed_prefix_def parse_error_def parses_def)
  next
    case (Inr gv)
    then have p: "parsed_prefix e (g # gs) = g # parsed_prefix e gs" "parse_error e (g # gs) = parse_error e gs"
      by (simp_all add: parsed_prefix_def parse_error_def parses_def)
    have h: "catalog_hit_list e fo NamespaceAll (g # parsed_prefix e gs) =
           concat (map (type_hit_list e fo NamespaceAll gv) (APIResources g)) @
           catalog_hit_list e fo NamespaceAll (parsed_prefix e gs)"
      by (simp add: catalog_hit_list_def Inr)
    have t: "catalog_events e fo NamespaceAll (g # parsed_prefix e gs) =
           concat (map (type_events e fo NamespaceAll (GroupVersion g) gv) (APIResources g)) @
           catalog_events e fo NamespaceAll (parsed_prefix e gs)"
      by (simp add: catalog_events_def Inr)
    show ?thesis
      by (simp add: Inr p h t Cons.IH fold_resource_global_exact)
  qed
qed

lemma groups_loop_namespaced_exact_prefix:
  "groups_loop_namespaced e fo ns gs s =
     (\<lparr>pending = fold file_namespaced (catalog_hit_list e fo ns (parsed_prefix e gs)) (pending s),
       trace = trace s @ catalog_events e fo ns (parsed_prefix e gs)\<rparr>, parse_error e gs)"
proof (induction gs arbitrary: s)
  case Nil
  show ?case by (simp add: catalog_hit_list_def catalog_events_def parsed_prefix_def parse_error_def)
next
  case (Cons g gs)
  show ?case
  proof (cases "ParseGroupVersion e (GroupVersion g)")
    case (Inl er)
    then show ?thesis
      by (simp add: catalog_hit_list_def catalog_events_def parsed_prefix_def parse_error_def parses_def)
  next
    case (Inr gv)
    then have p: "parsed_prefix e (g # gs) = g # parsed_prefix e gs" "parse_error e (g # gs) = parse_error e gs"
      by (simp_all add: parsed_prefix_def parse_error_def parses_def)
    have h: "catalog_hit_list e fo ns (g # parsed_prefix e gs) =
           concat (map (type_hit_list e fo ns gv) (APIResources g)) @
           catalog_hit_list e fo ns (parsed_prefix e gs)"
      by (simp add: catalog_hit_list_def Inr)
    have t: "catalog_events e fo ns (g # parsed_prefix e gs) =
           concat (map (type_events e fo ns (GroupVersion g) gv) (APIResources g)) @
           catalog_events e fo ns (parsed_prefix e gs)"
      by (simp add: catalog_events_def Inr)
    show ?thesis
      by (simp add: Inr p h t Cons.IH fold_resource_namespaced_exact)
  qed
qed

lemma scans_exact_prefix:
  assumes "ServerPreferredResources e = Inr gs"
  shows "getResourcesWithFinalizersPendingDeletion e nss fo =
     (DiscoveryCall # catalog_events e fo NamespaceAll (parsed_prefix e gs),
      Return (fold file_global (catalog_hit_list e fo NamespaceAll (parsed_prefix e gs)) [], parse_error e gs)) \<and>
    getNamespacedResourcesWithFinalizersPendingDeletion e ns fo =
     (DiscoveryCall # catalog_events e fo ns (parsed_prefix e gs),
      Return (fold file_namespaced (catalog_hit_list e fo ns (parsed_prefix e gs)) [], parse_error e gs))"
  by (simp add: getResourcesWithFinalizersPendingDeletion_def
        getNamespacedResourcesWithFinalizersPendingDeletion_def assms
        groups_loop_global_exact_prefix groups_loop_namespaced_exact_prefix)

text \<open>
  Claim C7. When the list call of one resource type fails, the step for that type prints the
  error and changes nothing else: the names gathered so far stay as they are, the type
  contributes no name, and its events are the list call and the printed error. The loop over
  the types of the group gives the names it gives without the failing type. Over the whole
  scan, when discovery succeeds and every group version parses: the scan returns a nil error;
  its trace is the discovery call followed, type by type over all groups, by the events of
  each type; its result files, in that order, the pending objects of every type whose list
  call succeeds; so the recorded entries are exactly the pending objects of the types whose
  list call succeeds, every namespaced and listable type of every group is listed, and every
  failure is printed. When some group version does not parse, the trace and the result are
  those of the groups before it, and the scan returns the parse error. This holds for the
  global scan and for the scan of one namespace.
\<close>

theorem list_failure_is_skipped:
  "(Namespaced r \<and> ''list'' \<in> set (Verbs r) \<and>
    ListItems e (WithResource gv (Name r)) NamespaceAll = Inl er \<longrightarrow>
      resource_body_global e fo g gv r s =
        s\<lparr>trace := trace s @ [ListCall (WithResource gv (Name r)) NamespaceAll, PrintErrorListing g er]\<rparr> \<and>
      pending (fold (resource_body_global e fo g gv) (rs1 @ r # rs2) s) =
        pending (fold (resource_body_global e fo g gv) (rs1 @ rs2) s) \<and>
      type_hit_list e fo NamespaceAll gv r = [] \<and>
      type_events e fo NamespaceAll g gv r =
        [ListCall (WithResource gv (Name r)) NamespaceAll, PrintErrorListing g er]) \<and>
   (Namespaced r \<and> ''list'' \<in> set (Verbs r) \<and>
    ListItems e (WithResource gv (Name r)) ns = Inl er' \<longrightarrow>
      resource_body_namespaced e fo ns g gv r t =
        t\<lparr>trace := trace t @ [ListCall (WithResource gv (Name r)) ns, PrintErrorListing g er']\<rparr> \<and>
      pending (fold (resource_body_namespaced e fo ns g gv) (rs1 @ r # rs2) t) =
        pending (fold (resource_body_namespaced e fo ns g gv) (rs1 @ rs2) t) \<and>
      type_hit_list e fo ns gv r = [] \<and>
      type_events e fo ns g gv r = [ListCall (WithResource gv (Name r)) ns, PrintErrorListing g er']) \<and>
   (ServerPreferredResources e = Inr gs \<and>
    (\<forall>g' \<in> set gs. \<exists>gv'. ParseGroupVersion e (GroupVersion g') = Inr gv') \<longrightarrow>
      (verdict (getResourcesWithFinalizersPendingDeletion e nss fo) = Return None \<and>
       getResourcesWithFinalizersPendingDeletion e nss fo =
         (DiscoveryCall # catalog_events e fo NamespaceAll gs,
          Return (fold file_global (catalog_hit_list e fo NamespaceAll gs) [], None)) \<and>
       global_entries (getResourcesWithFinalizersPendingDeletion e nss fo) =
         {(GetNamespace x, Name r', GetName x) | g' gv' r' items x.
            g' \<in> set gs \<and> ParseGroupVersion e (GroupVersion g') = Inr gv' \<and> r' \<in> set (APIResources g') \<and>
            Namespaced r' \<and> ''list'' \<in> set (Verbs r') \<and>
            ListItems e (WithResource gv' (Name r')) NamespaceAll = Inr items \<and> x \<in> set items \<and> kept e fo x} \<and>
       (\<forall>g' \<in> set gs. \<forall>r' \<in> set (APIResources g'). \<forall>gv'.
           ParseGroupVersion e (GroupVersion g') = Inr gv' \<and> Namespaced r' \<and> ''list'' \<in> set (Verbs r') \<longrightarrow>
             ListCall (WithResource gv' (Name r')) NamespaceAll
               \<in> set (fst (getResourcesWithFinalizersPendingDeletion e nss fo)) \<and>
             (\<forall>er''. ListItems e (WithResource gv' (Name r')) NamespaceAll = Inl er'' \<longrightarrow>
                PrintErrorListing (GroupVersion g') er''
                  \<in> set (fst (getResourcesWithFinalizersPendingDeletion e nss fo))))) \<and>
      (verdict (getNamespacedResourcesWithFinalizersPendingDeletion e ns fo) = Return None \<and>
       getNamespacedResourcesWithFinalizersPendingDeletion e ns fo =
         (DiscoveryCall # catalog_events e fo ns gs,
          Return (fold file_namespaced (catalog_hit_list e fo ns gs) [], None)) \<and>
       scoped_entries ns (getNamespacedResourcesWithFinalizersPendingDeletion e ns fo) =
         {(ns, Name r', GetName x) | g' gv' r' items x.
            g' \<in> set gs \<and> ParseGroupVersion e (GroupVersion g') = Inr gv' \<and> r' \<in> set (APIResources g') \<and>
            Namespaced r' \<and> ''list'' \<in> set (Verbs r') \<and>
            ListItems e (WithResource gv' (Name r')) ns = Inr items \<and> x \<in> set items \<and> kept e fo x} \<and>
       (\<forall>g' \<in> set gs. \<forall>r' \<in> set (APIResources g'). \<forall>gv'.
           ParseGroupVersion e (GroupVersion g') = Inr gv' \<and> Namespaced r' \<and> ''list'' \<in> set (Verbs r') \<longrightarrow>
             ListCall (WithResource gv' (Name r')) ns
               \<in> set (fst (getNamespacedResourcesWithFinalizersPendingDeletion e ns fo)) \<and>
             (\<forall>er''. ListItems e (WithResource gv' (Name r')) ns = Inl er'' \<longrightarrow>
                PrintErrorListing (GroupVersion g') er''
                  \<in> set (fst (getNamespacedResourcesWithFinalizersPendingDeletion e ns fo)))))) \<and>
   (ServerPreferredResources e = Inr gs \<longrightarrow>
      getResourcesWithFinalizersPendingDeletion e nss fo =
        (DiscoveryCall # catalog_events e fo NamespaceAll (parsed_prefix e gs),
         Return (fold file_global (catalog_hit_list e fo NamespaceAll (parsed_prefix e gs)) [],
                 parse_error e gs)) \<and>
      getNamespacedResourcesWithFinalizersPendingDeletion e ns fo =
        (DiscoveryCall # catalog_events e fo ns (parsed_prefix e gs),
         Return (fold file_namespaced (catalog_hit_list e fo ns (parsed_prefix e gs)) [],
                 parse_error e gs)))"
proof -
  have global_step: "Namespaced r \<and> ''list'' \<in> set (Verbs r) \<and>
    ListItems e (WithResource gv (Name r)) NamespaceAll = Inl er \<longrightarrow>
      resource_body_global e fo g gv r s =
        s\<lparr>trace := trace s @ [ListCall (WithResource gv (Name r)) NamespaceAll, PrintErrorListing g er]\<rparr> \<and>
      pending (fold (resource_body_global e fo g gv) (rs1 @ r # rs2) s) =
        pending (fold (resource_body_global e fo g gv) (rs1 @ rs2) s) \<and>
      type_hit_list e fo NamespaceAll gv r = [] \<and>
      type_events e fo NamespaceAll g gv r =
        [ListCall (WithResource gv (Name r)) NamespaceAll, PrintErrorListing g er]"
  proof (intro impI, elim conjE)
    assume a1: "Namespaced r" and a2: "''list'' \<in> set (Verbs r)"
      and a3: "ListItems e (WithResource gv (Name r)) NamespaceAll = Inl er"
    from resource_body_global_list_error [OF a1 a2 a3, of fo g s]
      fold_resource_global_skip [OF a1 a2 a3, of fo g rs1 rs2 s]
      failing_type_contributes_nothing [OF a1 a2 a3, of fo g]
    show "resource_body_global e fo g gv r s =
        s\<lparr>trace := trace s @ [ListCall (WithResource gv (Name r)) NamespaceAll, PrintErrorListing g er]\<rparr> \<and>
      pending (fold (resource_body_global e fo g gv) (rs1 @ r # rs2) s) =
        pending (fold (resource_body_global e fo g gv) (rs1 @ rs2) s) \<and>
      type_hit_list e fo NamespaceAll gv r = [] \<and>
      type_events e fo NamespaceAll g gv r =
        [ListCall (WithResource gv (Name r)) NamespaceAll, PrintErrorListing g er]"
      by (intro conjI) simp_all
  qed
  have namespaced_step: "Namespaced r \<and> ''list'' \<in> set (Verbs r) \<and>
    ListItems e (WithResource gv (Name r)) ns = Inl er' \<longrightarrow>
      resource_body_namespaced e fo ns g gv r t =
        t\<lparr>trace := trace t @ [ListCall (WithResource gv (Name r)) ns, PrintErrorListing g er']\<rparr> \<and>
      pending (fold (resource_body_namespaced e fo ns g gv) (rs1 @ r # rs2) t) =
        pending (fold (resource_body_namespaced e fo ns g gv) (rs1 @ rs2) t) \<and>
      type_hit_list e fo ns gv r = [] \<and>
      type_events e fo ns g gv r = [ListCall (WithResource gv (Name r)) ns, PrintErrorListing g er']"
  proof (intro impI, elim conjE)
    assume a1: "Namespaced r" and a2: "''list'' \<in> set (Verbs r)"
      and a3: "ListItems e (WithResource gv (Name r)) ns = Inl er'"
    from resource_body_namespaced_list_error [OF a1 a2 a3, of fo g t]
      fold_resource_namespaced_skip [OF a1 a2 a3, of fo g rs1 rs2 t]
      failing_type_contributes_nothing [OF a1 a2 a3, of fo g]
    show "resource_body_namespaced e fo ns g gv r t =
        t\<lparr>trace := trace t @ [ListCall (WithResource gv (Name r)) ns, PrintErrorListing g er']\<rparr> \<and>
      pending (fold (resource_body_namespaced e fo ns g gv) (rs1 @ r # rs2) t) =
        pending (fold (resource_body_namespaced e fo ns g gv) (rs1 @ rs2) t) \<and>
      type_hit_list e fo ns gv r = [] \<and>
      type_events e fo ns g gv r = [ListCall (WithResource gv (Name r)) ns, PrintErrorListing g er']"
      by (intro conjI) simp_all
  qed
  show ?thesis
    apply (rule conjI [OF global_step conjI [OF namespaced_step conjI]])
     apply (intro impI, elim conjE, rule conjI)
      apply (erule (1) global_scan_after_failures)
     apply (erule (1) namespaced_scan_after_failures)
    apply (intro impI)
    apply (erule scans_exact_prefix)
    done
qed

theorem list_failure_is_skipped_witness:
  "Namespaced secrets \<and> ''list'' \<in> set (Verbs secrets) \<and>
   ListItems ex_env (WithResource core_v1 (Name secrets)) NamespaceAll = Inl ''forbidden'' \<and>
   ListItems ex_env (WithResource core_v1 (Name secrets)) ''staging'' = Inl ''forbidden'' \<and>
   ServerPreferredResources ex_env = Inr ex_catalog \<and>
   map GroupVersion ex_catalog = [''v1'', ''apps/v1''] \<and>
   ParseGroupVersion ex_env ''v1'' = Inr core_v1 \<and>
   ParseGroupVersion ex_env ''apps/v1'' = Inr \<lparr>Group = ''apps'', Version = ''v1''\<rparr> \<and>
   type_hit_list ex_env ex_filterOpts NamespaceAll core_v1 secrets = [] \<and>
   type_events ex_env ex_filterOpts NamespaceAll ''v1'' core_v1 secrets =
     [ListCall (WithResource core_v1 (Name secrets)) NamespaceAll, PrintErrorListing ''v1'' ''forbidden''] \<and>
   type_hit_list ex_env ex_filterOpts ''staging'' core_v1 secrets = [] \<and>
   type_events ex_env ex_filterOpts ''staging'' ''v1'' core_v1 secrets =
     [ListCall (WithResource core_v1 (Name secrets)) ''staging'', PrintErrorListing ''v1'' ''forbidden''] \<and>
   getResourcesWithFinalizersPendingDeletion ex_env [] ex_filterOpts =
     (DiscoveryCall # catalog_events ex_env ex_filterOpts NamespaceAll ex_catalog,
      Return (fold file_global (catalog_hit_list ex_env ex_filterOpts NamespaceAll ex_catalog) [], None)) \<and>
   getNamespacedResourcesWithFinalizersPendingDeletion ex_env ''staging'' ex_filterOpts =
     (DiscoveryCall # catalog_events ex_env ex_filterOpts ''staging'' (parsed_prefix ex_env ex_catalog),
      Return (fold file_namespaced
                (catalog_hit_list ex_env ex_filterOpts ''staging'' (parsed_prefix ex_env ex_catalog)) [],
              parse_error ex_env ex_catalog)) \<and>
   parsed_prefix ex_env ex_catalog = ex_catalog \<and>
   parse_error ex_env ex_catalog = None \<and>
   getResourcesWithFinalizersPendingDeletion ex_env [] ex_filterOpts =
     ([DiscoveryCall,
       ListCall \<lparr>Group = [], Version = ''v1'', Resource = ''configmaps''\<rparr> NamespaceAll,
       HasExcludedLabelCall Map.empty [], HasIncludedAgeCall 10,
       HasExcludedLabelCall Map.empty [], HasIncludedAgeCall 12,
       HasExcludedLabelCall Map.empty [], HasIncludedAgeCall 13,
       ListCall \<lparr>Group = [], Version = ''v1'', Resource = ''secrets''\<rparr> NamespaceAll,
       PrintErrorListing ''v1'' ''forbidden'',
       ListCall \<lparr>Group = ''apps'', Version = ''v1'', Resource = ''deployments''\<rparr> NamespaceAll,
       HasExcludedLabelCall Map.empty [], HasIncludedAgeCall 14],
      Return ([(''default'', [(''configmaps'', [''cm-a''])]), (''kube-system'', [(''configmaps'', [''cm-c''])]),
               (''staging'', [(''deployments'', [''web''])])], None)) \<and>
   getNamespacedResourcesWithFinalizersPendingDeletion ex_env ''staging'' ex_filterOpts =
     ([DiscoveryCall,
       ListCall \<lparr>Group = [], Version = ''v1'', Resource = ''configmaps''\<rparr> ''staging'',
       ListCall \<lparr>Group = [], Version = ''v1'', Resource = ''secrets''\<rparr> ''staging'',
       PrintErrorListing ''v1'' ''forbidden'',
       ListCall \<lparr>Group = ''apps'', Version = ''v1'', Resource = ''deployments''\<rparr> ''staging'',
       HasExcludedLabelCall Map.empty [], HasIncludedAgeCall 14],
      Return ([(''deployments'', [''web''])], None))"
proof -
  have h: "Namespaced secrets \<and> ''list'' \<in> set (Verbs secrets) \<and>
   ListItems ex_env (WithResource core_v1 (Name secrets)) NamespaceAll = Inl ''forbidden'' \<and>
   ListItems ex_env (WithResource core_v1 (Name secrets)) ''staging'' = Inl ''forbidden'' \<and>
   ServerPreferredResources ex_env = Inr ex_catalog \<and>
   map GroupVersion ex_catalog = [''v1'', ''apps/v1''] \<and>
   ParseGroupVersion ex_env ''v1'' = Inr core_v1 \<and>
   ParseGroupVersion ex_env ''apps/v1'' = Inr \<lparr>Group = ''apps'', Version = ''v1''\<rparr>"
    by (simp add: secrets_def core_v1_def WithResource_def NamespaceAll_def cluster_list_def ex_defs)
  have parse: "ServerPreferredResources ex_env = Inr ex_catalog \<and>
      (\<forall>g' \<in> set ex_catalog. \<exists>gv'. ParseGroupVersion ex_env (GroupVersion g') = Inr gv')"
    by (simp add: ex_defs)
  have hg: "Namespaced secrets \<and> ''list'' \<in> set (Verbs secrets) \<and>
      ListItems ex_env (WithResource core_v1 (Name secrets)) NamespaceAll = Inl ''forbidden''"
    using h by simp
  have hs: "Namespaced secrets \<and> ''list'' \<in> set (Verbs secrets) \<and>
      ListItems ex_env (WithResource core_v1 (Name secrets)) ''staging'' = Inl ''forbidden''"
    using h by simp
  note T = list_failure_is_skipped [where e = ex_env and gs = ex_catalog and fo = ex_filterOpts
      and nss = "[]" and ns = "''staging''" and r = secrets and gv = core_v1 and g = "''v1''"
      and er = "''forbidden''" and er' = "''forbidden''"]
  note step_global = T [THEN conjunct1, THEN mp, OF hg, THEN conjunct2, THEN conjunct2]
  note step_scoped = T [THEN conjunct2, THEN conjunct1, THEN mp, OF hs, THEN conjunct2, THEN conjunct2]
  note scan = T [THEN conjunct2, THEN conjunct2, THEN conjunct1, THEN mp, OF parse, THEN conjunct1,
      THEN conjunct2, THEN conjunct1]
  have discovery: "ServerPreferredResources ex_env = Inr ex_catalog"
    using h by simp
  note upto = T [THEN conjunct2, THEN conjunct2, THEN conjunct2, THEN mp, OF discovery, THEN conjunct2]
  have pre: "parsed_prefix ex_env ex_catalog = ex_catalog \<and> parse_error ex_env ex_catalog = None"
    by (simp add: parsed_prefix_def parse_error_def parses_def ex_defs)
  have ev: "getResourcesWithFinalizersPendingDeletion ex_env [] ex_filterOpts =
     ([DiscoveryCall,
       ListCall \<lparr>Group = [], Version = ''v1'', Resource = ''configmaps''\<rparr> NamespaceAll,
       HasExcludedLabelCall Map.empty [], HasIncludedAgeCall 10,
       HasExcludedLabelCall Map.empty [], HasIncludedAgeCall 12,
       HasExcludedLabelCall Map.empty [], HasIncludedAgeCall 13,
       ListCall \<lparr>Group = [], Version = ''v1'', Resource = ''secrets''\<rparr> NamespaceAll,
       PrintErrorListing ''v1'' ''forbidden'',
       ListCall \<lparr>Group = ''apps'', Version = ''v1'', Resource = ''deployments''\<rparr> NamespaceAll,
       HasExcludedLabelCall Map.empty [], HasIncludedAgeCall 14],
      Return ([(''default'', [(''configmaps'', [''cm-a''])]), (''kube-system'', [(''configmaps'', [''cm-c''])]),
               (''staging'', [(''deployments'', [''web''])])], None)) \<and>
   getNamespacedResourcesWithFinalizersPendingDeletion ex_env ''staging'' ex_filterOpts =
     ([DiscoveryCall,
       ListCall \<lparr>Group = [], Version = ''v1'', Resource = ''configmaps''\<rparr> ''staging'',
       ListCall \<lparr>Group = [], Version = ''v1'', Resource = ''secrets''\<rparr> ''staging'',
       PrintErrorListing ''v1'' ''forbidden'',
       ListCall \<lparr>Group = ''apps'', Version = ''v1'', Resource = ''deployments''\<rparr> ''staging'',
       HasExcludedLabelCall Map.empty [], HasIncludedAgeCall 14],
      Return ([(''deployments'', [''web''])], None))"
    by (simp add: run_defs ex_defs)
  from h step_global step_scoped scan upto pre ev show ?thesis by blast
qed

end
